(* ===== verification/Bb_Prelude.thy ===== *)
theory Bb_Prelude
  imports Main "HOL-Library.AList"
begin

text \<open>
  Shared vocabulary of the bb-auth development: hash tables (\<^verbatim>\<open>QHash\<close> and
  \<^verbatim>\<open>std::unordered_map\<close>), sockets and clocks, and the lemma collections the component
  theories use.

  A hash table is an association list whose keys are distinct.  The position of an entry
  stands for its place in the iteration order of the C++ container, which is unspecified;
  lemmas about loops over a table are stated for every list, hence for every order.
\<close>

section \<open>Lemma collections\<close>

named_theorems frame_simps \<open>fields an operation leaves unchanged\<close>
named_theorems wf_intros \<open>well-formedness is kept by an operation\<close>

section \<open>Sockets\<close>

text \<open>
  A \<^verbatim>\<open>QLocalSocket*\<close> is a number; \<open>0\<close> is the null pointer, as the code's tests
  \<^verbatim>\<open>!socket\<close> need.
\<close>

type_synonym socket = nat

abbreviation (input) nullptr :: socket where "nullptr \<equiv> 0"

section \<open>The interface of a hash table\<close>

text \<open>
  What the program's components rely on when they keep a \<^verbatim>\<open>QHash\<close>: lookup after insert,
  lookup after remove, and that the keys listed are exactly the keys found.
\<close>

locale hash_table =
  fixes find :: "'t \<Rightarrow> 'k \<Rightarrow> 'v option"
    and ins :: "'k \<Rightarrow> 'v \<Rightarrow> 't \<Rightarrow> 't"
    and rem :: "'k \<Rightarrow> 't \<Rightarrow> 't"
    and keys :: "'t \<Rightarrow> 'k list"
    and wf :: "'t \<Rightarrow> bool"
  assumes find_ins: "find (ins k v t) k' = (if k' = k then Some v else find t k')"
    and find_rem: "find (rem k t) k' = (if k' = k then None else find t k')"
    and keys_find: "k \<in> set (keys t) \<longleftrightarrow> find t k \<noteq> None"
    and wf_ins: "wf t \<Longrightarrow> wf (ins k v t)"
    and wf_rem: "wf t \<Longrightarrow> wf (rem k t)"
    and wf_keys: "wf t \<Longrightarrow> distinct (keys t)"
begin

lemma keys_ins: "set (keys (ins k v t)) = insert k (set (keys t))"
  by (auto simp: keys_find find_ins split: if_splits)

lemma keys_rem: "set (keys (rem k t)) = set (keys t) - {k}"
  by (auto simp: keys_find find_rem split: if_splits)

lemma rem_ins_find: "find t k = None \<Longrightarrow> find (rem k (ins k v t)) k' = find t k'"
  by (simp add: find_ins find_rem)

lemma ins_ins_find: "find (ins k v (ins k w t)) k' = find (ins k v t) k'"
  by (simp add: find_ins)

lemma size_ins_fresh:
  assumes "wf t" and "find t k = None"
  shows "length (keys (ins k v t)) = Suc (length (keys t))"
proof -
  have "distinct (keys (ins k v t))" and "distinct (keys t)"
    using assms(1) by (auto intro: wf_keys wf_ins)
  moreover have "k \<notin> set (keys t)" using assms(2) by (simp add: keys_find)
  ultimately show ?thesis
    using keys_ins[of k v t] by (metis card_insert_disjoint distinct_card finite_set)
qed

end

section \<open>Hash tables as association lists\<close>

type_synonym ('k, 'v) hash = "('k \<times> 'v) list"

abbreviation hash_find :: "('k, 'v) hash \<Rightarrow> 'k \<Rightarrow> 'v option" where
  "hash_find \<equiv> map_of"

abbreviation hash_put :: "'k \<Rightarrow> 'v \<Rightarrow> ('k, 'v) hash \<Rightarrow> ('k, 'v) hash" where
  "hash_put \<equiv> AList.update"

abbreviation hash_del :: "'k \<Rightarrow> ('k, 'v) hash \<Rightarrow> ('k, 'v) hash" where
  "hash_del \<equiv> AList.delete"

abbreviation hash_keys :: "('k, 'v) hash \<Rightarrow> 'k list" where
  "hash_keys \<equiv> map fst"

definition hash_has :: "('k, 'v) hash \<Rightarrow> 'k \<Rightarrow> bool" where
  "hash_has t k \<longleftrightarrow> hash_find t k \<noteq> None"

definition hash_wf :: "('k, 'v) hash \<Rightarrow> bool" where
  "hash_wf t \<longleftrightarrow> distinct (hash_keys t)"

interpretation qhash: hash_table hash_find hash_put hash_del hash_keys hash_wf
proof unfold_locales
  fix k k' :: 'a and v :: 'b and t :: "('a, 'b) hash"
  show "hash_find (hash_put k v t) k' = (if k' = k then Some v else hash_find t k')"
    by (simp add: update_conv')
  show "hash_find (hash_del k t) k' = (if k' = k then None else hash_find t k')"
    by (simp add: delete_conv')
  show "k \<in> set (hash_keys t) \<longleftrightarrow> hash_find t k \<noteq> None"
    by (simp add: map_of_eq_None_iff)
  show "hash_wf t \<Longrightarrow> hash_wf (hash_put k v t)"
    by (simp add: hash_wf_def distinct_update)
  show "hash_wf t \<Longrightarrow> hash_wf (hash_del k t)"
    by (simp add: hash_wf_def distinct_delete)
  show "hash_wf t \<Longrightarrow> distinct (hash_keys t)"
    by (simp add: hash_wf_def)
qed

lemmas hash_find_simps [simp] = qhash.find_ins qhash.find_rem
lemmas hash_wf_intros [intro, wf_intros] = qhash.wf_ins qhash.wf_rem

lemma hash_wf_Nil [simp]: "hash_wf []"
  by (simp add: hash_wf_def)

lemma hash_has_put [simp]: "hash_has (hash_put k v t) k' \<longleftrightarrow> k' = k \<or> hash_has t k'"
  by (auto simp: hash_has_def)

lemma hash_has_del [simp]: "hash_has (hash_del k t) k' \<longleftrightarrow> k' \<noteq> k \<and> hash_has t k'"
  by (auto simp: hash_has_def)

lemma hash_has_Nil [simp]: "\<not> hash_has [] k"
  by (simp add: hash_has_def)

lemma hash_has_Cons [simp]: "hash_has ((a, b) # t) k \<longleftrightarrow> k = a \<or> hash_has t k"
  by (simp add: hash_has_def)

lemma hash_has_keys: "hash_has t k \<longleftrightarrow> k \<in> set (hash_keys t)"
  by (auto simp: hash_has_def map_of_eq_None_iff)

lemma hash_put_neq_Nil [simp]: "hash_put k v t \<noteq> []"
  by (cases t) auto

lemma hash_del_absent: "\<not> hash_has t k \<Longrightarrow> hash_del k t = t"
  by (simp add: hash_has_def delete_id map_of_eq_None_iff)

lemma hash_wf_filter: "hash_wf t \<Longrightarrow> hash_wf (filter P t)"
  by (simp add: hash_wf_def distinct_map_filter)

lemma hash_find_mem: "hash_wf t \<Longrightarrow> (k, v) \<in> set t \<Longrightarrow> hash_find t k = Some v"
  by (simp add: hash_wf_def)

lemma hash_find_filter:
  "hash_wf t \<Longrightarrow> hash_find (filter P t) k =
     (case hash_find t k of None \<Rightarrow> None | Some v \<Rightarrow> if P (k, v) then Some v else None)"
proof (induction t)
  case (Cons kv t)
  obtain k' v' where kv: "kv = (k', v')" by force
  have "hash_wf t" and fresh: "hash_find t k' = None"
    using Cons.prems kv by (auto simp: hash_wf_def map_of_eq_None_iff)
  with Cons.IH show ?case by (auto simp: kv split: option.splits)
qed simp

section \<open>Lists\<close>

text \<open>\<^verbatim>\<open>QList::removeOne\<close> and \<^verbatim>\<open>QList::removeAll\<close>.\<close>

abbreviation removeOne :: "'a \<Rightarrow> 'a list \<Rightarrow> 'a list" where
  "removeOne \<equiv> remove1"

abbreviation removeAllOf :: "'a \<Rightarrow> 'a list \<Rightarrow> 'a list" where
  "removeAllOf \<equiv> removeAll"

end
