(* ===== verification/Qt_Base.thy ===== *)
theory Qt_Base
  imports Complex_Main Bb_Prelude
begin

text \<open>
  The parts of Qt's value types the sources use: strings and JSON objects.  A
  \<^verbatim>\<open>QString\<close> is a list of characters; a character stands for one UTF-16 code unit
  of the Latin-1 range, which contains every literal the modelled code compares with.  A
  \<^verbatim>\<open>QJsonObject\<close> is a hash table from keys to values; reading an absent key gives
  \<^verbatim>\<open>undefined\<close>, here \<open>None\<close>.
\<close>

section \<open>Characters and strings\<close>

text \<open>\<^verbatim>\<open>QChar::isSpace\<close> on Latin-1: blank, the controls 9 to 13, NEL and NBSP.\<close>

definition isSpace :: "char \<Rightarrow> bool" where
  "isSpace c = (let n = of_char c :: nat in n = 32 \<or> (9 \<le> n \<and> n \<le> 13) \<or> n = 133 \<or> n = 160)"

text \<open>\<^verbatim>\<open>QString::trimmed\<close>.\<close>

definition trimmed :: "string \<Rightarrow> string" where
  "trimmed s = rev (dropWhile isSpace (rev (dropWhile isSpace s)))"

text \<open>\<^verbatim>\<open>QString::toLower\<close> on Latin-1.\<close>

definition lowerChar :: "char \<Rightarrow> char" where
  "lowerChar c = (let n = of_char c :: nat in
     if (65 \<le> n \<and> n \<le> 90) \<or> (192 \<le> n \<and> n \<le> 222 \<and> n \<noteq> 215) then char_of (n + 32) else c)"

definition toLower :: "string \<Rightarrow> string" where
  "toLower s = map lowerChar s"

text \<open>\<^verbatim>\<open>startsWith\<close>, \<^verbatim>\<open>endsWith\<close> and \<^verbatim>\<open>contains\<close> (case-sensitive).\<close>

definition startsWith :: "string \<Rightarrow> string \<Rightarrow> bool" where
  "startsWith s p \<longleftrightarrow> take (length p) s = p"

definition endsWith :: "string \<Rightarrow> string \<Rightarrow> bool" where
  "endsWith s p \<longleftrightarrow> startsWith (rev s) (rev p)"

fun containsStr :: "string \<Rightarrow> string \<Rightarrow> bool" where
  "containsStr [] p = (p = [])"
| "containsStr (c # s) p = (startsWith (c # s) p \<or> containsStr s p)"

definition containsCI :: "string \<Rightarrow> string \<Rightarrow> bool" where
  "containsCI s p = containsStr (toLower s) (toLower p)"

text \<open>\<^verbatim>\<open>compare(\<dots>, Qt::CaseInsensitive) == 0\<close>.\<close>

definition equalCI :: "string \<Rightarrow> string \<Rightarrow> bool" where
  "equalCI s t \<longleftrightarrow> toLower s = toLower t"

text \<open>\<^verbatim>\<open>split(c)\<close> keeps empty parts; \<^verbatim>\<open>join\<close>.\<close>

fun splitOn :: "'a \<Rightarrow> 'a list \<Rightarrow> 'a list list" where
  "splitOn c [] = [[]]"
| "splitOn c (x # xs) =
     (if x = c then [] # splitOn c xs
      else case splitOn c xs of [] \<Rightarrow> [[x]] | w # ws \<Rightarrow> (x # w) # ws)"

fun joinWith :: "'a list \<Rightarrow> 'a list list \<Rightarrow> 'a list" where
  "joinWith sep [] = []"
| "joinWith sep [w] = w"
| "joinWith sep (w # ws) = w @ sep @ joinWith sep ws"

text \<open>\<^verbatim>\<open>QString::simplified\<close>: the words between white space, joined by one blank.\<close>

fun spaceWords :: "string \<Rightarrow> string \<Rightarrow> string list" where
  "spaceWords w [] = (if w = [] then [] else [rev w])"
| "spaceWords w (c # s) =
     (if isSpace c then (if w = [] then spaceWords [] s else rev w # spaceWords [] s)
      else spaceWords (c # w) s)"

definition simplified :: "string \<Rightarrow> string" where
  "simplified s = joinWith '' '' (spaceWords [] s)"

text \<open>\<^verbatim>\<open>QFileInfo::fileName\<close>: what follows the last slash.\<close>

definition fileName :: "string \<Rightarrow> string" where
  "fileName p = last (splitOn (CHR ''/'') p)"

text \<open>\<^verbatim>\<open>QFileInfo::baseName\<close>: the file name up to its first dot.\<close>

definition baseName :: "string \<Rightarrow> string" where
  "baseName p = takeWhile (\<lambda>c. c \<noteq> CHR ''.'') (fileName p)"

text \<open>\<^verbatim>\<open>QString::number\<close>: decimal digits, with a sign when negative.\<close>

fun showNat :: "nat \<Rightarrow> string" where
  "showNat n = (if n < 10 then [char_of (48 + n)] else showNat (n div 10) @ [char_of (48 + n mod 10)])"

declare showNat.simps [simp del]

definition showInt :: "int \<Rightarrow> string" where
  "showInt n = (if n < 0 then ''-'' @ showNat (nat (- n)) else showNat (nat n))"

lemma splitOn_neq_Nil [simp]: "splitOn c xs \<noteq> []"
  by (cases xs) (auto split: list.splits)

lemma splitOn_none: "c \<notin> set xs \<Longrightarrow> splitOn c xs = [xs]"
  by (induction xs) auto

lemma splitOn_parts: "w \<in> set (splitOn c xs) \<Longrightarrow> c \<notin> set w"
proof (induction xs arbitrary: w)
  case (Cons x xs)
  then show ?case by (cases "splitOn c xs") (auto split: if_splits)
qed simp

lemma joinWith_splitOn: "joinWith [c] (splitOn c xs) = xs"
proof (induction xs)
  case (Cons x xs)
  then show ?case
    by (cases "splitOn c xs"; cases "tl (splitOn c xs)") auto
qed simp

lemma length_toLower [simp]: "length (toLower s) = length s"
  by (simp add: toLower_def)

lemma fileName_no_slash: "CHR ''/'' \<notin> set (fileName p)"
  unfolding fileName_def by (rule splitOn_parts [of _ _ p]) simp

lemma trimmed_no_space_ends:
  assumes "trimmed s \<noteq> []"
  shows "\<not> isSpace (hd (trimmed s)) \<and> \<not> isSpace (last (trimmed s))"
proof -
  let ?u = "dropWhile isSpace s"
  let ?v = "dropWhile isSpace (rev ?u)"
  have v: "?v \<noteq> []" using assms by (simp add: trimmed_def)
  have "\<not> isSpace (hd ?v)" using v by (rule hd_dropWhile)
  moreover have u: "?u \<noteq> []" using v by (metis dropWhile.simps(1) rev.simps(1))
  have "rev ?u = takeWhile isSpace (rev ?u) @ ?v" by simp
  then have "?u = rev ?v @ rev (takeWhile isSpace (rev ?u))" by (metis rev_append rev_rev_ident)
  then have "hd ?u = hd (rev ?v)" using v by (metis hd_append2 rev_is_Nil_conv)
  moreover have "\<not> isSpace (hd ?u)" using u by (rule hd_dropWhile)
  ultimately show ?thesis using v by (simp add: trimmed_def last_rev)
qed

section \<open>JSON\<close>

text \<open>Numbers are rational: every double is one, and the code tells whole numbers apart.\<close>

datatype json =
    JNull
  | JBool bool
  | JNum rat
  | JStr string
  | JArr "json list"
  | JObj "(string \<times> json) list"

type_synonym jobject = "(string \<times> json) list"

abbreviation JInt :: "int \<Rightarrow> json" where "JInt n \<equiv> JNum (of_int n)"

text \<open>\<^verbatim>\<open>QJsonObject::value\<close> and the conversions of \<^verbatim>\<open>QJsonValue\<close>, which fall back to
  a default when the value has another type.\<close>

abbreviation jvalue :: "jobject \<Rightarrow> string \<Rightarrow> json option" where
  "jvalue \<equiv> hash_find"

abbreviation jcontains :: "jobject \<Rightarrow> string \<Rightarrow> bool" where
  "jcontains \<equiv> hash_has"

definition toStr :: "json option \<Rightarrow> string" where
  "toStr v = (case v of Some (JStr s) \<Rightarrow> s | _ \<Rightarrow> [])"

definition toBool :: "json option \<Rightarrow> bool" where
  "toBool v = (case v of Some (JBool b) \<Rightarrow> b | _ \<Rightarrow> False)"

definition toInt :: "json option \<Rightarrow> int" where
  "toInt v = (case v of
     Some (JNum x) \<Rightarrow>
       (let n = \<lfloor>x\<rfloor> in if of_int n = x \<and> - 2147483648 \<le> n \<and> n \<le> 2147483647 then n else 0)
   | _ \<Rightarrow> 0)"

definition toObject :: "json option \<Rightarrow> jobject" where
  "toObject v = (case v of Some (JObj o') \<Rightarrow> o' | _ \<Rightarrow> [])"

definition toArray :: "json option \<Rightarrow> json list" where
  "toArray v = (case v of Some (JArr a) \<Rightarrow> a | _ \<Rightarrow> [])"

definition isDouble :: "json option \<Rightarrow> bool" where
  "isDouble v = (case v of Some (JNum _) \<Rightarrow> True | _ \<Rightarrow> False)"

definition isBool :: "json option \<Rightarrow> bool" where
  "isBool v = (case v of Some (JBool _) \<Rightarrow> True | _ \<Rightarrow> False)"

definition isString :: "json option \<Rightarrow> bool" where
  "isString v = (case v of Some (JStr _) \<Rightarrow> True | _ \<Rightarrow> False)"

definition isArray :: "json option \<Rightarrow> bool" where
  "isArray v = (case v of Some (JArr _) \<Rightarrow> True | _ \<Rightarrow> False)"

definition isObject :: "json option \<Rightarrow> bool" where
  "isObject v = (case v of Some (JObj _) \<Rightarrow> True | _ \<Rightarrow> False)"

definition isUndefinedOrNull :: "json option \<Rightarrow> bool" where
  "isUndefinedOrNull v = (case v of None \<Rightarrow> True | Some JNull \<Rightarrow> True | _ \<Rightarrow> False)"

lemma toStr_simps [simp]: "toStr (Some (JStr s)) = s" "toStr None = []"
  by (simp_all add: toStr_def)

lemma toBool_simps [simp]: "toBool (Some (JBool b)) = b" "toBool None = False"
  by (simp_all add: toBool_def)

lemma toObject_simps [simp]: "toObject (Some (JObj x)) = x" "toObject None = []"
  by (simp_all add: toObject_def)

lemma toInt_JInt [simp]:
  "- 2147483648 \<le> n \<Longrightarrow> n \<le> 2147483647 \<Longrightarrow> toInt (Some (JInt n)) = n"
  by (simp add: toInt_def)

lemma toInt_None [simp]: "toInt None = 0"
  by (simp add: toInt_def)

lemma toInt_range: "- 2147483648 \<le> toInt v \<and> toInt v \<le> 2147483647"
  by (auto simp: toInt_def Let_def split: option.splits json.splits)

text \<open>The error replies of the IPC protocol.\<close>

definition errorMsg :: "string \<Rightarrow> jobject" where
  "errorMsg m = [(''type'', JStr ''error''), (''message'', JStr m)]"

definition okMsg :: jobject where
  "okMsg = [(''type'', JStr ''ok'')]"

lemma type_of_replies [simp]:
  "toStr (jvalue (errorMsg m) ''type'') = ''error''"
  "toStr (jvalue (errorMsg m) ''message'') = m"
  "toStr (jvalue okMsg ''type'') = ''ok''"
  by (simp_all add: errorMsg_def okMsg_def)

end
