(* ===== verification/Session_Model.thy ===== *)
theory Session_Model
  imports Qt_Base
begin

text \<open>
  One authentication session, \<^verbatim>\<open>src/core/Session.hpp\<close> and
  \<^verbatim>\<open>Session.cpp\<close>: its data, its state transitions and its serialisation to the
  three session events of the IPC protocol.
\<close>

section \<open>Data\<close>

datatype source = Polkit | Keyring | Pinentry

datatype sstate = Prompting | Closed

datatype sresult = Success | Cancelled | ResError

record requestor =
  rq_name :: string
  rq_icon :: string
  rq_fallbackLetter :: string
  rq_fallbackKey :: string
  rq_pid :: int

record sctx =
  cx_message :: string
  cx_requestor :: requestor
  cx_actionId :: string
  cx_user :: string
  cx_details :: jobject
  cx_keyringName :: string
  cx_description :: string
  cx_keyinfo :: string
  cx_curRetry :: int
  cx_maxRetries :: int
  cx_confirmOnly :: bool
  cx_repeat :: bool

record session =
  s_id :: string
  s_source :: source
  s_context :: sctx
  s_state :: sstate
  s_prompt :: string
  s_error :: string
  s_info :: string
  s_echo :: bool
  s_result :: "sresult option"

text \<open>The default member initialisers of the structs.\<close>

definition emptyRequestor :: requestor where
  "emptyRequestor = \<lparr>rq_name = [], rq_icon = [], rq_fallbackLetter = [], rq_fallbackKey = [], rq_pid = 0\<rparr>"

definition emptyCtx :: sctx where
  "emptyCtx = \<lparr>cx_message = [], cx_requestor = emptyRequestor, cx_actionId = [], cx_user = [],
     cx_details = [], cx_keyringName = [], cx_description = [], cx_keyinfo = [],
     cx_curRetry = 0, cx_maxRetries = 3, cx_confirmOnly = False, cx_repeat = False\<rparr>"

definition newSession :: "string \<Rightarrow> source \<Rightarrow> sctx \<Rightarrow> session" where
  "newSession i src ctx = \<lparr>s_id = i, s_source = src, s_context = ctx, s_state = Prompting,
     s_prompt = [], s_error = [], s_info = [], s_echo = False, s_result = None\<rparr>"

section \<open>State transitions\<close>

definition setPrompt :: "string \<Rightarrow> bool \<Rightarrow> bool \<Rightarrow> session \<Rightarrow> session" where
  "setPrompt prompt echo clearError s =
     (let s = s\<lparr>s_prompt := prompt, s_echo := echo, s_state := Prompting\<rparr>;
          s = (if clearError then s\<lparr>s_error := []\<rparr> else s)
      in s\<lparr>s_info := []\<rparr>)"

definition setError :: "string \<Rightarrow> session \<Rightarrow> session" where
  "setError e s = s\<lparr>s_error := e\<rparr>"

definition setInfo :: "string \<Rightarrow> session \<Rightarrow> session" where
  "setInfo i s = s\<lparr>s_info := i\<rparr>"

definition setPinentryRetry :: "int \<Rightarrow> int \<Rightarrow> session \<Rightarrow> session" where
  "setPinentryRetry cur mx s =
     (if s_source s \<noteq> Pinentry then s
      else s\<lparr>s_context := (s_context s)
               \<lparr>cx_curRetry := (if cur < 0 then 0 else cur),
                cx_maxRetries := (if mx > 0 then mx else 3)\<rparr>\<rparr>)"

definition closeWith :: "sresult \<Rightarrow> session \<Rightarrow> session" where
  "closeWith r s =
     (let s = s\<lparr>s_result := Some r, s_state := Closed\<rparr>
      in if r = Success then s\<lparr>s_error := []\<rparr> else s)"

section \<open>Serialisation\<close>

fun sourceToString :: "source \<Rightarrow> string" where
  "sourceToString Polkit = ''polkit''"
| "sourceToString Keyring = ''keyring''"
| "sourceToString Pinentry = ''pinentry''"

fun resultToString :: "sresult \<Rightarrow> string" where
  "resultToString Success = ''success''"
| "resultToString Cancelled = ''cancelled''"
| "resultToString ResError = ''error''"

text \<open>\<open>addStr k v o'\<close> is the recurring \<^verbatim>\<open>if (!v.isEmpty()) obj[k] = v;\<close>.\<close>

definition addStr :: "string \<Rightarrow> string \<Rightarrow> jobject \<Rightarrow> jobject" where
  "addStr k v o' = (if v \<noteq> [] then hash_put k (JStr v) o' else o')"

definition requestorToJson :: "requestor \<Rightarrow> jobject" where
  "requestorToJson r =
     (let obj = [(''name'', JStr (rq_name r)), (''icon'', JStr (rq_icon r)),
                 (''fallbackLetter'', JStr (rq_fallbackLetter r))];
          obj = addStr ''fallbackKey'' (rq_fallbackKey r) obj
      in if rq_pid r > 0 then hash_put ''pid'' (JInt (rq_pid r)) obj else obj)"

definition contextToJson :: "session \<Rightarrow> jobject" where
  "contextToJson s =
     (let c = s_context s;
          ctx = [(''message'', JStr (cx_message c)),
                 (''requestor'', JObj (requestorToJson (cx_requestor c)))]
      in case s_source s of
        Polkit \<Rightarrow>
          (let ctx = addStr ''actionId'' (cx_actionId c) ctx;
               ctx = addStr ''user'' (cx_user c) ctx
           in if cx_details c \<noteq> [] then hash_put ''details'' (JObj (cx_details c)) ctx else ctx)
      | Keyring \<Rightarrow> addStr ''keyringName'' (cx_keyringName c) ctx
      | Pinentry \<Rightarrow>
          (let ctx = addStr ''description'' (cx_description c) ctx;
               ctx = addStr ''keyinfo'' (cx_keyinfo c) ctx;
               ctx = hash_put ''curRetry'' (JInt (cx_curRetry c)) ctx;
               ctx = hash_put ''maxRetries'' (JInt (cx_maxRetries c)) ctx;
               ctx = hash_put ''confirmOnly'' (JBool (cx_confirmOnly c)) ctx
           in hash_put ''repeat'' (JBool (cx_repeat c)) ctx))"

definition toCreatedEvent :: "session \<Rightarrow> jobject" where
  "toCreatedEvent s =
     [(''type'', JStr ''session.created''), (''id'', JStr (s_id s)),
      (''source'', JStr (sourceToString (s_source s))), (''context'', JObj (contextToJson s))]"

definition toUpdatedEvent :: "session \<Rightarrow> jobject" where
  "toUpdatedEvent s =
     (let event = [(''type'', JStr ''session.updated''), (''id'', JStr (s_id s)),
                   (''state'', JStr ''prompting''), (''prompt'', JStr (s_prompt s)),
                   (''echo'', JBool (s_echo s))];
          event = (if s_source s = Pinentry
                   then hash_put ''maxRetries'' (JInt (cx_maxRetries (s_context s)))
                          (hash_put ''curRetry'' (JInt (cx_curRetry (s_context s))) event)
                   else event);
          event = addStr ''error'' (s_error s) event
      in addStr ''info'' (s_info s) event)"

definition toClosedEvent :: "session \<Rightarrow> jobject" where
  "toClosedEvent s =
     (let event = [(''type'', JStr ''session.closed''), (''id'', JStr (s_id s)),
                   (''result'', JStr (resultToString
                      (case s_result s of Some r \<Rightarrow> r | None \<Rightarrow> ResError)))]
      in addStr ''error'' (s_error s) event)"

section \<open>Facts about transitions\<close>

lemma session_frames [simp, frame_simps]:
  "s_id (setPrompt p e c s) = s_id s" "s_source (setPrompt p e c s) = s_source s"
  "s_id (setError t s) = s_id s" "s_source (setError t s) = s_source s"
  "s_id (setInfo t s) = s_id s" "s_source (setInfo t s) = s_source s"
  "s_id (setPinentryRetry a b s) = s_id s" "s_source (setPinentryRetry a b s) = s_source s"
  "s_id (closeWith r s) = s_id s" "s_source (closeWith r s) = s_source s"
  "s_id (newSession i src ctx) = i" "s_source (newSession i src ctx) = src"
  by (simp_all add: setPrompt_def setError_def setInfo_def setPinentryRetry_def closeWith_def
      newSession_def Let_def)

lemma jvalue_addStr:
  "jvalue (addStr k v o') k' = (if k' = k \<and> v \<noteq> [] then Some (JStr v) else jvalue o' k')"
  by (simp add: addStr_def)

lemma event_types [simp]:
  "toStr (jvalue (toCreatedEvent s) ''type'') = ''session.created''"
  "toStr (jvalue (toUpdatedEvent s) ''type'') = ''session.updated''"
  "toStr (jvalue (toClosedEvent s) ''type'') = ''session.closed''"
  by (simp_all add: toCreatedEvent_def toUpdatedEvent_def toClosedEvent_def jvalue_addStr Let_def)

lemma event_ids [simp]:
  "toStr (jvalue (toCreatedEvent s) ''id'') = s_id s"
  "toStr (jvalue (toUpdatedEvent s) ''id'') = s_id s"
  "toStr (jvalue (toClosedEvent s) ''id'') = s_id s"
  by (simp_all add: toCreatedEvent_def toUpdatedEvent_def toClosedEvent_def jvalue_addStr Let_def)

section \<open>What an event tells its receiver\<close>

text \<open>
  The visible state of a session, and how a provider reads it back from
  \<^verbatim>\<open>session.updated\<close> (the reads are those of the fallback window's handler).
\<close>

record session_view =
  v_id :: string
  v_prompt :: string
  v_echo :: bool
  v_error :: string
  v_info :: string
  v_retry :: "(int \<times> int) option"

definition session_view_of :: "session \<Rightarrow> session_view" where
  "session_view_of s = \<lparr>v_id = s_id s, v_prompt = s_prompt s, v_echo = s_echo s,
     v_error = s_error s, v_info = s_info s,
     v_retry = (if s_source s = Pinentry
                then Some (cx_curRetry (s_context s), cx_maxRetries (s_context s)) else None)\<rparr>"

definition read_updated :: "jobject \<Rightarrow> session_view" where
  "read_updated e = \<lparr>v_id = toStr (jvalue e ''id''), v_prompt = toStr (jvalue e ''prompt''),
     v_echo = toBool (jvalue e ''echo''), v_error = toStr (jvalue e ''error''),
     v_info = toStr (jvalue e ''info''),
     v_retry = (if jcontains e ''curRetry''
                then Some (toInt (jvalue e ''curRetry''), toInt (jvalue e ''maxRetries'')) else None)\<rparr>"

text \<open>The retry counters are C++ \<^verbatim>\<open>int\<close>s and stay in their range.\<close>

definition int32 :: "int \<Rightarrow> bool" where
  "int32 n \<longleftrightarrow> - 2147483648 \<le> n \<and> n \<le> 2147483647"

definition retry_in_range :: "session \<Rightarrow> bool" where
  "retry_in_range s \<longleftrightarrow> int32 (cx_curRetry (s_context s)) \<and> int32 (cx_maxRetries (s_context s))"

lemma toUpdatedEvent_retry:
  "jvalue (toUpdatedEvent s) ''curRetry'' =
     (if s_source s = Pinentry then Some (JInt (cx_curRetry (s_context s))) else None)"
  "jvalue (toUpdatedEvent s) ''maxRetries'' =
     (if s_source s = Pinentry then Some (JInt (cx_maxRetries (s_context s))) else None)"
  by (simp_all add: toUpdatedEvent_def jvalue_addStr Let_def)

lemma toUpdatedEvent_texts:
  "jvalue (toUpdatedEvent s) ''prompt'' = Some (JStr (s_prompt s))"
  "jvalue (toUpdatedEvent s) ''echo'' = Some (JBool (s_echo s))"
  "toStr (jvalue (toUpdatedEvent s) ''error'') = s_error s"
  "toStr (jvalue (toUpdatedEvent s) ''info'') = s_info s"
  by (simp_all add: toUpdatedEvent_def jvalue_addStr Let_def)

text \<open>An updated event carries the whole visible state of its session: reading it back
  gives the prompt, echo flag, error, info and, for pinentry, the retry counters.\<close>

theorem updated_event_roundtrip:
  assumes "retry_in_range s"
  shows "read_updated (toUpdatedEvent s) = session_view_of s"
  using assms
  by (simp add: read_updated_def session_view_of_def toUpdatedEvent_retry toUpdatedEvent_texts
      hash_has_def retry_in_range_def int32_def)

definition example_session :: session where
  "example_session = setError ''bad'' (setPrompt ''PIN'' False True
     (newSession ''c1'' Pinentry (emptyCtx\<lparr>cx_curRetry := 1\<rparr>)))"

theorem updated_event_roundtrip_witness:
  "retry_in_range example_session
   \<and> read_updated (toUpdatedEvent example_session)
     = \<lparr>v_id = ''c1'', v_prompt = ''PIN'', v_echo = False, v_error = ''bad'', v_info = [],
        v_retry = Some (1, 3)\<rparr>"
proof -
  have r: "retry_in_range example_session"
    by (simp add: retry_in_range_def int32_def example_session_def newSession_def setError_def
        setPrompt_def emptyCtx_def Let_def)
  show ?thesis
    using r updated_event_roundtrip [OF r]
    by (simp add: session_view_of_def example_session_def newSession_def setError_def
        setPrompt_def emptyCtx_def Let_def)
qed

text \<open>A session closed with success tells no error and the result \<open>success\<close>; closed with
  another result it keeps its last error, whatever was set before.\<close>

theorem closed_event_result:
  "toStr (jvalue (toClosedEvent (closeWith r s)) ''result'') = resultToString r
   \<and> toStr (jvalue (toClosedEvent (closeWith r s)) ''error'') = (if r = Success then [] else s_error s)
   \<and> jcontains (toClosedEvent (closeWith r s)) ''error'' = (r \<noteq> Success \<and> s_error s \<noteq> [])"
  by (simp add: toClosedEvent_def closeWith_def Let_def jvalue_addStr hash_has_def)

text \<open>The fields a created event discloses depend on the source alone.\<close>

fun context_fields :: "source \<Rightarrow> string set" where
  "context_fields Polkit = {''message'', ''requestor'', ''actionId'', ''user'', ''details''}"
| "context_fields Keyring = {''message'', ''requestor'', ''keyringName''}"
| "context_fields Pinentry = {''message'', ''requestor'', ''description'', ''keyinfo'',
     ''curRetry'', ''maxRetries'', ''confirmOnly'', ''repeat''}"

lemma jcontains_addStr: "jcontains (addStr k v o') k' \<longleftrightarrow> (k' = k \<and> v \<noteq> []) \<or> jcontains o' k'"
  by (simp add: addStr_def)

text \<open>The context of a created event holds no field of another source: a keyring or pinentry
  context never shows a polkit action, and no polkit context shows key data.\<close>

theorem context_fields_by_source:
  "{k. jcontains (contextToJson s) k} \<subseteq> context_fields (s_source s)"
  by (cases "s_source s")
     (auto simp: contextToJson_def Let_def jcontains_addStr split: if_splits)

text \<open>Retry counters shown by a pinentry session are never negative, and the maximum is positive.\<close>

definition retry_ok :: "session \<Rightarrow> bool" where
  "retry_ok s \<longleftrightarrow> 0 \<le> cx_curRetry (s_context s) \<and> 0 < cx_maxRetries (s_context s)"

lemma retry_ok_ops [wf_intros]:
  "retry_ok s \<Longrightarrow> retry_ok (setPrompt p e c s)"
  "retry_ok s \<Longrightarrow> retry_ok (setError t s)"
  "retry_ok s \<Longrightarrow> retry_ok (setInfo t s)"
  "retry_ok s \<Longrightarrow> retry_ok (setPinentryRetry a b s)"
  "retry_ok s \<Longrightarrow> retry_ok (closeWith r s)"
  by (simp_all add: retry_ok_def setPrompt_def setError_def setInfo_def setPinentryRetry_def
      closeWith_def Let_def)

lemma setPinentryRetry_normalises:
  "s_source s = Pinentry \<Longrightarrow> retry_ok (setPinentryRetry a b s)"
  by (simp add: retry_ok_def setPinentryRetry_def)

end
