(* ===== verification/Session_Store.thy ===== *)
theory Session_Store
  imports Session_Model
begin

text \<open>
  The table of live sessions, \<^verbatim>\<open>src/core/agent/SessionStore.cpp\<close>, and the contract
  the agent and the request managers rely on.
\<close>

type_synonym session_store = "(string, session) hash"

section \<open>Operations\<close>

definition storeCreate ::
  "string \<Rightarrow> source \<Rightarrow> sctx \<Rightarrow> session_store \<Rightarrow> jobject option \<times> session_store" where
  "storeCreate i src ctx st =
     (if hash_has st i then (None, st)
      else let s = newSession i src ctx in (Some (toCreatedEvent s), hash_put i s st))"

definition storeUpdatePrompt ::
  "string \<Rightarrow> string \<Rightarrow> bool \<Rightarrow> bool \<Rightarrow> session_store \<Rightarrow> jobject option \<times> session_store" where
  "storeUpdatePrompt i prompt echo clearError st =
     (case hash_find st i of
        None \<Rightarrow> (None, st)
      | Some s \<Rightarrow> let s = setPrompt prompt echo clearError s
                  in (Some (toUpdatedEvent s), hash_put i s st))"

definition storeUpdateError ::
  "string \<Rightarrow> string \<Rightarrow> session_store \<Rightarrow> jobject option \<times> session_store" where
  "storeUpdateError i e st =
     (case hash_find st i of
        None \<Rightarrow> (None, st)
      | Some s \<Rightarrow> let s = setError e s in (Some (toUpdatedEvent s), hash_put i s st))"

definition storeUpdateInfo ::
  "string \<Rightarrow> string \<Rightarrow> session_store \<Rightarrow> jobject option \<times> session_store" where
  "storeUpdateInfo i info st =
     (case hash_find st i of
        None \<Rightarrow> (None, st)
      | Some s \<Rightarrow> let s = setInfo info s in (Some (toUpdatedEvent s), hash_put i s st))"

definition storeUpdatePinentryRetry ::
  "string \<Rightarrow> int \<Rightarrow> int \<Rightarrow> session_store \<Rightarrow> bool \<times> session_store" where
  "storeUpdatePinentryRetry i cur mx st =
     (case hash_find st i of
        None \<Rightarrow> (False, st)
      | Some s \<Rightarrow> if s_source s \<noteq> Pinentry then (False, st)
                  else (True, hash_put i (setPinentryRetry cur mx s) st))"

definition storeClose ::
  "string \<Rightarrow> sresult \<Rightarrow> session_store \<Rightarrow> jobject option \<times> session_store" where
  "storeClose i r st =
     (case hash_find st i of
        None \<Rightarrow> (None, st)
      | Some s \<Rightarrow> (Some (toClosedEvent (closeWith r s)), hash_del i st))"

definition storeGet :: "string \<Rightarrow> session_store \<Rightarrow> session option" where
  "storeGet i st = hash_find st i"

definition storeEmpty :: "session_store \<Rightarrow> bool" where
  "storeEmpty st \<longleftrightarrow> st = []"

definition storeSize :: "session_store \<Rightarrow> nat" where
  "storeSize st = length st"

section \<open>The contract\<close>

text \<open>
  \<open>store_wf\<close>: keys are distinct, and each session is stored under its own id and is
  still prompting (a closed session leaves the table at once).
\<close>

definition store_wf :: "session_store \<Rightarrow> bool" where
  "store_wf st \<longleftrightarrow> hash_wf st \<and>
     (\<forall>i s. hash_find st i = Some s \<longrightarrow> s_id s = i \<and> s_state s = Prompting)"

text \<open>
  What a client of the store may assume: creation succeeds exactly on a fresh id, updates
  touch one session and keep its id and source, closing removes exactly one session.
\<close>

locale session_table =
  fixes get :: "'t \<Rightarrow> string \<Rightarrow> session option"
    and create :: "string \<Rightarrow> source \<Rightarrow> sctx \<Rightarrow> 't \<Rightarrow> jobject option \<times> 't"
    and update :: "(session \<Rightarrow> session) \<Rightarrow> string \<Rightarrow> 't \<Rightarrow> jobject option \<times> 't"
    and close :: "string \<Rightarrow> sresult \<Rightarrow> 't \<Rightarrow> jobject option \<times> 't"
  assumes create_fresh: "get t i = None \<Longrightarrow>
      fst (create i src ctx t) = Some (toCreatedEvent (newSession i src ctx))
      \<and> get (snd (create i src ctx t)) = (get t)(i \<mapsto> newSession i src ctx)"
    and create_taken: "get t i \<noteq> None \<Longrightarrow> create i src ctx t = (None, t)"
    and update_live: "get t i = Some s \<Longrightarrow>
      fst (update f i t) = Some (toUpdatedEvent (f s)) \<and> get (snd (update f i t)) = (get t)(i \<mapsto> f s)"
    and update_absent: "get t i = None \<Longrightarrow> update f i t = (None, t)"
    and close_live: "get t i = Some s \<Longrightarrow>
      fst (close i r t) = Some (toClosedEvent (closeWith r s)) \<and> get (snd (close i r t)) = (get t)(i := None)"
    and close_absent: "get t i = None \<Longrightarrow> close i r t = (None, t)"
begin

lemma create_other: "j \<noteq> i \<Longrightarrow> get (snd (create i src ctx t)) j = get t j"
  by (cases "get t i") (auto simp: create_fresh create_taken)

lemma update_other: "j \<noteq> i \<Longrightarrow> get (snd (update f i t)) j = get t j"
  using update_absent update_live by (cases "get t i") auto

lemma close_other: "j \<noteq> i \<Longrightarrow> get (snd (close i r t)) j = get t j"
  using close_absent close_live by (cases "get t i") auto

lemma close_gone: "get (snd (close i r t)) i = None"
  using close_absent close_live by (cases "get t i") auto

lemma close_twice: "close i r' (snd (close i r t)) = (None, snd (close i r t))"
  using close_gone by (rule close_absent)

lemma update_after_close: "update f i (snd (close i r t)) = (None, snd (close i r t))"
  using close_gone by (rule update_absent)

lemma create_close_get:
  assumes "get t i = None"
  shows "get (snd (close i r (snd (create i src ctx t)))) = get t"
proof -
  have "get (snd (create i src ctx t)) i = Some (newSession i src ctx)"
    using create_fresh [OF assms] by simp
  from close_live [OF this] create_fresh [OF assms] assms show ?thesis by auto
qed

end

text \<open>The update operations of the code are instances of one: change the session, emit it.\<close>

definition storeUpdateWith ::
  "(session \<Rightarrow> session) \<Rightarrow> string \<Rightarrow> session_store \<Rightarrow> jobject option \<times> session_store" where
  "storeUpdateWith f i st =
     (case hash_find st i of
        None \<Rightarrow> (None, st)
      | Some s \<Rightarrow> (Some (toUpdatedEvent (f s)), hash_put i (f s) st))"

lemma storeUpdates_as_with:
  "storeUpdatePrompt i p e c = storeUpdateWith (setPrompt p e c) i"
  "storeUpdateError i t = storeUpdateWith (setError t) i"
  "storeUpdateInfo i t = storeUpdateWith (setInfo t) i"
  by (auto simp: storeUpdatePrompt_def storeUpdateError_def storeUpdateInfo_def
      storeUpdateWith_def Let_def fun_eq_iff split: option.split)

interpretation store: session_table hash_find storeCreate storeUpdateWith storeClose
  by unfold_locales
     (auto simp: storeCreate_def storeUpdateWith_def storeClose_def hash_has_def Let_def fun_eq_iff)

section \<open>Invariant\<close>

lemma store_wf_Nil [simp]: "store_wf []"
  by (simp add: store_wf_def)

lemma setters_prompting [simp]:
  "s_state (setPrompt p e c s) = Prompting" "s_state (setError t s) = s_state s"
  "s_state (setInfo t s) = s_state s" "s_state (setPinentryRetry a b s) = s_state s"
  "s_state (newSession i src ctx) = Prompting"
  by (simp_all add: setPrompt_def setError_def setInfo_def setPinentryRetry_def newSession_def Let_def)

lemma store_wf_put:
  "store_wf st \<Longrightarrow> s_id s = i \<Longrightarrow> s_state s = Prompting \<Longrightarrow> store_wf (hash_put i s st)"
  by (auto simp: store_wf_def)

lemma store_wf_ops [wf_intros]:
  assumes "store_wf st"
  shows "store_wf (snd (storeCreate i src ctx st))"
    and "store_wf (snd (storeUpdatePrompt i p e c st))"
    and "store_wf (snd (storeUpdateError i t st))"
    and "store_wf (snd (storeUpdateInfo i t st))"
    and "store_wf (snd (storeUpdatePinentryRetry i a b st))"
    and "store_wf (snd (storeClose i r st))"
proof -
  have live: "hash_find st i = Some s \<Longrightarrow> s_id s = i \<and> s_state s = Prompting" for s
    using assms by (simp add: store_wf_def)
  show "store_wf (snd (storeCreate i src ctx st))"
    using assms by (auto simp: storeCreate_def Let_def intro: store_wf_put)
  show "store_wf (snd (storeUpdatePrompt i p e c st))"
    using assms live by (auto simp: storeUpdatePrompt_def Let_def split: option.split intro!: store_wf_put)
  show "store_wf (snd (storeUpdateError i t st))"
    using assms live by (auto simp: storeUpdateError_def Let_def split: option.split intro!: store_wf_put)
  show "store_wf (snd (storeUpdateInfo i t st))"
    using assms live by (auto simp: storeUpdateInfo_def Let_def split: option.split intro!: store_wf_put)
  show "store_wf (snd (storeUpdatePinentryRetry i a b st))"
    using assms live by (auto simp: storeUpdatePinentryRetry_def split: option.split intro!: store_wf_put)
  show "store_wf (snd (storeClose i r st))"
    using assms by (auto simp: storeClose_def store_wf_def split: option.split)
qed

lemma storeEmpty_iff: "storeEmpty st \<longleftrightarrow> (\<forall>i. hash_find st i = None)"
  by (cases st) (auto simp: storeEmpty_def)

text \<open>Creating a session and closing it leaves every lookup as it was, provided its id was
  not in use; a second close then finds nothing and emits nothing.\<close>

theorem store_create_close:
  assumes "storeGet i st = None"
  shows "storeGet j (snd (storeClose i r (snd (storeCreate i src ctx st)))) = storeGet j st
    \<and> fst (storeClose i r' (snd (storeClose i r (snd (storeCreate i src ctx st))))) = None"
proof -
  have "hash_find st i = None" using assms by (simp add: storeGet_def)
  from store.create_close_get [OF this, of r src ctx] show ?thesis
    by (simp add: storeGet_def store.close_twice)
qed

theorem store_create_close_witness:
  "storeGet ''a'' [] = None
   \<and> storeGet ''b'' (snd (storeClose ''a'' Success (snd (storeCreate ''a'' Polkit emptyCtx [])))) = None"
proof -
  have h: "storeGet ''a'' [] = None" by (simp add: storeGet_def)
  show ?thesis
    using h store_create_close [OF h, of "''b''" Success Polkit emptyCtx Success]
    by (simp add: storeGet_def)
qed

text \<open>The store refuses a second session under a live id: no event, no change, whatever the
  source of either session.\<close>

theorem store_create_collision:
  assumes "storeGet i st = Some s"
  shows "storeCreate i src ctx st = (None, st)"
  using assms by (simp add: storeGet_def store.create_taken)

theorem store_create_collision_witness:
  "storeGet ''a'' [(''a'', example_session)] = Some example_session
   \<and> storeCreate ''a'' Keyring emptyCtx [(''a'', example_session)] = (None, [(''a'', example_session)])"
proof -
  have h: "storeGet ''a'' [(''a'', example_session)] = Some example_session"
    by (simp add: storeGet_def)
  show ?thesis using h store_create_collision [OF h] by simp
qed

end
