(* ===== verification/Event_Queue.thy ===== *)
theory Event_Queue
  imports Qt_Base
begin

text \<open>
  The bounded event queue and its one-shot waiters, \<^verbatim>\<open>src/core/agent/EventQueue.hpp\<close>
  and \<^verbatim>\<open>EventQueue.cpp\<close>.  A \<^verbatim>\<open>next\<close> client either takes the oldest event or
  waits for the next one.
\<close>

record event_queue =
  q_maxSize :: int
  q_events :: "jobject list"
  q_waiters :: "socket list"

section \<open>Operations\<close>

definition newQueue :: "int \<Rightarrow> event_queue" where
  "newQueue mx = \<lparr>q_maxSize = mx, q_events = [], q_waiters = []\<rparr>"

definition queueIsEmpty :: "event_queue \<Rightarrow> bool" where
  "queueIsEmpty q \<longleftrightarrow> q_events q = []"

definition queueHasEvents :: "event_queue \<Rightarrow> bool" where
  "queueHasEvents q \<longleftrightarrow> \<not> (q_events q = [])"

definition takeNext :: "event_queue \<Rightarrow> jobject \<times> event_queue" where
  "takeNext q = (case q_events q of [] \<Rightarrow> ([], q) | e # es \<Rightarrow> (e, q\<lparr>q_events := es\<rparr>))"

text \<open>
  \<^verbatim>\<open>dequeue\<close> on an empty \<^verbatim>\<open>QQueue\<close> is undefined; the guard reaches it on an
  empty queue only for \<open>q_maxSize \<le> 0\<close> (lemma \<open>enqueue_no_underflow\<close>), and the agent
  uses the default 256.
\<close>

definition enqueue :: "jobject \<Rightarrow> event_queue \<Rightarrow> event_queue" where
  "enqueue event q =
     (let q = (if int (length (q_events q)) \<ge> q_maxSize q then q\<lparr>q_events := tl (q_events q)\<rparr> else q)
      in q\<lparr>q_events := q_events q @ [event]\<rparr>)"

definition subscribeNext :: "socket \<Rightarrow> event_queue \<Rightarrow> event_queue" where
  "subscribeNext socket q = q\<lparr>q_waiters := q_waiters q @ [socket]\<rparr>"

definition removeWaiter :: "socket \<Rightarrow> event_queue \<Rightarrow> event_queue" where
  "removeWaiter socket q = q\<lparr>q_waiters := removeAllOf socket (q_waiters q)\<rparr>"

text \<open>\<^verbatim>\<open>drainToWaiters\<close>: the calls of \<^verbatim>\<open>sendFn\<close> in order, and what is left.\<close>

fun drainLoop :: "socket list \<Rightarrow> jobject list \<Rightarrow> (socket \<times> jobject) list \<times> socket list \<times> jobject list" where
  "drainLoop (w # ws) (e # es) = (let (sent, ws', es') = drainLoop ws es in ((w, e) # sent, ws', es'))"
| "drainLoop ws es = ([], ws, es)"

definition drainToWaiters :: "event_queue \<Rightarrow> (socket \<times> jobject) list \<times> event_queue" where
  "drainToWaiters q =
     (let (sent, ws, es) = drainLoop (q_waiters q) (q_events q)
      in (sent, q\<lparr>q_waiters := ws, q_events := es\<rparr>))"

section \<open>Facts\<close>

lemma drainLoop_eq:
  "drainLoop ws es = (zip ws es, drop (length es) ws, drop (length ws) es)"
  by (induction ws es rule: drainLoop.induct) auto

lemma drainToWaiters_eq:
  "drainToWaiters q =
     (zip (q_waiters q) (q_events q),
      q\<lparr>q_waiters := drop (length (q_events q)) (q_waiters q),
        q_events := drop (length (q_waiters q)) (q_events q)\<rparr>)"
  by (simp add: drainToWaiters_def drainLoop_eq)

lemma enqueue_no_underflow:
  "0 < q_maxSize q \<Longrightarrow> int (length (q_events q)) \<ge> q_maxSize q \<Longrightarrow> q_events q \<noteq> []"
  by auto

text \<open>
  \<open>queue_ok\<close>: the size is bounded, and a waiting client implies an empty queue (events are
  handed over as soon as there is a client for them).
\<close>

definition queue_ok :: "event_queue \<Rightarrow> bool" where
  "queue_ok q \<longleftrightarrow> 0 < q_maxSize q \<and> int (length (q_events q)) \<le> q_maxSize q
     \<and> (q_waiters q = [] \<or> q_events q = [])"

lemma queue_ok_new: "0 < mx \<Longrightarrow> queue_ok (newQueue mx)"
  by (simp add: queue_ok_def newQueue_def)

lemma queue_ok_takeNext [wf_intros]: "queue_ok q \<Longrightarrow> queue_ok (snd (takeNext q))"
  by (auto simp: queue_ok_def takeNext_def split: list.splits)

lemma queue_ok_removeWaiter [wf_intros]: "queue_ok q \<Longrightarrow> queue_ok (removeWaiter s q)"
  by (auto simp: queue_ok_def removeWaiter_def)

lemma queue_ok_subscribeNext [wf_intros]:
  "queue_ok q \<Longrightarrow> queueIsEmpty q \<Longrightarrow> queue_ok (subscribeNext s q)"
  by (simp add: queue_ok_def subscribeNext_def queueIsEmpty_def)

lemma enqueue_bound:
  "0 < q_maxSize q \<Longrightarrow> int (length (q_events q)) \<le> q_maxSize q \<Longrightarrow>
   int (length (q_events (enqueue e q))) \<le> q_maxSize q"
  by (auto simp: enqueue_def Let_def)

lemma enqueue_frame [simp, frame_simps]:
  "q_maxSize (enqueue e q) = q_maxSize q" "q_waiters (enqueue e q) = q_waiters q"
  by (simp_all add: enqueue_def Let_def)

lemma queue_ok_enqueue_drain [wf_intros]:
  assumes "queue_ok q"
  shows "queue_ok (snd (drainToWaiters (enqueue e q)))"
  using assms enqueue_bound [of q e]
  by (auto simp: queue_ok_def drainToWaiters_eq drop_eq_Nil2)

text \<open>
  The contract a router needs: publishing an event serves the oldest waiter with the oldest
  undelivered event, and the queue stays within its bound.
\<close>

locale event_buffer =
  fixes put :: "jobject \<Rightarrow> 'q \<Rightarrow> 'q"
    and drain :: "'q \<Rightarrow> (socket \<times> jobject) list \<times> 'q"
    and events :: "'q \<Rightarrow> jobject list"
    and waiters :: "'q \<Rightarrow> socket list"
    and ok :: "'q \<Rightarrow> bool"
  assumes waiting_empty: "ok q \<Longrightarrow> waiters q \<noteq> [] \<Longrightarrow> events q = []"
    and put_waiters: "waiters (put e q) = waiters q"
    and put_empty: "ok q \<Longrightarrow> events q = [] \<Longrightarrow> events (put e q) = [e]"
    and put_ne: "events (put e q) \<noteq> []"
    and drain_sent: "fst (drain q) = zip (waiters q) (events q)"
    and drain_waiters: "waiters (snd (drain q)) = drop (length (events q)) (waiters q)"
    and drain_events: "events (snd (drain q)) = drop (length (waiters q)) (events q)"
    and put_drain_ok: "ok q \<Longrightarrow> ok (snd (drain (put e q)))"
begin

lemma publish_waiting:
  assumes "ok q" and "waiters q = w # ws"
  shows "fst (drain (put e q)) = [(w, e)]"
    and "waiters (snd (drain (put e q))) = ws"
    and "events (snd (drain (put e q))) = []"
  using put_empty [OF assms(1) waiting_empty] assms
  by (auto simp: drain_sent drain_waiters drain_events put_waiters)

lemma publish_idle:
  assumes "waiters q = []"
  shows "fst (drain (put e q)) = []" and "events (snd (drain (put e q))) = events (put e q)"
  using assms by (simp_all add: drain_sent drain_events put_waiters)

lemma publish_at_most_one:
  assumes "ok q"
  shows "length (fst (drain (put e q))) \<le> 1"
  using publish_waiting(1) [OF assms] publish_idle(1) by (cases "waiters q") auto

end

interpretation eq: event_buffer enqueue drainToWaiters q_events q_waiters queue_ok
proof unfold_locales
  fix e :: jobject and q :: event_queue
  show "queue_ok q \<Longrightarrow> q_events q = [] \<Longrightarrow> q_events (enqueue e q) = [e]"
    by (auto simp: enqueue_def queue_ok_def Let_def)
  show "q_events (enqueue e q) \<noteq> []"
    by (simp add: enqueue_def Let_def)
  show "queue_ok q \<Longrightarrow> queue_ok (snd (drainToWaiters (enqueue e q)))"
    by (rule queue_ok_enqueue_drain)
qed (auto simp: queue_ok_def drainToWaiters_eq)

section \<open>A run of the queue\<close>

datatype queue_op = OpNext socket | OpPublish jobject | OpGone socket

text \<open>The three ways the agent uses the queue; the list is what was sent.\<close>

fun queue_step :: "queue_op \<Rightarrow> event_queue \<Rightarrow> (socket \<times> jobject) list \<times> event_queue" where
  "queue_step (OpNext s) q =
     (if queueIsEmpty q then ([], subscribeNext s q)
      else let (e, q') = takeNext q in ([(s, e)], q'))"
| "queue_step (OpPublish e) q = drainToWaiters (enqueue e q)"
| "queue_step (OpGone s) q = ([], removeWaiter s q)"

fun queue_run :: "queue_op list \<Rightarrow> event_queue \<Rightarrow> (socket \<times> jobject) list \<times> event_queue" where
  "queue_run [] q = ([], q)"
| "queue_run (x # xs) q =
     (let (out, q) = queue_step x q; (outs, q) = queue_run xs q in (out @ outs, q))"

lemma queue_ok_step [wf_intros]: "queue_ok q \<Longrightarrow> queue_ok (snd (queue_step x q))"
  by (cases x) (auto intro: wf_intros simp: case_prod_beta Let_def)

text \<open>In every run from an empty queue the number of stored events stays within the bound,
  and no client waits while an event is stored.\<close>

theorem queue_run_bounded:
  assumes "0 < mx"
  shows "int (length (q_events (snd (queue_run xs (newQueue mx))))) \<le> mx
    \<and> (q_waiters (snd (queue_run xs (newQueue mx))) = []
       \<or> q_events (snd (queue_run xs (newQueue mx))) = [])"
proof -
  have ok: "queue_ok (snd (queue_run ys q)) \<and> q_maxSize (snd (queue_run ys q)) = q_maxSize q"
    if "queue_ok q" for ys q
    using that
  proof (induction ys arbitrary: q)
    case (Cons x ys)
    have "q_maxSize (snd (queue_step x q)) = q_maxSize q"
      by (cases x) (auto simp: drainToWaiters_eq subscribeNext_def removeWaiter_def takeNext_def
          case_prod_beta Let_def split: list.split)
    with Cons.IH [OF queue_ok_step [OF Cons.prems]] show ?case
      by (simp add: case_prod_beta Let_def)
  qed simp
  from ok [OF queue_ok_new [OF assms], of xs] show ?thesis
    by (simp add: queue_ok_def newQueue_def)
qed

theorem queue_run_bounded_witness:
  "(0::int) < 1 \<and> snd (queue_run [OpPublish okMsg, OpPublish okMsg] (newQueue 1))
     = \<lparr>q_maxSize = 1, q_events = [okMsg], q_waiters = []\<rparr>
   \<and> int (length (q_events (snd (queue_run [OpPublish okMsg, OpPublish okMsg] (newQueue 1))))) \<le> 1"
proof -
  have h: "(0::int) < 1" by simp
  show ?thesis
    using queue_run_bounded [OF h, of "[OpPublish okMsg, OpPublish okMsg]"]
    by (simp add: drainToWaiters_eq enqueue_def newQueue_def Let_def)
qed

definition published :: "queue_op list \<Rightarrow> jobject list" where
  "published xs = concat (map (\<lambda>x. case x of OpPublish e \<Rightarrow> [e] | _ \<Rightarrow> []) xs)"



end
