(* ===== verification/Provider_Registry.thy ===== *)
theory Provider_Registry
  imports Qt_Base
begin

text \<open>
  The registry of UI providers and the choice of the active one,
  \<^verbatim>\<open>src/core/agent/ProviderRegistry.hpp\<close> and \<^verbatim>\<open>ProviderRegistry.cpp\<close>.
  The clock \<^verbatim>\<open>m_nowFn\<close>, the state of a socket and a fresh UUID are arguments.
\<close>

record ui_provider =
  p_id :: string
  p_name :: string
  p_kind :: string
  p_priority :: int
  p_lastHeartbeatMs :: int

record provider_registry =
  uiProviders :: "(socket, ui_provider) hash"
  activeProvider :: socket

definition emptyProvider :: ui_provider where
  "emptyProvider = \<lparr>p_id = [], p_name = [], p_kind = [], p_priority = 0, p_lastHeartbeatMs = 0\<rparr>"

definition emptyRegistry :: provider_registry where
  "emptyRegistry = \<lparr>uiProviders = [], activeProvider = nullptr\<rparr>"

definition PROVIDER_HEARTBEAT_TIMEOUT_MS :: int where
  "PROVIDER_HEARTBEAT_TIMEOUT_MS = 15000"

section \<open>Operations\<close>

definition registerProvider ::
  "int \<Rightarrow> string \<Rightarrow> socket \<Rightarrow> jobject \<Rightarrow> provider_registry \<Rightarrow> ui_provider \<times> provider_registry" where
  "registerProvider now uuid socket msg r =
     (let p = (case hash_find (uiProviders r) socket of Some p \<Rightarrow> p | None \<Rightarrow> emptyProvider);
          p = (if p_id p = [] then p\<lparr>p_id := uuid\<rparr> else p);
          p = p\<lparr>p_name := toStr (jvalue msg ''name'')\<rparr>;
          p = (if p_name p = [] then p\<lparr>p_name := ''unknown''\<rparr> else p);
          p = p\<lparr>p_kind := toStr (jvalue msg ''kind'')\<rparr>;
          p = (if p_kind p = [] then p\<lparr>p_kind := p_name p\<rparr> else p);
          requestedPriority = toInt (jvalue msg ''priority'');
          p = (if jcontains msg ''priority'' then p\<lparr>p_priority := requestedPriority\<rparr>
               else if p_kind p = ''quickshell'' then p\<lparr>p_priority := 100\<rparr>
               else if p_kind p = ''fallback'' then p\<lparr>p_priority := 10\<rparr>
               else p\<lparr>p_priority := 50\<rparr>);
          p = p\<lparr>p_lastHeartbeatMs := now\<rparr>
      in (p, r\<lparr>uiProviders := hash_put socket p (uiProviders r)\<rparr>))"

definition heartbeat :: "int \<Rightarrow> socket \<Rightarrow> provider_registry \<Rightarrow> bool \<times> provider_registry" where
  "heartbeat now socket r =
     (case hash_find (uiProviders r) socket of
        None \<Rightarrow> (False, r)
      | Some p \<Rightarrow> (True, r\<lparr>uiProviders := hash_put socket (p\<lparr>p_lastHeartbeatMs := now\<rparr>) (uiProviders r)\<rparr>))"

definition unregisterProvider :: "socket \<Rightarrow> provider_registry \<Rightarrow> bool \<times> provider_registry" where
  "unregisterProvider socket r =
     (hash_has (uiProviders r) socket, r\<lparr>uiProviders := hash_del socket (uiProviders r)\<rparr>)"

definition removeSocket :: "socket \<Rightarrow> provider_registry \<Rightarrow> bool \<times> provider_registry" where
  "removeSocket socket r = unregisterProvider socket r"

text \<open>
  The loop of \<^verbatim>\<open>recomputeActiveProvider\<close>: it erases invalid and stale entries and
  keeps the best one seen, as the triple (socket, priority, heartbeat).
\<close>

type_synonym best = "socket \<times> int \<times> int"

fun recomputeLoop ::
  "int \<Rightarrow> (socket \<Rightarrow> bool) \<Rightarrow> (socket, ui_provider) hash \<Rightarrow> best \<Rightarrow> (socket, ui_provider) hash \<times> best" where
  "recomputeLoop now conn [] best = ([], best)"
| "recomputeLoop now conn ((socket, p) # rest) (bestSocket, bestPriority, bestHeartbeat) =
     (let socketInvalid = (socket = nullptr \<or> \<not> conn socket);
          stale = (now - p_lastHeartbeatMs p > PROVIDER_HEARTBEAT_TIMEOUT_MS)
      in if socketInvalid \<or> stale
         then recomputeLoop now conn rest (bestSocket, bestPriority, bestHeartbeat)
         else
           let best = (if bestSocket = nullptr \<or> p_priority p > bestPriority
                          \<or> (p_priority p = bestPriority \<and> p_lastHeartbeatMs p > bestHeartbeat)
                       then (socket, p_priority p, p_lastHeartbeatMs p)
                       else (bestSocket, bestPriority, bestHeartbeat));
               (kept, best) = recomputeLoop now conn rest best
           in ((socket, p) # kept, best))"

definition recomputeActiveProvider ::
  "int \<Rightarrow> (socket \<Rightarrow> bool) \<Rightarrow> provider_registry \<Rightarrow> bool \<times> provider_registry" where
  "recomputeActiveProvider now conn r =
     (let (kept, best) = recomputeLoop now conn (uiProviders r) (nullptr, - 2147483648, 0);
          bestSocket = fst best;
          r = r\<lparr>uiProviders := kept\<rparr>
      in if activeProvider r = bestSocket then (False, r)
         else (True, r\<lparr>activeProvider := bestSocket\<rparr>))"

definition pruneStale ::
  "int \<Rightarrow> (socket \<Rightarrow> bool) \<Rightarrow> provider_registry \<Rightarrow> bool \<times> provider_registry" where
  "pruneStale now conn r = recomputeActiveProvider now conn r"

definition isAuthorized :: "socket \<Rightarrow> provider_registry \<Rightarrow> bool" where
  "isAuthorized socket r =
     (if uiProviders r = [] then True
      else if \<not> hash_has (uiProviders r) socket then False
      else socket = activeProvider r)"

definition hasActiveProvider :: "provider_registry \<Rightarrow> bool" where
  "hasActiveProvider r \<longleftrightarrow> activeProvider r \<noteq> nullptr \<and> hash_has (uiProviders r) (activeProvider r)"

definition activeProviderInfo :: "provider_registry \<Rightarrow> ui_provider option" where
  "activeProviderInfo r =
     (if \<not> hasActiveProvider r then None else hash_find (uiProviders r) (activeProvider r))"

definition registryProvider :: "socket \<Rightarrow> provider_registry \<Rightarrow> ui_provider option" where
  "registryProvider socket r = hash_find (uiProviders r) socket"

definition registryContains :: "socket \<Rightarrow> provider_registry \<Rightarrow> bool" where
  "registryContains socket r \<longleftrightarrow> hash_has (uiProviders r) socket"

definition registrySockets :: "provider_registry \<Rightarrow> socket list" where
  "registrySockets r = hash_keys (uiProviders r)"

section \<open>What the selection loop computes\<close>

text \<open>A provider survives when its socket is connected and its heartbeat is recent.\<close>

definition alive :: "int \<Rightarrow> (socket \<Rightarrow> bool) \<Rightarrow> socket \<times> ui_provider \<Rightarrow> bool" where
  "alive now conn sp \<longleftrightarrow> fst sp \<noteq> nullptr \<and> conn (fst sp)
     \<and> now - p_lastHeartbeatMs (snd sp) \<le> PROVIDER_HEARTBEAT_TIMEOUT_MS"

text \<open>The order of the contract: priority first, then the most recent heartbeat.\<close>

definition outranks :: "ui_provider \<Rightarrow> ui_provider \<Rightarrow> bool" where
  "outranks p q \<longleftrightarrow> p_priority p > p_priority q
     \<or> (p_priority p = p_priority q \<and> p_lastHeartbeatMs p \<ge> p_lastHeartbeatMs q)"

lemma outranks_refl [simp]: "outranks p p"
  by (simp add: outranks_def)

lemma outranks_trans: "outranks p q \<Longrightarrow> outranks q r \<Longrightarrow> outranks p r"
  by (auto simp: outranks_def)

lemma recomputeLoop_kept: "fst (recomputeLoop now conn xs b) = filter (alive now conn) xs"
  by (induction now conn xs b rule: recomputeLoop.induct)
     (auto simp: alive_def Let_def case_prod_beta)

definition is_best :: "(socket, ui_provider) hash \<Rightarrow> best \<Rightarrow> bool" where
  "is_best ys b \<longleftrightarrow>
     (if ys = [] then fst b = nullptr
      else \<exists>p. (fst b, p) \<in> set ys \<and> p_priority p = fst (snd b) \<and> p_lastHeartbeatMs p = snd (snd b)
             \<and> (\<forall>(s, q) \<in> set ys. outranks p q))"

lemma is_best_snoc:
  assumes "is_best ys (bs, bp, bh)" and "s \<noteq> nullptr" and "\<forall>(t, q) \<in> set ys. t \<noteq> nullptr"
  shows "is_best (ys @ [(s, p)])
    (if bs = nullptr \<or> p_priority p > bp \<or> (p_priority p = bp \<and> p_lastHeartbeatMs p > bh)
     then (s, p_priority p, p_lastHeartbeatMs p) else (bs, bp, bh))"
proof (cases "ys = []")
  case True
  with assms(1) show ?thesis by (simp add: is_best_def)
next
  case False
  then obtain pb where pb: "(bs, pb) \<in> set ys" "p_priority pb = bp" "p_lastHeartbeatMs pb = bh"
    "\<forall>(t, q) \<in> set ys. outranks pb q"
    using assms(1) by (auto simp: is_best_def)
  have bs: "bs \<noteq> nullptr" using pb(1) assms(3) by auto
  have new: "outranks p q" if "(t, q) \<in> set ys"
    and "p_priority p > bp \<or> (p_priority p = bp \<and> p_lastHeartbeatMs p > bh)" for t q
    using pb that by (auto simp: outranks_def)
  show ?thesis
  proof (cases "p_priority p > bp \<or> (p_priority p = bp \<and> p_lastHeartbeatMs p > bh)")
    case True
    then show ?thesis using new by (auto simp: is_best_def)
  next
    case False
    then have "outranks pb p" using pb by (auto simp: outranks_def)
    then show ?thesis using False bs pb by (auto simp: is_best_def intro!: exI [of _ pb])
  qed
qed

lemma recomputeLoop_best:
  assumes "is_best ys b" and "\<forall>(t, q) \<in> set ys. t \<noteq> nullptr"
  shows "is_best (ys @ filter (alive now conn) xs) (snd (recomputeLoop now conn xs b))"
  using assms
proof (induction now conn xs b arbitrary: ys rule: recomputeLoop.induct)
  case (2 now conn s p rest bs bp bh)
  show ?case
  proof (cases "alive now conn (s, p)")
    case True
    then have ok: "\<not> (s = nullptr \<or> \<not> conn s)"
      "\<not> (now - p_lastHeartbeatMs p > PROVIDER_HEARTBEAT_TIMEOUT_MS)"
      by (auto simp: alive_def)
    have b': "is_best (ys @ [(s, p)])
      (if bs = nullptr \<or> p_priority p > bp \<or> (p_priority p = bp \<and> p_lastHeartbeatMs p > bh)
       then (s, p_priority p, p_lastHeartbeatMs p) else (bs, bp, bh))"
      using is_best_snoc [OF 2(3) _ 2(4)] ok by blast
    have "\<forall>(t, q) \<in> set (ys @ [(s, p)]). t \<noteq> nullptr" using 2(4) ok by auto
    from "2.IH"(2) [OF refl refl _ refl b' this] ok True show ?thesis
      by (simp add: Let_def case_prod_beta)
  next
    case False
    then have bad: "(s = nullptr \<or> \<not> conn s) \<or> now - p_lastHeartbeatMs p > PROVIDER_HEARTBEAT_TIMEOUT_MS"
      by (auto simp: alive_def)
    from "2.IH"(1) [OF refl refl bad 2(3,4)] bad False show ?thesis by (simp add: Let_def)
  qed
qed simp

lemma recompute_eq:
  "snd (recomputeActiveProvider now conn r) =
     r\<lparr>uiProviders := filter (alive now conn) (uiProviders r),
       activeProvider := fst (snd (recomputeLoop now conn (uiProviders r) (nullptr, - 2147483648, 0)))\<rparr>"
  using recomputeLoop_kept [of now conn "uiProviders r" "(nullptr, - 2147483648, 0)"]
  by (auto simp: recomputeActiveProvider_def Let_def case_prod_beta)

lemma recompute_changed:
  "fst (recomputeActiveProvider now conn r) \<longleftrightarrow>
     activeProvider (snd (recomputeActiveProvider now conn r)) \<noteq> activeProvider r"
  by (auto simp: recomputeActiveProvider_def Let_def case_prod_beta)

lemma recompute_best:
  "is_best (filter (alive now conn) (uiProviders r))
     (snd (recomputeLoop now conn (uiProviders r) (nullptr, - 2147483648, 0)))"
  using recomputeLoop_best [of "[]" "(nullptr, - 2147483648, 0)" now conn "uiProviders r"]
  by (simp add: is_best_def)

section \<open>Invariant\<close>

text \<open>Distinct sockets, none null, and the active provider, if any, is registered.\<close>

definition registry_ok :: "provider_registry \<Rightarrow> bool" where
  "registry_ok r \<longleftrightarrow> hash_wf (uiProviders r) \<and> \<not> hash_has (uiProviders r) nullptr
     \<and> (activeProvider r = nullptr \<or> hash_has (uiProviders r) (activeProvider r))"

text \<open>The same without the last clause: what holds between an unregister and the recompute.\<close>

definition registry_wf :: "provider_registry \<Rightarrow> bool" where
  "registry_wf r \<longleftrightarrow> hash_wf (uiProviders r) \<and> \<not> hash_has (uiProviders r) nullptr"

lemma registry_ok_wf: "registry_ok r \<Longrightarrow> registry_wf r"
  by (simp add: registry_ok_def registry_wf_def)

lemma registry_ok_empty [simp]: "registry_ok emptyRegistry"
  by (simp add: registry_ok_def emptyRegistry_def)

lemma registry_wf_ops [wf_intros]:
  assumes "registry_wf r"
  shows "s \<noteq> nullptr \<Longrightarrow> registry_wf (snd (registerProvider now u s msg r))"
    and "registry_wf (snd (heartbeat now s r))"
    and "registry_wf (snd (unregisterProvider s r))"
    and "registry_wf (snd (removeSocket s r))"
  using assms
  by (auto simp: registry_wf_def registerProvider_def heartbeat_def unregisterProvider_def
      removeSocket_def Let_def hash_has_def split: option.splits)

lemma recompute_registry_ok [wf_intros]:
  assumes "registry_wf r"
  shows "registry_ok (snd (recomputeActiveProvider now conn r))"
proof -
  let ?ys = "filter (alive now conn) (uiProviders r)"
  let ?b = "snd (recomputeLoop now conn (uiProviders r) (nullptr, - 2147483648, 0))"
  have wf: "hash_wf ?ys" using assms by (simp add: registry_wf_def hash_wf_filter)
  have nn: "\<not> hash_has ?ys nullptr" by (auto simp: hash_has_keys alive_def)
  have "fst ?b = nullptr \<or> hash_has ?ys (fst ?b)"
    using recompute_best [of now conn r] hash_find_mem [OF wf]
    by (auto simp: is_best_def hash_has_def split: if_splits)
  with wf nn show ?thesis by (simp add: recompute_eq registry_ok_def)
qed

lemma registry_ok_register_keeps:
  "registry_ok r \<Longrightarrow> s \<noteq> nullptr \<Longrightarrow> registry_ok (snd (registerProvider now u s msg r))"
  by (auto simp: registry_ok_def registerProvider_def Let_def)

lemma authorized_iff:
  "registry_ok r \<Longrightarrow> isAuthorized s r \<longleftrightarrow>
     uiProviders r = [] \<or> (hasActiveProvider r \<and> s = activeProvider r)"
  by (cases "activeProvider r = nullptr") (auto simp: isAuthorized_def hasActiveProvider_def registry_ok_def
      intro!: gr0I)

section \<open>Properties\<close>

text \<open>C31: recomputing keeps exactly the connected providers heard of in the last 15 s and makes
  active one that outranks all of them (none if there is none), by priority and then by the
  most recent heartbeat.\<close>

theorem recompute_selects_best:
  assumes "registry_wf r" and "r' = snd (recomputeActiveProvider now conn r)"
  shows "uiProviders r' = filter (alive now conn) (uiProviders r)
    \<and> (if uiProviders r' = [] then activeProvider r' = nullptr
       else \<exists>p. hash_find (uiProviders r') (activeProvider r') = Some p
              \<and> (\<forall>s q. hash_find (uiProviders r') s = Some q \<longrightarrow> outranks p q))"
proof -
  let ?ys = "filter (alive now conn) (uiProviders r)"
  have wf: "hash_wf ?ys" using assms(1) by (simp add: registry_wf_def hash_wf_filter)
  show ?thesis
    using recompute_best [of now conn r] hash_find_mem [OF wf]
    by (auto simp: assms(2) recompute_eq is_best_def dest!: map_of_SomeD split: if_splits)
qed

definition example_registry :: provider_registry where
  "example_registry =
     \<lparr>uiProviders = [(1, \<lparr>p_id = ''a'', p_name = ''fb'', p_kind = ''fallback'', p_priority = 10, p_lastHeartbeatMs = 9000\<rparr>),
                    (2, \<lparr>p_id = ''b'', p_name = ''qs'', p_kind = ''quickshell'', p_priority = 100, p_lastHeartbeatMs = 8000\<rparr>),
                    (3, \<lparr>p_id = ''c'', p_name = ''old'', p_kind = ''old'', p_priority = 500, p_lastHeartbeatMs = 0\<rparr>)],
      activeProvider = 1\<rparr>"

lemma example_registry_wf: "registry_wf example_registry"
  by (simp add: registry_wf_def hash_wf_def example_registry_def)

lemma example_registry_recompute:
  "snd (recomputeActiveProvider 16000 (\<lambda>_. True) example_registry)
   = \<lparr>uiProviders = take 2 (uiProviders example_registry), activeProvider = 2\<rparr>"
  by (simp add: recomputeActiveProvider_def example_registry_def PROVIDER_HEARTBEAT_TIMEOUT_MS_def)

theorem recompute_selects_best_witness:
  "registry_wf example_registry
   \<and> activeProvider (snd (recomputeActiveProvider 16000 (\<lambda>_. True) example_registry)) = 2
   \<and> uiProviders (snd (recomputeActiveProvider 16000 (\<lambda>_. True) example_registry))
     = filter (alive 16000 (\<lambda>_. True)) (uiProviders example_registry)"
  using example_registry_wf example_registry_recompute
    recompute_selects_best [OF example_registry_wf refl, of 16000 "\<lambda>_. True"]
  by simp

text \<open>The choice does not depend on the iteration order of the hash table, as long as no two
  surviving providers tie in both priority and heartbeat.\<close>

definition no_ties :: "(socket, ui_provider) hash \<Rightarrow> bool" where
  "no_ties ys \<longleftrightarrow> (\<forall>(s, p) \<in> set ys. \<forall>(t, q) \<in> set ys. outranks p q \<and> outranks q p \<longrightarrow> s = t)"

theorem recompute_order_independent:
  assumes "set (uiProviders r) = set (uiProviders r2)"
    and "no_ties (filter (alive now conn) (uiProviders r))"
  shows "activeProvider (snd (recomputeActiveProvider now conn r))
       = activeProvider (snd (recomputeActiveProvider now conn r2))"
proof -
  let ?ys = "filter (alive now conn) (uiProviders r)"
  let ?zs = "filter (alive now conn) (uiProviders r2)"
  let ?b = "snd (recomputeLoop now conn (uiProviders r) (nullptr, - 2147483648, 0))"
  let ?c = "snd (recomputeLoop now conn (uiProviders r2) (nullptr, - 2147483648, 0))"
  have same: "set ?ys = set ?zs" using assms(1) by auto
  have "fst ?b = fst ?c"
  proof (cases "?ys = []")
    case True
    then have "?zs = []" using same by (metis set_empty)
    then show ?thesis
      using True recompute_best [of now conn r] recompute_best [of now conn r2]
      by (simp add: is_best_def)
  next
    case False
    then have "?zs \<noteq> []" using same by (metis set_empty)
    then obtain p q where p: "(fst ?b, p) \<in> set ?ys" "\<forall>(s, x) \<in> set ?ys. outranks p x"
      and q: "(fst ?c, q) \<in> set ?zs" "\<forall>(s, x) \<in> set ?zs. outranks q x"
      using False recompute_best [of now conn r] recompute_best [of now conn r2]
      unfolding is_best_def by meson
    have "outranks p q" and "outranks q p"
      using p q same by blast+
    then show ?thesis
      using assms(2) p(1) q(1) same unfolding no_ties_def by blast
  qed
  then show ?thesis by (simp add: recompute_eq)
qed

theorem recompute_order_independent_witness:
  "activeProvider (snd (recomputeActiveProvider 16000 (\<lambda>_. True)
     \<lparr>uiProviders = rev (uiProviders example_registry), activeProvider = 1\<rparr>)) = 2"
proof -
  have s: "set (uiProviders example_registry)
      = set (uiProviders \<lparr>uiProviders = rev (uiProviders example_registry), activeProvider = 1\<rparr>)"
    by simp
  have t: "no_ties (filter (alive 16000 (\<lambda>_. True)) (uiProviders example_registry))"
    by (simp add: no_ties_def alive_def example_registry_def PROVIDER_HEARTBEAT_TIMEOUT_MS_def outranks_def)
  from recompute_order_independent [OF s t] show ?thesis by (simp add: example_registry_recompute)
qed

text \<open>One heartbeat keeps a connected provider registered for exactly 15 s.\<close>

theorem heartbeat_grace:
  assumes "registry_wf r" and "registryContains s r" and "conn s"
  shows "registryContains s (snd (recomputeActiveProvider now conn (snd (heartbeat t s r))))
    \<longleftrightarrow> now - t \<le> 15000"
proof -
  obtain p where p: "hash_find (uiProviders r) s = Some p"
    using assms(2) by (auto simp: registryContains_def hash_has_def)
  have nn: "s \<noteq> nullptr" using assms(1,2) by (metis registry_wf_def registryContains_def)
  have "hash_wf (hash_put s (p\<lparr>p_lastHeartbeatMs := t\<rparr>) (uiProviders r))"
    using assms(1) by (auto simp: registry_wf_def)
  from hash_find_filter [OF this, of "alive now conn" s] show ?thesis
    using p nn assms(3)
    by (simp add: registryContains_def recompute_eq heartbeat_def hash_has_def alive_def
        PROVIDER_HEARTBEAT_TIMEOUT_MS_def)
qed

theorem heartbeat_grace_witness:
  "registryContains 1 (snd (recomputeActiveProvider 35000 (\<lambda>_. True) (snd (heartbeat 20000 1 example_registry))))
   \<and> \<not> registryContains 1 (snd (recomputeActiveProvider 35001 (\<lambda>_. True) (snd (heartbeat 20000 1 example_registry))))"
proof -
  have c: "registryContains 1 example_registry"
    by (simp add: registryContains_def example_registry_def)
  note g = heartbeat_grace [OF example_registry_wf c, of "\<lambda>_. True", OF TrueI]
  show ?thesis using g [of 35000 20000] g [of 35001 20000] by simp
qed

text \<open>Registration: the id of a re-registering socket never changes, name and kind default as
  the contract says, and without an explicit priority the kind decides it.\<close>

theorem register_defaults:
  assumes "p = fst (registerProvider now uuid s msg r)"
  shows "hash_find (uiProviders (snd (registerProvider now uuid s msg r))) s = Some p
    \<and> p_lastHeartbeatMs p = now
    \<and> p_name p = (if toStr (jvalue msg ''name'') = [] then ''unknown'' else toStr (jvalue msg ''name''))
    \<and> p_kind p = (if toStr (jvalue msg ''kind'') = [] then p_name p else toStr (jvalue msg ''kind''))
    \<and> p_priority p = (if jcontains msg ''priority'' then toInt (jvalue msg ''priority'')
                     else if p_kind p = ''quickshell'' then 100
                     else if p_kind p = ''fallback'' then 10 else 50)
    \<and> p_id p = (case hash_find (uiProviders r) s of
                 Some old \<Rightarrow> if p_id old = [] then uuid else p_id old
               | None \<Rightarrow> uuid)"
  unfolding assms registerProvider_def
  by (cases "toStr (jvalue msg ''name'') = []"; cases "toStr (jvalue msg ''kind'') = []";
      cases "jcontains msg ''priority''"; cases "hash_find (uiProviders r) s")
     (simp_all add: Let_def emptyProvider_def)

theorem register_defaults_witness:
  "fst (registerProvider 5 ''u'' 7 [(''kind'', JStr ''quickshell'')] emptyRegistry)
   = \<lparr>p_id = ''u'', p_name = ''unknown'', p_kind = ''quickshell'', p_priority = 100, p_lastHeartbeatMs = 5\<rparr>"
proof -
  let ?p = "fst (registerProvider 5 ''u'' 7 [(''kind'', JStr ''quickshell'')] emptyRegistry)"
  show ?thesis
    using register_defaults [of ?p 5 "''u''" 7 "[(''kind'', JStr ''quickshell'')]" emptyRegistry, OF refl]
    by (intro ui_provider.equality) (simp_all add: emptyRegistry_def)
qed

end
