(* ===== verification/Event_Router.thy ===== *)
theory Event_Router
  imports Event_Queue Provider_Registry
begin

text \<open>
  Routing of events to sockets, \<^verbatim>\<open>src/core/agent/EventRouter.hpp\<close> and
  \<^verbatim>\<open>EventRouter.cpp\<close>, and dispatch of messages to handlers,
  \<^verbatim>\<open>src/core/agent/MessageRouter.cpp\<close>.
\<close>

section \<open>Events\<close>

definition isSessionEventForProviderRouting :: "jobject \<Rightarrow> bool" where
  "isSessionEventForProviderRouting event \<longleftrightarrow> startsWith (toStr (jvalue event ''type'')) ''session.''"

text \<open>\<open>valid\<close> is \<^verbatim>\<open>QLocalSocket::isValid\<close>; the result lists the calls of
  \<^verbatim>\<open>sendFn\<close> in order.\<close>

definition routeDirect ::
  "(socket \<Rightarrow> bool) \<Rightarrow> jobject \<Rightarrow> socket list \<Rightarrow> provider_registry \<Rightarrow> (socket \<times> jobject) list" where
  "routeDirect valid event subscribers r =
     (if isSessionEventForProviderRouting event \<and> hasActiveProvider r
      then let a = activeProvider r in if a \<noteq> nullptr \<and> valid a then [(a, event)] else []
      else map (\<lambda>s. (s, event)) (filter (\<lambda>s. s \<noteq> nullptr \<and> valid s) subscribers))"

definition route ::
  "(socket \<Rightarrow> bool) \<Rightarrow> jobject \<Rightarrow> socket list \<Rightarrow> provider_registry \<Rightarrow> event_queue
   \<Rightarrow> (socket \<times> jobject) list \<times> event_queue" where
  "route valid event subscribers r q =
     (let direct = routeDirect valid event subscribers r;
          q = enqueue event q;
          (drained, q) = drainToWaiters q
      in (direct @ drained, q))"

lemma queue_ok_route [wf_intros]: "queue_ok q \<Longrightarrow> queue_ok (snd (route valid e subs r q))"
  by (simp add: route_def Let_def case_prod_beta queue_ok_enqueue_drain)

lemma session_events_routed [simp]:
  "startsWith ''session.created'' ''session.''" "startsWith ''session.updated'' ''session.''"
  "startsWith ''session.closed'' ''session.''"
  by (simp_all add: startsWith_def)

text \<open>While a provider is active, a session event reaches nobody but that provider and at most
  one \<open>next\<close> client, the oldest one waiting; no other subscriber sees it.\<close>

theorem session_event_confined:
  assumes "queue_ok q" and "isSessionEventForProviderRouting event" and "hasActiveProvider r"
  shows "fst (route valid event subs r q)
    = (if valid (activeProvider r) then [(activeProvider r, event)] else [])
      @ (case q_waiters q of [] \<Rightarrow> [] | w # _ \<Rightarrow> [(w, event)])"
  using assms eq.publish_waiting(1) [OF assms(1)] eq.publish_idle(1) [of q]
  by (auto simp: route_def routeDirect_def Let_def case_prod_beta hasActiveProvider_def split: list.split)

definition example_event :: jobject where
  "example_event = [(''type'', JStr ''session.updated'')]"

theorem session_event_confined_witness:
  "fst (route (\<lambda>_. True) example_event [2, 3] \<lparr>uiProviders = [(1, emptyProvider)], activeProvider = 1\<rparr>
     \<lparr>q_maxSize = 256, q_events = [], q_waiters = [9, 8]\<rparr>)
   = [(1, example_event), (9, example_event)]"
proof -
  let ?q = "\<lparr>q_maxSize = 256, q_events = [], q_waiters = [9, 8]\<rparr>"
  have "queue_ok ?q" by (simp add: queue_ok_def)
  moreover have "isSessionEventForProviderRouting example_event"
    by (simp add: example_event_def isSessionEventForProviderRouting_def)
  moreover have "hasActiveProvider \<lparr>uiProviders = [(1, emptyProvider)], activeProvider = 1\<rparr>"
    by (simp add: hasActiveProvider_def)
  ultimately show ?thesis by (simp add: session_event_confined)
qed

section \<open>Messages\<close>

type_synonym 'st handler = "socket \<Rightarrow> jobject \<Rightarrow> 'st \<Rightarrow> 'st"

type_synonym 'st message_router = "(string, 'st handler) hash"

definition registerHandler :: "string \<Rightarrow> 'st handler \<Rightarrow> 'st message_router \<Rightarrow> 'st message_router" where
  "registerHandler ty h m = hash_put ty h m"

definition dispatch :: "'st message_router \<Rightarrow> socket \<Rightarrow> string \<Rightarrow> jobject \<Rightarrow> 'st \<Rightarrow> bool \<times> 'st" where
  "dispatch m socket ty msg st =
     (case hash_find m ty of None \<Rightarrow> (False, st) | Some h \<Rightarrow> (True, h socket msg st))"

lemma dispatch_registered:
  "dispatch (registerHandler ty h m) socket ty' msg st =
     (if ty' = ty then (True, h socket msg st) else dispatch m socket ty' msg st)"
  by (simp add: dispatch_def registerHandler_def)

end
