(* ===== verification/Provider_Manifest.thy ===== *)
theory Provider_Manifest
  imports Qt_Base
begin

text \<open>
  Parsing and validation of a provider manifest,
  \<^verbatim>\<open>src/core/providers/ProviderManifest.cpp\<close>.  Errors are the left values of a sum.
  Qt's JSON parser and \<^verbatim>\<open>QDir::isAbsolutePath\<close> are arguments.
\<close>

record provider_manifest =
  m_id :: string
  m_name :: string
  m_kind :: string
  m_priority :: int
  m_exec :: string
  m_args :: "string list"
  m_env :: jobject
  m_autostart :: bool
  m_capabilities :: "string list"
  m_sourcePath :: string

section \<open>Validation\<close>

definition PRIORITY_MIN :: int where "PRIORITY_MIN = - 1000"
definition PRIORITY_MAX :: int where "PRIORITY_MAX = 1000"

text \<open>The character classes of \<^verbatim>\<open>^[a-z0-9][a-z0-9._-]*$\<close>; in PCRE \<^verbatim>\<open>$\<close> also
  matches before a final newline.\<close>

definition idStartChar :: "char \<Rightarrow> bool" where
  "idStartChar c = (let n = of_char c :: nat in (97 \<le> n \<and> n \<le> 122) \<or> (48 \<le> n \<and> n \<le> 57))"

definition idChar :: "char \<Rightarrow> bool" where
  "idChar c = (idStartChar c \<or> c = CHR ''.'' \<or> c = CHR ''_'' \<or> c = CHR ''-'')"

definition idWord :: "string \<Rightarrow> bool" where
  "idWord s = (case s of [] \<Rightarrow> False | c # cs \<Rightarrow> idStartChar c \<and> list_all idChar cs)"

definition isValidId :: "string \<Rightarrow> bool" where
  "isValidId s = (idWord s \<or> (s \<noteq> [] \<and> last s = CHR 0x0A \<and> idWord (butlast s)))"

definition isValidExec :: "(string \<Rightarrow> bool) \<Rightarrow> string \<Rightarrow> bool" where
  "isValidExec isAbsolutePath exec =
     (if exec = [] then False
      else if CHR ''/'' \<in> set exec then isAbsolutePath exec
      else True)"

definition manifestIsValid :: "(string \<Rightarrow> bool) \<Rightarrow> provider_manifest \<Rightarrow> bool" where
  "manifestIsValid isAbs m = (m_id m \<noteq> [] \<and> isValidId (m_id m) \<and> m_name m \<noteq> [] \<and> m_kind m \<noteq> []
     \<and> m_priority m \<ge> PRIORITY_MIN \<and> m_priority m \<le> PRIORITY_MAX \<and> isValidExec isAbs (m_exec m))"

section \<open>Parsing\<close>

fun stringEntries :: "string \<Rightarrow> json list \<Rightarrow> string + string list" where
  "stringEntries fieldName [] = Inr []"
| "stringEntries fieldName (v # vs) =
     (case v of
        JStr s \<Rightarrow> (case stringEntries fieldName vs of Inl e \<Rightarrow> Inl e | Inr ss \<Rightarrow> Inr (s # ss))
      | _ \<Rightarrow> Inl (fieldName @ '' must contain only strings''))"

definition parseStringArray :: "json option \<Rightarrow> string \<Rightarrow> string + string list" where
  "parseStringArray v fieldName =
     (if isUndefinedOrNull v then Inr []
      else if \<not> isArray v then Inl (fieldName @ '' must be an array'')
      else stringEntries fieldName (toArray v))"

fun envEntries :: "jobject \<Rightarrow> jobject \<Rightarrow> string + jobject" where
  "envEntries [] envObj = Inr envObj"
| "envEntries ((k, v) # rest) envObj =
     (case v of
        JStr s \<Rightarrow> envEntries rest (hash_put k (JStr s) envObj)
      | _ \<Rightarrow> Inl ''env values must be strings'')"

definition parseEnvMap :: "json option \<Rightarrow> string + jobject" where
  "parseEnvMap v =
     (if isUndefinedOrNull v then Inr []
      else if \<not> isObject v then Inl ''env must be an object of string values''
      else envEntries (toObject v) [])"

definition checkManifest :: "(string \<Rightarrow> bool) \<Rightarrow> provider_manifest \<Rightarrow> string + provider_manifest" where
  "checkManifest isAbs m =
     (if m_id m = [] then Inl ''id is required''
      else if \<not> isValidId (m_id m) then Inl ''id must match [a-z0-9][a-z0-9._-]*''
      else if m_name m = [] then Inl ''name is required''
      else if m_kind m = [] then Inl ''kind is required''
      else if m_priority m < PRIORITY_MIN \<or> m_priority m > PRIORITY_MAX
        then Inl ''priority must be within [-1000, 1000]''
      else if m_exec m = [] then Inl ''exec is required''
      else if \<not> isValidExec isAbs (m_exec m) then Inl ''exec must be absolute path or basename''
      else Inr m)"

definition parseManifestObject ::
  "(string \<Rightarrow> bool) \<Rightarrow> jobject \<Rightarrow> string \<Rightarrow> string + provider_manifest" where
  "parseManifestObject isAbs json sourcePath =
     (let i = trimmed (toStr (jvalue json ''id''));
          name = trimmed (toStr (jvalue json ''name''));
          kind = trimmed (toStr (jvalue json ''kind''));
          exec = trimmed (toStr (jvalue json ''exec''))
      in if jcontains json ''priority'' \<and> \<not> isDouble (jvalue json ''priority'')
         then Inl ''priority must be an integer''
         else if jcontains json ''autostart'' \<and> \<not> isBool (jvalue json ''autostart'')
         then Inl ''autostart must be a boolean''
         else let autostart = (if jcontains json ''autostart''
                               then toBool (jvalue json ''autostart'') else True)
         in case parseStringArray (jvalue json ''args'') ''args'' of
              Inl e \<Rightarrow> Inl e
            | Inr args \<Rightarrow>
         (case parseEnvMap (jvalue json ''env'') of
              Inl e \<Rightarrow> Inl e
            | Inr env \<Rightarrow>
         (case parseStringArray (jvalue json ''capabilities'') ''capabilities'' of
              Inl e \<Rightarrow> Inl e
            | Inr caps \<Rightarrow>
              checkManifest isAbs
                \<lparr>m_id = i, m_name = name, m_kind = kind, m_priority = toInt (jvalue json ''priority''),
                 m_exec = exec, m_args = args, m_env = env, m_autostart = autostart,
                 m_capabilities = caps, m_sourcePath = sourcePath\<rparr>)))"

text \<open>\<open>fromJson\<close> is \<^verbatim>\<open>QJsonDocument::fromJson\<close>: an error string or a value.\<close>

definition parseProviderManifest ::
  "(string \<Rightarrow> string + json) \<Rightarrow> (string \<Rightarrow> bool) \<Rightarrow> string \<Rightarrow> string \<Rightarrow> string + provider_manifest" where
  "parseProviderManifest fromJson isAbs jsonBytes sourcePath =
     (case fromJson jsonBytes of
        Inl err \<Rightarrow> Inl (''invalid JSON: '' @ err)
      | Inr doc \<Rightarrow>
          (case doc of
             JObj json \<Rightarrow> parseManifestObject isAbs json sourcePath
           | _ \<Rightarrow> Inl ''manifest root must be an object''))"

section \<open>Properties\<close>

lemma checkManifest_valid: "checkManifest isAbs m = Inr m' \<Longrightarrow> m' = m \<and> manifestIsValid isAbs m"
  by (auto simp: checkManifest_def manifestIsValid_def split: if_splits)

lemma checkManifest_complete: "manifestIsValid isAbs m \<Longrightarrow> checkManifest isAbs m = Inr m"
  by (auto simp: checkManifest_def manifestIsValid_def isValidExec_def split: if_splits)

text \<open>C37: whatever bytes a manifest file holds, a manifest that parses is valid: a well-formed id,
  a name, a kind, a priority within [-1000, 1000] and an admissible executable.\<close>

theorem parsed_manifest_valid:
  assumes "parseProviderManifest fromJson isAbs bytes path = Inr m"
  shows "manifestIsValid isAbs m \<and> m_sourcePath m = path"
  using assms
  by (auto simp: parseProviderManifest_def parseManifestObject_def Let_def
      split: sum.splits json.splits if_splits dest!: checkManifest_valid)

definition example_manifest_json :: jobject where
  "example_manifest_json =
     [(''id'', JStr '' qt '') , (''name'', JStr ''Qt''), (''kind'', JStr ''custom''),
      (''priority'', JNum (3 / 2)), (''exec'', JStr ''bb-qt'')]"

definition example_manifest :: provider_manifest where
  "example_manifest = \<lparr>m_id = ''qt'', m_name = ''Qt'', m_kind = ''custom'', m_priority = 0,
     m_exec = ''bb-qt'', m_args = [], m_env = [], m_autostart = True, m_capabilities = [],
     m_sourcePath = ''p''\<rparr>"

lemma three_halves_floor: "\<lfloor>3 / 2 :: rat\<rfloor> = 1"
  by (simp add: floor_eq_iff)

lemma example_manifest_parses:
  "parseManifestObject (\<lambda>_. False) example_manifest_json ''p'' = Inr example_manifest"
  using three_halves_floor
  by (simp add: parseManifestObject_def example_manifest_json_def example_manifest_def Let_def
      trimmed_def isSpace_def isDouble_def parseStringArray_def parseEnvMap_def isUndefinedOrNull_def
      checkManifest_def isValidId_def idWord_def idStartChar_def idChar_def toInt_def
      PRIORITY_MIN_def PRIORITY_MAX_def isValidExec_def hash_has_def)

theorem parsed_manifest_valid_witness:
  "parseProviderManifest (\<lambda>_. Inr (JObj example_manifest_json)) (\<lambda>_. False) ''{}'' ''p'' = Inr example_manifest
   \<and> manifestIsValid (\<lambda>_. False) example_manifest"
proof -
  have p: "parseProviderManifest (\<lambda>_. Inr (JObj example_manifest_json)) (\<lambda>_. False) ''{}'' ''p''
    = Inr example_manifest"
    by (simp add: parseProviderManifest_def example_manifest_parses)
  show ?thesis using p parsed_manifest_valid [OF p] by simp
qed

text \<open>The object a packager writes for a manifest, with every field present.\<close>

definition manifestToJson :: "provider_manifest \<Rightarrow> jobject" where
  "manifestToJson m =
     [(''id'', JStr (m_id m)), (''name'', JStr (m_name m)), (''kind'', JStr (m_kind m)),
      (''priority'', JInt (m_priority m)), (''exec'', JStr (m_exec m)),
      (''args'', JArr (map JStr (m_args m))), (''env'', JObj (m_env m)),
      (''autostart'', JBool (m_autostart m)), (''capabilities'', JArr (map JStr (m_capabilities m)))]"

definition string_env :: "jobject \<Rightarrow> bool" where
  "string_env env \<longleftrightarrow> hash_wf env \<and> list_all (\<lambda>(k, v). \<exists>s. v = JStr s) env"

lemma stringEntries_map [simp]: "stringEntries f (map JStr ss) = Inr ss"
  by (induction ss) auto

lemma hash_put_fresh: "\<not> hash_has t k \<Longrightarrow> hash_put k v t = t @ [(k, v)]"
  by (induction t) auto

lemma envEntries_append:
  "hash_wf (acc @ env) \<Longrightarrow> list_all (\<lambda>(k, v). \<exists>s. v = JStr s) env \<Longrightarrow> envEntries env acc = Inr (acc @ env)"
proof (induction env arbitrary: acc)
  case (Cons kv env)
  obtain k s where kv: "kv = (k, JStr s)" using Cons.prems(2) by auto
  have "\<not> hash_has acc k" using Cons.prems(1) kv by (auto simp: hash_wf_def hash_has_keys)
  with Cons.IH [of "acc @ [(k, JStr s)]"] Cons.prems show ?case
    by (simp add: kv hash_put_fresh)
qed simp

text \<open>C38: a valid manifest whose fields carry no surrounding blanks survives being written as a JSON
  object and parsed back, field by field.\<close>

theorem manifest_roundtrip:
  assumes "manifestIsValid isAbs m" and "string_env (m_env m)"
    and "trimmed (m_id m) = m_id m" and "trimmed (m_name m) = m_name m"
    and "trimmed (m_kind m) = m_kind m" and "trimmed (m_exec m) = m_exec m"
  shows "parseManifestObject isAbs (manifestToJson m) (m_sourcePath m) = Inr m"
proof -
  have e: "envEntries (m_env m) [] = Inr (m_env m)"
    using assms(2) envEntries_append [of "[]" "m_env m"] by (simp add: string_env_def)
  have p: "toInt (Some (JInt (m_priority m))) = m_priority m"
    using assms(1) by (intro toInt_JInt) (auto simp: manifestIsValid_def PRIORITY_MIN_def PRIORITY_MAX_def)
  show ?thesis
    using checkManifest_complete [OF assms(1)] assms(3-6) e p
    by (cases m) (simp add: parseManifestObject_def manifestToJson_def Let_def isDouble_def isBool_def
        parseStringArray_def parseEnvMap_def isUndefinedOrNull_def isArray_def isObject_def
        toArray_def)
qed

theorem manifest_roundtrip_witness:
  "parseManifestObject (\<lambda>_. False) (manifestToJson example_manifest) ''p'' = Inr example_manifest"
proof -
  have v: "manifestIsValid (\<lambda>_. False) example_manifest"
    using checkManifest_valid parsed_manifest_valid_witness by blast
  have t: "string_env (m_env example_manifest)" "trimmed (m_id example_manifest) = m_id example_manifest"
    "trimmed (m_name example_manifest) = m_name example_manifest"
    "trimmed (m_kind example_manifest) = m_kind example_manifest"
    "trimmed (m_exec example_manifest) = m_exec example_manifest"
    by (simp_all add: example_manifest_def string_env_def trimmed_def isSpace_def)
  show ?thesis using manifest_roundtrip [OF v t] by (simp add: example_manifest_def)
qed

end
