(* ===== verification/Provider_Discovery.thy ===== *)
theory Provider_Discovery
  imports Provider_Manifest
begin

text \<open>
  Discovery of provider manifests in the search directories,
  \<^verbatim>\<open>src/core/providers/ProviderDiscovery.cpp\<close>.  The file system is an argument: for a
  directory, \<open>None\<close> when it does not exist, else its readable \<^verbatim>\<open>*.json\<close> files by
  name, each with its absolute path and its content (\<open>None\<close> when it cannot be opened).
  \<^verbatim>\<open>QDir::cleanPath\<close> and the manifest parser are arguments too.
\<close>

type_synonym directory = "(string \<times> string option) list"

record discovery_result =
  d_manifests :: "provider_manifest list"
  d_warnings :: "string list"

section \<open>Search directories\<close>

definition normalizeDir :: "(string \<Rightarrow> string) \<Rightarrow> string \<Rightarrow> string" where
  "normalizeDir cleanPath dir = (if dir = [] then [] else cleanPath dir)"

definition addDir :: "string \<Rightarrow> string list \<Rightarrow> string list" where
  "addDir d dirs = (if d \<noteq> [] \<and> d \<notin> set dirs then dirs @ [d] else dirs)"

definition defaultSearchDirs ::
  "(string \<Rightarrow> string) \<Rightarrow> string \<Rightarrow> string \<Rightarrow> string \<Rightarrow> string \<Rightarrow> string list" where
  "defaultSearchDirs cleanPath explicitEnv configLocation dataLocation systemDir =
     (let explicitDir = normalizeDir cleanPath explicitEnv;
          dirs = (if explicitDir \<noteq> [] then [explicitDir] else []);
          configDir = normalizeDir cleanPath (configLocation @ ''/bb-auth/providers.d'');
          dataDir = normalizeDir cleanPath (dataLocation @ ''/bb-auth/providers.d'');
          dirs = addDir configDir dirs;
          dirs = addDir dataDir dirs
      in addDir (normalizeDir cleanPath systemDir) dirs)"

section \<open>Discovery\<close>

type_synonym discovery_acc = "discovery_result \<times> string list"

definition warn :: "string \<Rightarrow> discovery_acc \<Rightarrow> discovery_acc" where
  "warn w acc = ((fst acc)\<lparr>d_warnings := d_warnings (fst acc) @ [w]\<rparr>, snd acc)"

definition discoverFile ::
  "(string \<Rightarrow> string \<Rightarrow> string + provider_manifest) \<Rightarrow> string \<times> string option \<Rightarrow> discovery_acc \<Rightarrow> discovery_acc" where
  "discoverFile parse file acc =
     (let (path, content) = file in
      case content of
        None \<Rightarrow> warn (''Skipping manifest '' @ path @ '': cannot read file'') acc
      | Some bytes \<Rightarrow>
          (case parse bytes path of
             Inl err \<Rightarrow> warn (''Skipping manifest '' @ path @ '': '' @ err) acc
           | Inr m \<Rightarrow>
               if m_id m \<in> set (snd acc)
               then warn (''Skipping manifest '' @ path @ '': duplicate id '' @ [CHR 0x27] @ m_id m @ [CHR 0x27]
                          @ '' already selected from higher precedence directory'') acc
               else ((fst acc)\<lparr>d_manifests := d_manifests (fst acc) @ [m]\<rparr>, m_id m # snd acc)))"

definition discoverDir ::
  "(string \<Rightarrow> string) \<Rightarrow> (string \<Rightarrow> directory option) \<Rightarrow> (string \<Rightarrow> string \<Rightarrow> string + provider_manifest)
   \<Rightarrow> string \<Rightarrow> discovery_acc \<Rightarrow> discovery_acc" where
  "discoverDir cleanPath listDir parse rawDir acc =
     (let dirPath = normalizeDir cleanPath rawDir in
      if dirPath = [] then acc
      else case listDir dirPath of None \<Rightarrow> acc | Some files \<Rightarrow> fold (discoverFile parse) files acc)"

definition discover ::
  "(string \<Rightarrow> string) \<Rightarrow> (string \<Rightarrow> directory option) \<Rightarrow> (string \<Rightarrow> string \<Rightarrow> string + provider_manifest)
   \<Rightarrow> string list \<Rightarrow> discovery_result" where
  "discover cleanPath listDir parse searchDirs =
     fst (fold (discoverDir cleanPath listDir parse) searchDirs (\<lparr>d_manifests = [], d_warnings = []\<rparr>, []))"

section \<open>Specification\<close>

text \<open>All files in precedence order, the manifests among them, and the first of each id.\<close>

definition searchFiles ::
  "(string \<Rightarrow> string) \<Rightarrow> (string \<Rightarrow> directory option) \<Rightarrow> string list \<Rightarrow> directory" where
  "searchFiles cleanPath listDir dirs =
     concat (map (\<lambda>d. let p = normalizeDir cleanPath d in
                      if p = [] then [] else case listDir p of None \<Rightarrow> [] | Some fs \<Rightarrow> fs) dirs)"

fun manifestsOf ::
  "(string \<Rightarrow> string \<Rightarrow> string + provider_manifest) \<Rightarrow> directory \<Rightarrow> provider_manifest list" where
  "manifestsOf parse [] = []"
| "manifestsOf parse ((path, None) # fs) = manifestsOf parse fs"
| "manifestsOf parse ((path, Some bytes) # fs) =
     (case parse bytes path of Inl _ \<Rightarrow> manifestsOf parse fs | Inr m \<Rightarrow> m # manifestsOf parse fs)"

fun firstById :: "string list \<Rightarrow> provider_manifest list \<Rightarrow> provider_manifest list" where
  "firstById seen [] = []"
| "firstById seen (m # ms) =
     (if m_id m \<in> set seen then firstById seen ms else m # firstById (m_id m # seen) ms)"

lemma firstById_ids:
  "distinct (map m_id (firstById seen ms)) \<and> set (map m_id (firstById seen ms)) = set (map m_id ms) - set seen"
  by (induction seen ms rule: firstById.induct) auto

lemma firstById_sub: "set (firstById seen ms) \<subseteq> set ms"
  by (induction seen ms rule: firstById.induct) auto

lemma firstById_seen_cong: "set s = set t \<Longrightarrow> firstById s ms = firstById t ms"
  by (induction s ms arbitrary: t rule: firstById.induct) auto

lemma discover_fold_files:
  "fold (discoverDir cleanPath listDir parse) dirs acc =
   fold (discoverFile parse) (searchFiles cleanPath listDir dirs) acc"
  by (induction dirs arbitrary: acc)
     (auto simp: searchFiles_def discoverDir_def Let_def split: option.splits)

lemma fold_discoverFile:
  "d_manifests (fst (fold (discoverFile parse) fs acc)) =
     d_manifests (fst acc) @ firstById (snd acc) (manifestsOf parse fs)
   \<and> length (d_manifests (fst (fold (discoverFile parse) fs acc)))
     + length (d_warnings (fst (fold (discoverFile parse) fs acc)))
     = length (d_manifests (fst acc)) + length (d_warnings (fst acc)) + length fs"
proof (induction fs arbitrary: acc)
  case (Cons f fs)
  obtain path content where f: "f = (path, content)" by force
  show ?case
    using Cons.IH [of "discoverFile parse f acc"]
    by (auto simp: f discoverFile_def warn_def split: option.splits sum.splits)
qed simp

text \<open>Discovery returns, in precedence order, the first valid manifest of every id, no id twice,
  and reports one warning for each other file found.\<close>

theorem discover_first_of_each_id:
  "d_manifests (discover cleanPath listDir parse dirs)
     = firstById [] (manifestsOf parse (searchFiles cleanPath listDir dirs))
   \<and> distinct (map m_id (d_manifests (discover cleanPath listDir parse dirs)))
   \<and> length (d_manifests (discover cleanPath listDir parse dirs))
     + length (d_warnings (discover cleanPath listDir parse dirs))
     = length (searchFiles cleanPath listDir dirs)"
proof -
  let ?fs = "searchFiles cleanPath listDir dirs"
  note f = fold_discoverFile [of parse ?fs "(\<lparr>d_manifests = [], d_warnings = []\<rparr>, [])"]
  have m: "d_manifests (discover cleanPath listDir parse dirs) = firstById [] (manifestsOf parse ?fs)"
    using f [THEN conjunct1] by (simp add: discover_def discover_fold_files)
  have n: "length (d_manifests (discover cleanPath listDir parse dirs))
      + length (d_warnings (discover cleanPath listDir parse dirs)) = length ?fs"
    using f [THEN conjunct2] by (simp add: discover_def discover_fold_files)
  show ?thesis using m n firstById_ids [of "[]" "manifestsOf parse ?fs"] by simp
qed

lemma manifestsOf_parsed: "m \<in> set (manifestsOf parse fs) \<Longrightarrow> \<exists>bytes path. parse bytes path = Inr m"
  by (induction parse fs rule: manifestsOf.induct) (auto split: sum.splits)

lemma discovered_valid:
  assumes "m \<in> set (d_manifests (discover cleanPath listDir (parseProviderManifest fromJson isAbs) dirs))"
  shows "manifestIsValid isAbs m"
proof -
  have "m \<in> set (manifestsOf (parseProviderManifest fromJson isAbs) (searchFiles cleanPath listDir dirs))"
    using assms firstById_sub fold_discoverFile
    by (fastforce simp: discover_def discover_fold_files)
  from manifestsOf_parsed [OF this] obtain b p
    where "parseProviderManifest fromJson isAbs b p = Inr m" by blast
  then show ?thesis
    by (auto simp: parseProviderManifest_def parseManifestObject_def Let_def
        split: sum.splits json.splits if_splits dest!: checkManifest_valid)
qed

lemma defaultSearchDirs_distinct: "distinct (defaultSearchDirs cp e c d s)"
  by (simp add: defaultSearchDirs_def addDir_def Let_def)

lemma defaultSearchDirs_explicit_first:
  "normalizeDir cp e \<noteq> [] \<Longrightarrow> hd (defaultSearchDirs cp e c d s) = normalizeDir cp e"
  by (simp add: defaultSearchDirs_def addDir_def Let_def)

end
