(* ===== verification/Provider_Launcher.thy ===== *)
theory Provider_Launcher
  imports Provider_Manifest "HOL-Library.Char_ord" "HOL-Library.List_Lexorder"
begin

text \<open>
  Choosing and starting a provider process with back-off,
  \<^verbatim>\<open>src/core/providers/ProviderLauncher.cpp\<close>.  Outside the program, hence arguments:
  the clock, the random jitter, the process start, the executable tests
  (\<^verbatim>\<open>QFileInfo\<close>, \<^verbatim>\<open>QStandardPaths::findExecutable\<close>) and the system
  environment.
\<close>

type_synonym process_env = "(string, string) hash"

record launch_result =
  l_attempted :: bool
  l_launched :: bool
  l_providerId :: string
  l_executable :: string
  l_detail :: string

record retry_state =
  rs_failures :: int
  rs_nextEligibleMs :: int

record candidate =
  c_id :: string
  c_displayName :: string
  c_exec :: string
  c_args :: "string list"
  c_env :: process_env

text \<open>The world the launcher runs in.\<close>

record launch_env =
  le_isExecutableFile :: "string \<Rightarrow> bool"
  le_findExecutable :: "string \<Rightarrow> string"
  le_systemEnv :: process_env
  le_startProcess :: "string \<Rightarrow> string list \<Rightarrow> process_env \<Rightarrow> bool"
  le_jitter :: int

type_synonym launcher = "(string, retry_state) hash"

section \<open>Back-off\<close>

definition BASE_BACKOFF_MS :: int where "BASE_BACKOFF_MS = 250"
definition MAX_BACKOFF_MS :: int where "MAX_BACKOFF_MS = 5000"

text \<open>\<open>jitter\<close> is the value of \<^verbatim>\<open>bounded(121)\<close>, between 0 and 120.\<close>

definition computeBackoffMs :: "int \<Rightarrow> int \<Rightarrow> int" where
  "computeBackoffMs jitter failures =
     (let ex = BASE_BACKOFF_MS * 2 ^ nat (min failures 8);
          cap = min ex MAX_BACKOFF_MS
      in cap + jitter)"

definition canAttempt :: "string \<Rightarrow> int \<Rightarrow> launcher \<Rightarrow> bool \<times> string" where
  "canAttempt i nowMs l =
     (case hash_find l i of
        None \<Rightarrow> (True, [])
      | Some st \<Rightarrow> if nowMs < rs_nextEligibleMs st
                   then (False, ''skip: launch throttled until '' @ showInt (rs_nextEligibleMs st))
                   else (True, []))"

definition markSuccess :: "string \<Rightarrow> launcher \<Rightarrow> launcher" where
  "markSuccess i l = hash_del i l"

definition markFailure :: "int \<Rightarrow> string \<Rightarrow> int \<Rightarrow> launcher \<Rightarrow> launcher" where
  "markFailure jitter i nowMs l =
     (let st = (case hash_find l i of Some st \<Rightarrow> st | None \<Rightarrow> \<lparr>rs_failures = 0, rs_nextEligibleMs = 0\<rparr>);
          failures = rs_failures st + 1
      in hash_put i \<lparr>rs_failures = failures, rs_nextEligibleMs = nowMs + computeBackoffMs jitter failures\<rparr> l)"

section \<open>Candidate selection\<close>

text \<open>
  The comparator of \<^verbatim>\<open>std::sort\<close>: higher priority first, then the smaller id.  As an
  instance of \<open>linorder\<close> it makes the library's sorting functions and lemmas apply.
\<close>

datatype launch_rank = LaunchRank (rank_priority: int) (rank_id: string)

instantiation launch_rank :: linorder
begin

definition less_eq_launch_rank :: "launch_rank \<Rightarrow> launch_rank \<Rightarrow> bool" where
  "less_eq_launch_rank a b \<longleftrightarrow>
     (if rank_priority a \<noteq> rank_priority b then rank_priority a > rank_priority b
      else rank_id a \<le> rank_id b)"

definition less_launch_rank :: "launch_rank \<Rightarrow> launch_rank \<Rightarrow> bool" where
  "less_launch_rank a b \<longleftrightarrow>
     (if rank_priority a \<noteq> rank_priority b then rank_priority a > rank_priority b
      else rank_id a < rank_id b)"

instance
  by standard
     (auto simp: less_eq_launch_rank_def less_launch_rank_def launch_rank.expand split: if_splits)

end

definition manifestRank :: "provider_manifest \<Rightarrow> launch_rank" where
  "manifestRank m = LaunchRank (m_priority m) (m_id m)"

definition resolveExecutable :: "launch_env \<Rightarrow> string \<Rightarrow> string" where
  "resolveExecutable le exec = (if CHR ''/'' \<in> set exec then exec else le_findExecutable le exec)"

definition mergeEnvironment :: "launch_env \<Rightarrow> jobject \<Rightarrow> process_env" where
  "mergeEnvironment le envObject =
     fold (\<lambda>(k, v) env. hash_put k (toStr (Some v)) env) envObject (le_systemEnv le)"

definition socketArgs :: "string \<Rightarrow> string list" where
  "socketArgs socketPath = (if socketPath \<noteq> [] then [''--socket'', socketPath] else [])"

definition emptyCandidate :: candidate where
  "emptyCandidate = \<lparr>c_id = [], c_displayName = [], c_exec = [], c_args = [], c_env = []\<rparr>"

text \<open>The loop over the sorted manifests: the first with an executable file.\<close>

fun firstLaunchable :: "launch_env \<Rightarrow> string \<Rightarrow> provider_manifest list \<Rightarrow> candidate option" where
  "firstLaunchable le socketPath [] = None"
| "firstLaunchable le socketPath (m # ms) =
     (let resolvedExec = resolveExecutable le (m_exec m)
      in if resolvedExec = [] \<or> \<not> le_isExecutableFile le resolvedExec
         then firstLaunchable le socketPath ms
         else Some \<lparr>c_id = m_id m, c_displayName = m_name m, c_exec = resolvedExec,
                    c_args = m_args m @ socketArgs socketPath, c_env = mergeEnvironment le (m_env m)\<rparr>)"

definition sortedAutostart :: "provider_manifest list \<Rightarrow> provider_manifest list" where
  "sortedAutostart manifests = sort_key manifestRank (filter m_autostart manifests)"

text \<open>The second component is \<^verbatim>\<open>selectionError\<close>.\<close>

definition selectCandidate ::
  "launch_env \<Rightarrow> provider_manifest list \<Rightarrow> string \<Rightarrow> string \<Rightarrow> string \<Rightarrow> candidate \<times> string" where
  "selectCandidate le manifests legacyFallbackPath defaultFallbackPath socketPath =
     (let legacyEnvPath = trimmed legacyFallbackPath in
      if legacyEnvPath \<noteq> [] then
        (if \<not> le_isExecutableFile le legacyEnvPath
         then (emptyCandidate, ''skip: BB_AUTH_FALLBACK_PATH is not executable: '' @ legacyEnvPath)
         else (\<lparr>c_id = ''__legacy_env__'', c_displayName = ''legacy-env'', c_exec = legacyEnvPath,
                c_args = socketArgs socketPath, c_env = le_systemEnv le\<rparr>, []))
      else case firstLaunchable le socketPath (sortedAutostart manifests) of
        Some c \<Rightarrow> (c, [])
      | None \<Rightarrow>
          (let fallbackPath = trimmed defaultFallbackPath in
           if fallbackPath = [] \<or> \<not> le_isExecutableFile le fallbackPath
           then (emptyCandidate, ''skip: no launchable provider candidate'')
           else (\<lparr>c_id = ''__legacy_default__'', c_displayName = ''legacy-default'', c_exec = fallbackPath,
                  c_args = socketArgs socketPath, c_env = le_systemEnv le\<rparr>, [])))"

section \<open>Launching\<close>

definition launchQuoted :: "string \<Rightarrow> string \<Rightarrow> string \<Rightarrow> string" where
  "launchQuoted what name reason = what @ [CHR 0x27] @ name @ [CHR 0x27] @ '' ('' @ reason @ '')''"

text \<open>The last component of the result is the process start that was tried, if any.\<close>

definition tryLaunch ::
  "launch_env \<Rightarrow> int \<Rightarrow> provider_manifest list \<Rightarrow> string \<Rightarrow> string \<Rightarrow> bool \<Rightarrow> bool \<Rightarrow> string \<Rightarrow> string
   \<Rightarrow> launcher \<Rightarrow> launch_result \<times> launcher \<times> candidate option" where
  "tryLaunch le nowMs manifests socketPath reason hasActive hasPendingSessions legacyFallbackPath
     defaultFallbackPath l =
     (let result = \<lparr>l_attempted = False, l_launched = False, l_providerId = [], l_executable = [], l_detail = []\<rparr>
      in if hasActive \<or> \<not> hasPendingSessions
         then (result\<lparr>l_detail := ''skip: no launch required''\<rparr>, l, None)
         else
           let (candidate, selectionError) =
                 selectCandidate le manifests legacyFallbackPath defaultFallbackPath socketPath
           in if c_id candidate = [] then (result\<lparr>l_detail := selectionError\<rparr>, l, None)
              else
                let (ok, throttleReason) = canAttempt (c_id candidate) nowMs l;
                    result = result\<lparr>l_providerId := c_id candidate, l_executable := c_exec candidate\<rparr>
                in if \<not> ok then (result\<lparr>l_detail := throttleReason\<rparr>, l, None)
                   else
                     let result = result\<lparr>l_attempted := True\<rparr> in
                     if \<not> le_startProcess le (c_exec candidate) (c_args candidate) (c_env candidate)
                     then (result\<lparr>l_detail := launchQuoted ''launch failed for '' (c_displayName candidate) reason\<rparr>,
                           markFailure (le_jitter le) (c_id candidate) nowMs l, Some candidate)
                     else (result\<lparr>l_launched := True,
                                  l_detail := launchQuoted ''launched '' (c_displayName candidate) reason\<rparr>,
                           markSuccess (c_id candidate) l, Some candidate))"

section \<open>Properties of the back-off\<close>

lemma pow2_min8: "1 \<le> failures \<Longrightarrow> 2 \<le> (2::int) ^ nat (min failures 8)"
proof -
  assume "1 \<le> failures"
  then have "1 \<le> nat (min failures 8)" by simp
  then have "(2::int) ^ 1 \<le> 2 ^ nat (min failures 8)" by (rule power_increasing) simp
  then show ?thesis by simp
qed



lemma backoff_mono: "f \<le> g \<Longrightarrow> 0 \<le> f \<Longrightarrow> computeBackoffMs j f \<le> computeBackoffMs j g"
  unfolding computeBackoffMs_def Let_def BASE_BACKOFF_MS_def MAX_BACKOFF_MS_def
  by (simp add: min.coboundedI1 nat_mono power_increasing min_le_iff_disj)

text \<open>Failure counts in the table are positive.\<close>

definition launcher_ok :: "launcher \<Rightarrow> bool" where
  "launcher_ok l \<longleftrightarrow> hash_wf l \<and> (\<forall>i st. hash_find l i = Some st \<longrightarrow> 1 \<le> rs_failures st)"

lemma launcher_ok_Nil [simp]: "launcher_ok []"
  by (simp add: launcher_ok_def)

lemma launcher_ok_mark [wf_intros]:
  "launcher_ok l \<Longrightarrow> launcher_ok (markSuccess i l)"
  "launcher_ok l \<Longrightarrow> launcher_ok (markFailure j i now l)"
  by (auto simp: launcher_ok_def markSuccess_def markFailure_def Let_def split: option.splits
      dest: order.trans [OF zero_le_one])

text \<open>The recorded failures of a candidate, and what a failed start does to it.\<close>

definition failuresOf :: "string \<Rightarrow> launcher \<Rightarrow> int" where
  "failuresOf i l = (case hash_find l i of None \<Rightarrow> 0 | Some st \<Rightarrow> rs_failures st)"

lemma markFailure_throttles:
  "fst (canAttempt i t (markFailure j i now l)) \<longleftrightarrow> now + computeBackoffMs j (failuresOf i l + 1) \<le> t"
  "failuresOf i (markFailure j i now l) = failuresOf i l + 1"
  by (auto simp: canAttempt_def markFailure_def failuresOf_def Let_def split: option.splits)

lemma launcher_ok_tryLaunch [wf_intros]:
  assumes "launcher_ok l"
  shows "launcher_ok (fst (snd (tryLaunch le now ms sp rs act pend leg def l)))"
  using launcher_ok_mark [OF assms] assms
  by (simp add: tryLaunch_def Let_def case_prod_beta)

section \<open>Properties of selection and launch\<close>

lemma firstLaunchable_Some:
  assumes "firstLaunchable le sp ms = Some c" and "sorted_wrt R ms" and "\<And>m. R m m"
  shows "\<exists>m \<in> set ms. c_id c = m_id m \<and> c_exec c = resolveExecutable le (m_exec m)
    \<and> c_exec c \<noteq> [] \<and> le_isExecutableFile le (c_exec c)
    \<and> (\<forall>n \<in> set ms. resolveExecutable le (m_exec n) \<noteq> [] \<longrightarrow>
         le_isExecutableFile le (resolveExecutable le (m_exec n)) \<longrightarrow> R m n)"
  using assms(1,2)
proof (induction ms)
  case (Cons m ms)
  show ?case
  proof (cases "resolveExecutable le (m_exec m) = [] \<or> \<not> le_isExecutableFile le (resolveExecutable le (m_exec m))")
    case True
    then have "firstLaunchable le sp ms = Some c" using Cons.prems(1) by (simp add: Let_def)
    from Cons.IH [OF this] Cons.prems(2) True show ?thesis by auto
  next
    case False
    then have "c = \<lparr>c_id = m_id m, c_displayName = m_name m, c_exec = resolveExecutable le (m_exec m),
      c_args = m_args m @ socketArgs sp, c_env = mergeEnvironment le (m_env m)\<rparr>"
      using Cons.prems(1) by (simp add: Let_def)
    then show ?thesis using False Cons.prems(2) assms(3) by auto
  qed
qed simp

definition launchable :: "launch_env \<Rightarrow> provider_manifest \<Rightarrow> bool" where
  "launchable le m \<longleftrightarrow> m_autostart m \<and> resolveExecutable le (m_exec m) \<noteq> []
     \<and> le_isExecutableFile le (resolveExecutable le (m_exec m))"

text \<open>Without an override the candidate is the launchable autostart manifest of the highest
  priority, the smallest id among equals; manifests without autostart are never started.\<close>

theorem select_best_manifest:
  assumes "trimmed legacy = []" and "m \<in> set ms" and "launchable le m"
  shows "\<exists>b \<in> set ms. launchable le b \<and> manifestRank b \<le> manifestRank m
    \<and> c_id (fst (selectCandidate le ms legacy dflt sp)) = m_id b
    \<and> c_exec (fst (selectCandidate le ms legacy dflt sp)) = resolveExecutable le (m_exec b)"
proof -
  let ?s = "sortedAutostart ms"
  have mem: "set ?s = {x \<in> set ms. m_autostart x}" by (auto simp: sortedAutostart_def)
  have srt: "sorted_wrt (\<lambda>x y. manifestRank x \<le> manifestRank y) ?s"
    unfolding sortedAutostart_def by (metis sorted_map sorted_sort_key)
  have "firstLaunchable le sp ?s \<noteq> None"
  proof -
    have "firstLaunchable le sp xs \<noteq> None" if "m \<in> set xs" for xs
      using that assms(3) by (induction xs) (auto simp: Let_def launchable_def)
    then show ?thesis using assms(2,3) mem by (simp add: launchable_def)
  qed
  then obtain c where c: "firstLaunchable le sp ?s = Some c" by blast
  have m: "m \<in> set ?s" using assms(2,3) mem by (simp add: launchable_def)
  from firstLaunchable_Some [OF c srt] m mem assms(3) obtain b where
    "b \<in> set ms" "m_autostart b" "c_id c = m_id b" "c_exec c = resolveExecutable le (m_exec b)"
    "c_exec c \<noteq> []" "le_isExecutableFile le (c_exec c)" "manifestRank b \<le> manifestRank m"
    by (auto simp: launchable_def)
  then show ?thesis
    using assms(1) c by (auto simp: selectCandidate_def launchable_def Let_def)
qed

definition example_launch_env :: launch_env where
  "example_launch_env = \<lparr>le_isExecutableFile = (\<lambda>p. p = ''/usr/bin/bb-qt''),
     le_findExecutable = (\<lambda>n. ''/usr/bin/'' @ n), le_systemEnv = [],
     le_startProcess = (\<lambda>_ _ _. False), le_jitter = 7\<rparr>"

lemma example_manifest_launchable: "launchable example_launch_env example_manifest"
  by (simp add: launchable_def example_manifest_def resolveExecutable_def example_launch_env_def)

theorem select_best_manifest_witness:
  "c_exec (fst (selectCandidate example_launch_env [example_manifest] [] [] ''s'')) = ''/usr/bin/bb-qt''"
proof -
  have t: "trimmed [] = []" by (simp add: trimmed_def)
  have m: "example_manifest \<in> set [example_manifest]" by simp
  from select_best_manifest [OF t m example_manifest_launchable, of "[]" "''s''"] show ?thesis
    by (simp add: resolveExecutable_def example_manifest_def example_launch_env_def)
qed

text \<open>A process is started only when no provider is active, a session is pending and the chosen
  candidate is not being throttled; a failed start throttles that candidate until its back-off
  has passed, a successful one clears its record.\<close>

theorem launch_started:
  assumes "tryLaunch le now ms sp rs act pend leg dflt l = (res, l', Some c)"
  shows "\<not> act \<and> pend \<and> fst (canAttempt (c_id c) now l) \<and> l_attempted res
    \<and> (if le_startProcess le (c_exec c) (c_args c) (c_env c)
       then l_launched res \<and> hash_find l' (c_id c) = None
       else \<not> l_launched res \<and> failuresOf (c_id c) l' = failuresOf (c_id c) l + 1
         \<and> (\<forall>t. fst (canAttempt (c_id c) t l')
                \<longleftrightarrow> now + computeBackoffMs (le_jitter le) (failuresOf (c_id c) l + 1) \<le> t))"
  using assms
  by (auto simp: tryLaunch_def Let_def case_prod_beta markSuccess_def markFailure_throttles
      split: if_splits)

theorem launch_started_witness:
  "fst (tryLaunch example_launch_env 1000 [example_manifest] [] ''session-created'' False True [] [] [])
     = \<lparr>l_attempted = True, l_launched = False, l_providerId = ''qt'', l_executable = ''/usr/bin/bb-qt'',
        l_detail = launchQuoted ''launch failed for '' ''Qt'' ''session-created''\<rparr>
   \<and> (\<forall>t. fst (canAttempt ''qt'' t
          (fst (snd (tryLaunch example_launch_env 1000 [example_manifest] [] ''session-created'' False True [] [] []))))
        \<longleftrightarrow> 1507 \<le> t)"
proof -
  let ?t = "tryLaunch example_launch_env 1000 [example_manifest] [] ''session-created'' False True [] [] []"
  obtain c where c: "snd (snd ?t) = Some c" "c_id c = ''qt''"
    and r: "fst ?t = \<lparr>l_attempted = True, l_launched = False, l_providerId = ''qt'',
        l_executable = ''/usr/bin/bb-qt'',
        l_detail = launchQuoted ''launch failed for '' ''Qt'' ''session-created''\<rparr>"
    by (simp add: tryLaunch_def selectCandidate_def sortedAutostart_def trimmed_def example_manifest_def
        example_launch_env_def resolveExecutable_def canAttempt_def Let_def)
  have "?t = (fst ?t, fst (snd ?t), Some c)" using c by (metis prod.collapse)
  from launch_started [OF this] c r show ?thesis
    by (simp add: example_launch_env_def failuresOf_def computeBackoffMs_def BASE_BACKOFF_MS_def
        MAX_BACKOFF_MS_def)
qed

end
