(* ===== verification/Request_Context.thy ===== *)
theory Request_Context
  imports Qt_Base
begin

text \<open>
  Who asked for the authentication: \<^verbatim>\<open>src/core/RequestContext.cpp\<close>.  The program
  walks up the process tree from the requesting process and looks for a desktop entry.
  The \<^verbatim>\<open>/proc\<close> file system, the desktop index, number parsing and Unicode upper
  case are arguments.  The walk is bounded by 16 hops, which is the fuel of
  \<open>resolveLoop\<close>; running out of it is the code's own \<^verbatim>\<open>hops < 16\<close>.
\<close>

section \<open>Data\<close>

record proc_info =
  pi_pid :: int
  pi_ppid :: int
  pi_uid :: int
  pi_euid :: int
  pi_name :: string
  pi_exe :: string
  pi_cmdline :: string

record desktop_info =
  di_desktopId :: string
  di_name :: string
  di_iconName :: string
  di_exec :: string
  di_tryExec :: string

record actor_info =
  ac_proc :: proc_info
  ac_desktop :: desktop_info
  ac_displayName :: string
  ac_iconName :: string
  ac_fallbackLetter :: string
  ac_fallbackKey :: string
  ac_confidence :: string

definition emptyProc :: proc_info where
  "emptyProc = \<lparr>pi_pid = 0, pi_ppid = 0, pi_uid = 0, pi_euid = 0, pi_name = [], pi_exe = [], pi_cmdline = []\<rparr>"

definition emptyDesktop :: desktop_info where
  "emptyDesktop = \<lparr>di_desktopId = [], di_name = [], di_iconName = [], di_exec = [], di_tryExec = []\<rparr>"

definition emptyActor :: actor_info where
  "emptyActor = \<lparr>ac_proc = emptyProc, ac_desktop = emptyDesktop, ac_displayName = [], ac_iconName = [],
     ac_fallbackLetter = [], ac_fallbackKey = [], ac_confidence = []\<rparr>"

definition desktopIsValid :: "desktop_info \<Rightarrow> bool" where
  "desktopIsValid d \<longleftrightarrow> di_desktopId d \<noteq> []"

text \<open>\<open>toLongLong\<close> gives \<open>None\<close> when the text is no number.\<close>

type_synonym int_parser = "string \<Rightarrow> int option"

definition procToJson :: "proc_info \<Rightarrow> jobject" where
  "procToJson p =
     (let obj = [];
          obj = (if pi_pid p > 0 then hash_put ''pid'' (JInt (pi_pid p)) obj else obj);
          obj = (if pi_ppid p > 0 then hash_put ''ppid'' (JInt (pi_ppid p)) obj else obj);
          obj = (if pi_uid p \<ge> 0 then hash_put ''uid'' (JInt (pi_uid p)) obj else obj);
          obj = (if pi_euid p \<ge> 0 then hash_put ''euid'' (JInt (pi_euid p)) obj else obj);
          obj = (if pi_name p \<noteq> [] then hash_put ''name'' (JStr (pi_name p)) obj else obj);
          obj = (if pi_exe p \<noteq> [] then hash_put ''exe'' (JStr (pi_exe p)) obj else obj)
      in if pi_cmdline p \<noteq> [] then hash_put ''cmdline'' (JStr (pi_cmdline p)) obj else obj)"

definition actorToJson :: "actor_info \<Rightarrow> jobject" where
  "actorToJson a =
     (let obj = [(''proc'', JObj (procToJson (ac_proc a)))];
          obj = (if desktopIsValid (ac_desktop a)
                 then hash_put ''desktopId'' (JStr (di_desktopId (ac_desktop a))) obj else obj)
      in obj @ [(''displayName'', JStr (ac_displayName a)), (''iconName'', JStr (ac_iconName a)),
                (''fallbackLetter'', JStr (ac_fallbackLetter a)),
                (''fallbackKey'', JStr (ac_fallbackKey a)), (''confidence'', JStr (ac_confidence a))])"

section \<open>The subject of a polkit request\<close>

definition positivePid :: "int_parser \<Rightarrow> string \<Rightarrow> int option" where
  "positivePid toLongLong s = (case toLongLong s of Some pid \<Rightarrow> if pid > 0 then Some pid else None | None \<Rightarrow> None)"

definition detail :: "(string, string) hash \<Rightarrow> string \<Rightarrow> string" where
  "detail details k = (case hash_find details k of Some v \<Rightarrow> v | None \<Rightarrow> [])"

definition extractSubjectPid :: "int_parser \<Rightarrow> (string, string) hash \<Rightarrow> int option" where
  "extractSubjectPid toLongLong details =
     (case positivePid toLongLong (detail details ''polkit.subject-pid'') of
        Some pid \<Rightarrow> Some pid
      | None \<Rightarrow> positivePid toLongLong (detail details ''polkit.caller-pid''))"

definition extractCallerPid :: "int_parser \<Rightarrow> (string, string) hash \<Rightarrow> int option" where
  "extractCallerPid toLongLong details = positivePid toLongLong (detail details ''polkit.caller-pid'')"

section \<open>Reading a process\<close>

text \<open>What \<^verbatim>\<open>/proc\<close> shows: the status file (\<open>None\<close> if it cannot be opened), the target
  of the exe link, and the command line file.\<close>

record proc_fs =
  fs_status :: "int \<Rightarrow> string option"
  fs_exe :: "int \<Rightarrow> string"
  fs_cmdline :: "int \<Rightarrow> string option"

definition afterColon :: "string \<Rightarrow> string" where
  "afterColon line = drop 1 (dropWhile (\<lambda>c. c \<noteq> CHR '':'') line)"

definition longLongOr0 :: "int_parser \<Rightarrow> string \<Rightarrow> int" where
  "longLongOr0 toLongLong s = (case toLongLong s of Some n \<Rightarrow> n | None \<Rightarrow> 0)"

definition statusLine :: "int_parser \<Rightarrow> string \<Rightarrow> proc_info \<Rightarrow> proc_info" where
  "statusLine toLongLong line info =
     (if startsWith line ''Name:'' then info\<lparr>pi_name := trimmed (afterColon line)\<rparr>
      else if startsWith line ''PPid:''
        then info\<lparr>pi_ppid := longLongOr0 toLongLong (trimmed (afterColon line))\<rparr>
      else if startsWith line ''Uid:'' then
        (let parts = splitOn (CHR '' '') (simplified (afterColon line));
             info = (if length parts \<ge> 1 then info\<lparr>pi_uid := longLongOr0 toLongLong (parts ! 0)\<rparr> else info)
         in if length parts \<ge> 2 then info\<lparr>pi_euid := longLongOr0 toLongLong (parts ! 1)\<rparr> else info)
      else info)"

definition cleanCmdline :: "string \<Rightarrow> string" where
  "cleanCmdline data = joinWith '' '' (filter (\<lambda>a. a \<noteq> []) (splitOn (CHR 0x00) data))"

definition readProc :: "int_parser \<Rightarrow> proc_fs \<Rightarrow> int \<Rightarrow> proc_info option" where
  "readProc toLongLong fs pid =
     (case fs_status fs pid of
        None \<Rightarrow> None
      | Some data \<Rightarrow>
          (let info = emptyProc\<lparr>pi_pid := pid\<rparr>;
               info = fold (statusLine toLongLong) (splitOn (CHR 0x0A) data) info;
               info = info\<lparr>pi_exe := fs_exe fs pid\<rparr>
           in case fs_cmdline fs pid of
                None \<Rightarrow> Some info
              | Some cmd \<Rightarrow> Some (info\<lparr>pi_cmdline := cleanCmdline cmd\<rparr>)))"

section \<open>Desktop entries\<close>

definition findDesktopForExe :: "desktop_info list \<Rightarrow> string \<Rightarrow> desktop_info" where
  "findDesktopForExe index exePath =
     (if exePath = [] then emptyDesktop
      else let base = fileName exePath in
        case find (\<lambda>d. di_desktopId d = base @ ''.desktop'') index of Some d \<Rightarrow> d
      | None \<Rightarrow> (case find (\<lambda>d. equalCI (di_desktopId d) (base @ ''.desktop'')) index of Some d \<Rightarrow> d
      | None \<Rightarrow> (case find (\<lambda>d. di_exec d \<noteq> [] \<and> fileName (di_exec d) = base) index of Some d \<Rightarrow> d
      | None \<Rightarrow> (case find (\<lambda>d. di_tryExec d \<noteq> [] \<and> fileName (di_tryExec d) = base) index of Some d \<Rightarrow> d
      | None \<Rightarrow> (case find (\<lambda>d. equalCI (di_name d) base) index of Some d \<Rightarrow> d
      | None \<Rightarrow> emptyDesktop)))))"

section \<open>Resolution of the requestor\<close>

definition exeNameOf :: "proc_info \<Rightarrow> string" where
  "exeNameOf info =
     (if pi_exe info \<noteq> [] then fileName (pi_exe info)
      else if pi_euid info = 0 then pi_name info else [])"

definition isBridge :: "proc_info \<Rightarrow> bool" where
  "isBridge info = (exeNameOf info = ''pkexec'' \<or> exeNameOf info = ''sudo'' \<or> exeNameOf info = ''doas'')"

definition desktopOf :: "desktop_info list \<Rightarrow> proc_info \<Rightarrow> desktop_info" where
  "desktopOf index info =
     (let d = (if pi_exe info \<noteq> [] then findDesktopForExe index (pi_exe info) else emptyDesktop)
      in if \<not> desktopIsValid d \<and> pi_name info \<noteq> [] then findDesktopForExe index (pi_name info) else d)"

text \<open>The first argument counts the hops left.\<close>

fun resolveLoop ::
  "nat \<Rightarrow> desktop_info list \<Rightarrow> (int \<Rightarrow> proc_info option) \<Rightarrow> int \<Rightarrow> int \<Rightarrow> actor_info \<Rightarrow> actor_info" where
  "resolveLoop 0 index procReader agentUid currPid actor = actor"
| "resolveLoop (Suc hops) index procReader agentUid currPid actor =
     (if \<not> currPid > 1 then actor
      else case procReader currPid of
        None \<Rightarrow> actor
      | Some info \<Rightarrow>
          if pi_uid info \<noteq> agentUid \<and> agentUid \<noteq> 0 \<and> \<not> isBridge info then actor
          else
            let actor = (if \<not> isBridge info \<and> pi_uid info = agentUid then actor\<lparr>ac_proc := info\<rparr> else actor);
                d = desktopOf index info
            in if desktopIsValid d
               then actor\<lparr>ac_proc := info, ac_desktop := d, ac_confidence := ''desktop''\<rparr>
               else if pi_ppid info \<le> 1 \<or> pi_ppid info = currPid then actor
               else resolveLoop hops index procReader agentUid (pi_ppid info) actor)"

definition fillDisplay :: "(char \<Rightarrow> char) \<Rightarrow> actor_info \<Rightarrow> actor_info" where
  "fillDisplay toUpper actor =
     (let p = ac_proc actor; d = ac_desktop actor;
          actor = (if \<not> desktopIsValid d
                   then actor\<lparr>ac_confidence := (if pi_exe p = []
                          then (if pi_name p = [] then ''unknown'' else ''name-only'') else ''exe-only'')\<rparr>
                   else actor);
          actor = (if desktopIsValid d
                   then actor\<lparr>ac_displayName := di_name d, ac_iconName := di_iconName d\<rparr>
                   else if pi_exe p \<noteq> []
                   then actor\<lparr>ac_displayName := fileName (pi_exe p),
                              ac_iconName := (if ac_iconName actor = [] then toLower (baseName (pi_exe p))
                                              else ac_iconName actor)\<rparr>
                   else if pi_name p \<noteq> []
                   then actor\<lparr>ac_displayName := pi_name p,
                              ac_iconName := (if ac_iconName actor = [] then toLower (pi_name p)
                                              else ac_iconName actor)\<rparr>
                   else actor\<lparr>ac_displayName := ''Unknown''\<rparr>);
          actor = (case ac_displayName actor of
                     [] \<Rightarrow> actor
                   | c # _ \<Rightarrow> actor\<lparr>ac_fallbackLetter := [toUpper c]\<rparr>)
      in actor\<lparr>ac_fallbackKey := (if desktopIsValid d then di_desktopId d
                                  else toLower (ac_displayName actor))\<rparr>)"

definition resolveRequestorFromSubject ::
  "(char \<Rightarrow> char) \<Rightarrow> desktop_info list \<Rightarrow> (int \<Rightarrow> proc_info option) \<Rightarrow> proc_info \<Rightarrow> int \<Rightarrow> actor_info" where
  "resolveRequestorFromSubject toUpper index procReader subject agentUid =
     fillDisplay toUpper
       (resolveLoop 16 index procReader agentUid (pi_pid subject) (emptyActor\<lparr>ac_proc := subject\<rparr>))"

section \<open>Classification of a request\<close>

definition classifyRequest :: "string \<Rightarrow> string \<Rightarrow> string \<Rightarrow> jobject" where
  "classifyRequest src title description =
     (let (kind, icon, colorize) =
            (if src = ''polkit'' then (''polkit'', ''security-high'', True)
             else if src = ''keyring'' then
               (if containsCI title ''gpg'' \<or> containsCI description ''OpenPGP''
                then (''gpg'', ''gnupg'', True)
                else if containsCI title ''ssh'' \<or> containsCI description ''ssh''
                then (''ssh'', ''ssh-key'', True)
                else (''keyring'', [], True))
             else (''unknown'', [], False));
          hint = [(''kind'', JStr kind), (''colorize'', JBool colorize)]
      in if icon \<noteq> [] then hash_put ''iconName'' (JStr icon) hint else hint)"

section \<open>Properties\<close>

text \<open>\<open>mayShow\<close>: the processes the walk is allowed to present: those of the agent's user, and those
  of others only with a desktop entry and only as a privilege bridge or for a root agent.\<close>

definition mayShow :: "desktop_info list \<Rightarrow> int \<Rightarrow> proc_info \<Rightarrow> bool" where
  "mayShow index agentUid p \<longleftrightarrow>
     pi_uid p = agentUid \<or> (desktopIsValid (desktopOf index p) \<and> (isBridge p \<or> agentUid = 0))"

lemma resolveLoop_proc:
  "ac_proc (resolveLoop n index rd u pid a) = ac_proc a
   \<or> (\<exists>q. rd q = Some (ac_proc (resolveLoop n index rd u pid a))
        \<and> mayShow index u (ac_proc (resolveLoop n index rd u pid a)))"
proof (induction n index rd u pid a rule: resolveLoop.induct)
  case (2 hops index rd u pid a)
  show ?case
  proof (cases "rd pid")
    case (Some info)
    let ?a = "if \<not> isBridge info \<and> pi_uid info = u then a\<lparr>ac_proc := info\<rparr> else a"
    let ?go = "\<not> (pi_uid info \<noteq> u \<and> u \<noteq> 0 \<and> \<not> isBridge info)"
    consider (stop) "\<not> pid > 1 \<or> \<not> ?go"
      | (hit) "pid > 1" ?go "desktopIsValid (desktopOf index info)"
      | (last) "pid > 1" ?go "\<not> desktopIsValid (desktopOf index info)" "pi_ppid info \<le> 1 \<or> pi_ppid info = pid"
      | (up) "pid > 1" ?go "\<not> desktopIsValid (desktopOf index info)" "\<not> (pi_ppid info \<le> 1 \<or> pi_ppid info = pid)"
      by blast
    then show ?thesis
    proof cases
      case stop
      then show ?thesis using Some by auto
    next
      case hit
      then show ?thesis using Some by (auto simp: mayShow_def Let_def)
    next
      case last
      then show ?thesis using Some by (auto simp: mayShow_def Let_def)
    next
      case up
      then have "resolveLoop (Suc hops) index rd u pid a = resolveLoop hops index rd u (pi_ppid info) ?a"
        using Some by (auto simp: Let_def)
      moreover have "ac_proc ?a = ac_proc a \<or> (rd pid = Some (ac_proc ?a) \<and> mayShow index u (ac_proc ?a))"
        using Some by (simp add: mayShow_def)
      ultimately show ?thesis
        using "2.IH" [OF _ Some _ refl refl] up by (metis (no_types, lifting))
    qed
  qed simp
qed simp

lemma fillDisplay_proc [simp]: "ac_proc (fillDisplay up a) = ac_proc a"
  by (simp add: fillDisplay_def Let_def split: list.split)

text \<open>C39: the process a prompt names is the requesting process itself or one read from \<^verbatim>\<open>/proc\<close>
  that belongs to the agent's user, or a privilege bridge with a desktop entry (any owner when
  the agent runs as root); no other user's process is ever shown.\<close>

theorem requestor_owner:
  assumes "a = resolveRequestorFromSubject up index rd subject u"
  shows "ac_proc a = subject \<or> (\<exists>q. rd q = Some (ac_proc a) \<and> mayShow index u (ac_proc a))"
  using resolveLoop_proc [of 16 index rd u "pi_pid subject" "emptyActor\<lparr>ac_proc := subject\<rparr>"]
  by (auto simp: assms resolveRequestorFromSubject_def)

definition example_shell :: proc_info where
  "example_shell = emptyProc\<lparr>pi_pid := 50, pi_ppid := 1, pi_uid := 1000, pi_euid := 1000, pi_name := ''zsh''\<rparr>"

definition example_pkexec :: proc_info where
  "example_pkexec = emptyProc\<lparr>pi_pid := 60, pi_ppid := 50, pi_uid := 1000, pi_exe := ''/usr/bin/pkexec''\<rparr>"

definition example_reader :: "int \<Rightarrow> proc_info option" where
  "example_reader = (\<lambda>p. if p = 60 then Some example_pkexec else if p = 50 then Some example_shell else None)"

theorem requestor_owner_witness:
  "ac_proc (resolveRequestorFromSubject id [] example_reader example_pkexec 1000) = example_shell
   \<and> (\<exists>q. example_reader q = Some example_shell \<and> mayShow [] 1000 example_shell)"
proof -
  let ?a = "resolveRequestorFromSubject id [] example_reader example_pkexec 1000"
  have p: "ac_proc ?a = example_shell"
    by (simp add: resolveRequestorFromSubject_def example_reader_def example_pkexec_def example_shell_def
        emptyProc_def emptyActor_def eval_nat_numeral isBridge_def exeNameOf_def fileName_def desktopOf_def
        findDesktopForExe_def desktopIsValid_def emptyDesktop_def)
  have ne: "example_shell \<noteq> example_pkexec"
    by (simp add: example_shell_def example_pkexec_def emptyProc_def)
  show ?thesis using requestor_owner [of ?a id "[]" example_reader example_pkexec 1000, OF refl] p ne by simp
qed

text \<open>The confidence tells where the name comes from, and a name always brings its letter.\<close>

lemma resolve_confidence:
  assumes "ac_desktop a = emptyDesktop"
  shows "ac_confidence (fillDisplay up a) =
    (if pi_exe (ac_proc a) \<noteq> [] then ''exe-only''
     else if pi_name (ac_proc a) \<noteq> [] then ''name-only'' else ''unknown'')"
  using assms by (simp add: fillDisplay_def Let_def desktopIsValid_def emptyDesktop_def split: list.split)

section \<open>Prompt texts\<close>

text \<open>
  \<^verbatim>\<open>normalizePrompt\<close>, which only the tests call.  The second character it strips, the full-width
  colon U+FF1A, lies outside Latin-1; \<open>wideColon\<close> recognizes it.
\<close>

definition normalizePrompt :: "(char \<Rightarrow> bool) \<Rightarrow> string \<Rightarrow> string" where
  "normalizePrompt wideColon s =
     (let s = trimmed s;
          s = (if endsWith s '':'' then butlast s
               else if s \<noteq> [] \<and> wideColon (last s) then butlast s
               else s)
      in trimmed s)"

lemma normalizePrompt_blanks:
  "normalizePrompt wideColon s \<noteq> [] \<Longrightarrow>
   \<not> isSpace (hd (normalizePrompt wideColon s)) \<and> \<not> isSpace (last (normalizePrompt wideColon s))"
  unfolding normalizePrompt_def Let_def by (rule trimmed_no_space_ends)

lemma normalizePrompt_examples:
  "normalizePrompt (\<lambda>_. False) ''Password: '' = ''Password''"
  "normalizePrompt (\<lambda>_. False) '' Pin'' = ''Pin''"
  "normalizePrompt (\<lambda>_. False) '':'' = []"
  by code_simp+

end
