(* ===== verification/Agent_Core.thy ===== *)
theory Agent_Core
  imports Session_Store Event_Router Provider_Discovery Provider_Launcher Request_Context
begin

text \<open>
  The state of the daemon and the operations every handler shares: sending, routing of
  session events, session bookkeeping, provider status and the launch of a fallback UI.
  Models \<^verbatim>\<open>src/core/Agent.hpp\<close>, the shared part of \<^verbatim>\<open>Agent.cpp\<close>, the
  request structs of \<^verbatim>\<open>managers/RequestTypes.hpp\<close> and the state of
  \<^verbatim>\<open>PolkitListener.hpp\<close>.

  The daemon is single-threaded: one event of the Qt loop is one step.  What the step reads
  from outside is the record \<open>env\<close>; the clock is a function of how often it has been read,
  so two reads of one step may differ.  Everything written to a socket is appended to
  \<open>a_sent\<close> with the flag that says whether the buffer was wiped afterwards.
\<close>

section \<open>Requests\<close>

record keyring_request =
  kr_cookie :: string
  kr_socket :: socket
  kr_peerPid :: int
  kr_title :: string
  kr_message :: string
  kr_choice :: string
  kr_flags :: int

record pinentry_request =
  pr_cookie :: string
  pr_socket :: socket
  pr_peerPid :: int
  pr_prompt :: string
  pr_description :: string
  pr_error :: string
  pr_keyinfo :: string
  pr_repeat :: bool
  pr_confirmOnly :: bool

record retry_info =
  ri_keyinfo :: string
  ri_curRetry :: int
  ri_maxRetries :: int

text \<open>The pinentry manager; an awaiting entry is a request whose 10 s timer runs.\<close>

record pinentry_manager =
  pm_pending :: "(string, pinentry_request) hash"
  pm_awaiting :: "(string, pinentry_request) hash"
  pm_retryInfo :: "(string, retry_info) hash"
  pm_flowOwners :: "(string, int) hash"
  pm_flowKeyinfos :: "(string, string) hash"
  pm_retryReported :: "string list"

text \<open>
  \<^verbatim>\<open>SessionState\<close> of the polkit listener.  Its session is a
  \<^verbatim>\<open>PolkitQt1::Agent::Session\<close>, a number here, 0 for null.  The two tables of the
  listener point to one \<^verbatim>\<open>SessionState\<close>, so the table by session holds its cookie.
\<close>

record pk_state =
  pk_inProgress :: bool
  pk_cancelled :: bool
  pk_gainedAuth :: bool
  pk_cookie :: string
  pk_message :: string
  pk_iconName :: string
  pk_actionId :: string
  pk_prompt :: string
  pk_errorText :: string
  pk_echoOn :: bool
  pk_requestSent :: bool
  pk_selectedUser :: string
  pk_session :: nat
  pk_retryCount :: int

record polkit_listener =
  pl_cookieToState :: "(string, pk_state) hash"
  pl_sessionToState :: "(nat, string) hash"
  pl_nextSession :: nat

text \<open>The calls the listener makes into polkit, in order.\<close>

datatype polkit_call =
    PkInitiate nat
  | PkResponse nat string
  | PkCancel nat
  | PkResultError string string
  | PkResultCompleted string

section \<open>State and environment\<close>

record agent =
  a_store :: session_store
  a_queue :: event_queue
  a_registry :: provider_registry
  a_subscribers :: "socket list"
  a_keyring :: "(string, keyring_request) hash"
  a_pinentry :: pinentry_manager
  a_listener :: polkit_listener
  a_launcher :: launcher
  a_lastFallbackLaunchMs :: int
  a_socketPath :: string
  a_searchDirs :: "string list"
  a_clockReads :: nat
  a_uuids :: nat
  a_sent :: "(socket \<times> jobject \<times> bool) list"
  a_started :: "candidate list"
  a_polkit :: "polkit_call list"
  a_fault :: bool

record env =
  e_connected :: "socket \<Rightarrow> bool"
  e_valid :: "socket \<Rightarrow> bool"
  e_open :: "socket \<Rightarrow> bool"
  e_peerPid :: "socket \<Rightarrow> int"
  e_clock :: "nat \<Rightarrow> int"
  e_uuid :: "nat \<Rightarrow> string"
  e_procReader :: "int \<Rightarrow> proc_info option"
  e_desktopIndex :: "desktop_info list"
  e_toUpper :: "char \<Rightarrow> char"
  e_uid :: int
  e_toLongLong :: int_parser
  e_lockFree :: bool
  e_cleanPath :: "string \<Rightarrow> string"
  e_listDir :: "string \<Rightarrow> directory option"
  e_fromJson :: "string \<Rightarrow> string + json"
  e_isAbsolutePath :: "string \<Rightarrow> bool"
  e_launch :: launch_env
  e_legacyOverride :: string
  e_legacyDefaultPath :: string
  e_bootstrapFile :: "string list option"
  e_conflictMode :: string
  e_cancelEmitsCompleted :: bool

definition FALLBACK_LAUNCH_COOLDOWN_MS :: int where
  "FALLBACK_LAUNCH_COOLDOWN_MS = 5000"

definition initAgent :: "string \<Rightarrow> string list \<Rightarrow> agent" where
  "initAgent socketPath dirs =
     \<lparr>a_store = [], a_queue = newQueue 256, a_registry = emptyRegistry, a_subscribers = [],
      a_keyring = [],
      a_pinentry = \<lparr>pm_pending = [], pm_awaiting = [], pm_retryInfo = [], pm_flowOwners = [],
                    pm_flowKeyinfos = [], pm_retryReported = []\<rparr>,
      a_listener = \<lparr>pl_cookieToState = [], pl_sessionToState = [], pl_nextSession = 1\<rparr>,
      a_launcher = [], a_lastFallbackLaunchMs = 0, a_socketPath = socketPath, a_searchDirs = dirs,
      a_clockReads = 0, a_uuids = 0, a_sent = [], a_started = [], a_polkit = [], a_fault = False\<rparr>"

section \<open>Clock, identifiers, sockets\<close>

definition readClock :: "env \<Rightarrow> agent \<Rightarrow> int \<times> agent" where
  "readClock env a = (e_clock env (a_clockReads a), a\<lparr>a_clockReads := Suc (a_clockReads a)\<rparr>)"

definition createUuid :: "env \<Rightarrow> agent \<Rightarrow> string \<times> agent" where
  "createUuid env a = (e_uuid env (a_uuids a), a\<lparr>a_uuids := Suc (a_uuids a)\<rparr>)"

text \<open>\<^verbatim>\<open>IpcServer::sendJson\<close>; the flag is \<^verbatim>\<open>secureWipe\<close>.\<close>

definition sendJson :: "env \<Rightarrow> socket \<Rightarrow> jobject \<Rightarrow> bool \<Rightarrow> agent \<Rightarrow> agent" where
  "sendJson env socket json secureWipe a =
     (if socket = nullptr \<or> \<not> e_connected env socket then a
      else a\<lparr>a_sent := a_sent a @ [(socket, json, secureWipe)]\<rparr>)"

definition sendAll :: "env \<Rightarrow> (socket \<times> jobject) list \<Rightarrow> agent \<Rightarrow> agent" where
  "sendAll env xs a = fold (\<lambda>(s, j). sendJson env s j False) xs a"

section \<open>Events and providers\<close>

definition emitSessionEvent :: "env \<Rightarrow> jobject \<Rightarrow> agent \<Rightarrow> agent" where
  "emitSessionEvent env event a =
     (let (sends, q) = route (e_valid env) event (a_subscribers a) (a_registry a) (a_queue a)
      in sendAll env sends (a\<lparr>a_queue := q\<rparr>))"

definition agentHasActive :: "agent \<Rightarrow> bool" where
  "agentHasActive a = hasActiveProvider (a_registry a)"

definition agentRecompute :: "env \<Rightarrow> agent \<Rightarrow> bool \<times> agent" where
  "agentRecompute env a =
     (let (now, a) = readClock env a;
          (changed, r) = recomputeActiveProvider now (e_connected env) (a_registry a)
      in (changed, a\<lparr>a_registry := r\<rparr>))"

definition providerStatus :: "provider_registry \<Rightarrow> jobject" where
  "providerStatus r =
     [(''type'', JStr ''ui.active''), (''active'', JBool (hasActiveProvider r))]
     @ (case activeProviderInfo r of None \<Rightarrow> []
        | Some p \<Rightarrow> [(''id'', JStr (p_id p)), (''name'', JStr (p_name p)), (''kind'', JStr (p_kind p)),
                     (''priority'', JInt (p_priority p))])"

definition emitProviderStatus :: "env \<Rightarrow> agent \<Rightarrow> agent" where
  "emitProviderStatus env a =
     (let status = providerStatus (a_registry a);
          provs = filter (\<lambda>s. s \<noteq> nullptr \<and> e_valid env s) (registrySockets (a_registry a));
          subs = filter (\<lambda>s. s \<noteq> nullptr \<and> e_valid env s \<and> s \<notin> set provs) (a_subscribers a)
      in sendAll env (map (\<lambda>s. (s, status)) (provs @ subs)) a)"

text \<open>The recurring \<^verbatim>\<open>if (recomputeActiveProvider()) emitProviderStatus();\<close>.\<close>

definition recomputeAndAnnounce :: "env \<Rightarrow> agent \<Rightarrow> agent" where
  "recomputeAndAnnounce env a =
     (let (changed, a) = agentRecompute env a in if changed then emitProviderStatus env a else a)"

definition ensureFallbackUiRunning :: "env \<Rightarrow> string \<Rightarrow> agent \<Rightarrow> agent" where
  "ensureFallbackUiRunning env reason a =
     (if agentHasActive a then a
      else if \<not> e_lockFree env then a
      else
        let (nowMs, a) = readClock env a in
        if nowMs - a_lastFallbackLaunchMs a < FALLBACK_LAUNCH_COOLDOWN_MS then a
        else
          let discovery = discover (e_cleanPath env) (e_listDir env)
                 (parseProviderManifest (e_fromJson env) (e_isAbsolutePath env)) (a_searchDirs a);
              (launchMs, a) = readClock env a;
              (launch, l, started) = tryLaunch (e_launch env) launchMs (d_manifests discovery)
                 (a_socketPath a) reason (agentHasActive a) (\<not> storeEmpty (a_store a))
                 (e_legacyOverride env) (e_legacyDefaultPath env) (a_launcher a);
              a = a\<lparr>a_launcher := l,
                    a_started := a_started a @ (case started of None \<Rightarrow> [] | Some c \<Rightarrow> [c])\<rparr>
          in if l_launched launch then a\<lparr>a_lastFallbackLaunchMs := nowMs\<rparr> else a)"

section \<open>Central session management\<close>

definition agentGetSession :: "string \<Rightarrow> agent \<Rightarrow> session option" where
  "agentGetSession i a = storeGet i (a_store a)"

definition agentCreateSession :: "env \<Rightarrow> string \<Rightarrow> source \<Rightarrow> sctx \<Rightarrow> agent \<Rightarrow> bool \<times> agent" where
  "agentCreateSession env i src ctx a =
     (let (createdEvent, st) = storeCreate i src ctx (a_store a) in
      case createdEvent of
        None \<Rightarrow> (False, a)
      | Some event \<Rightarrow>
          (let a = emitSessionEvent env event (a\<lparr>a_store := st\<rparr>);
               a = (if \<not> agentHasActive a then ensureFallbackUiRunning env ''session-created'' a else a)
           in (True, a)))"

text \<open>Store update followed by the event it produced: the shape of the update operations.\<close>

definition storeAndEmit ::
  "env \<Rightarrow> (session_store \<Rightarrow> jobject option \<times> session_store) \<Rightarrow> agent \<Rightarrow> agent" where
  "storeAndEmit env f a =
     (let (updated, st) = f (a_store a) in
      case updated of None \<Rightarrow> a | Some event \<Rightarrow> emitSessionEvent env event (a\<lparr>a_store := st\<rparr>))"

definition updateSessionPrompt :: "env \<Rightarrow> string \<Rightarrow> string \<Rightarrow> bool \<Rightarrow> bool \<Rightarrow> agent \<Rightarrow> agent" where
  "updateSessionPrompt env i prompt echo clearError =
     storeAndEmit env (storeUpdatePrompt i prompt echo clearError)"

definition updateSessionError :: "env \<Rightarrow> string \<Rightarrow> string \<Rightarrow> agent \<Rightarrow> agent" where
  "updateSessionError env i err = storeAndEmit env (storeUpdateError i err)"

definition updateSessionPinentryRetry :: "string \<Rightarrow> int \<Rightarrow> int \<Rightarrow> agent \<Rightarrow> agent" where
  "updateSessionPinentryRetry i cur mx a =
     a\<lparr>a_store := snd (storeUpdatePinentryRetry i cur mx (a_store a))\<rparr>"

definition recomputeIfIdle :: "env \<Rightarrow> agent \<Rightarrow> agent" where
  "recomputeIfIdle env a = (if storeEmpty (a_store a) then recomputeAndAnnounce env a else a)"

definition agentCloseSession :: "env \<Rightarrow> string \<Rightarrow> sresult \<Rightarrow> bool \<Rightarrow> agent \<Rightarrow> jobject \<times> agent" where
  "agentCloseSession env i r deferred a =
     (let (closed, st) = storeClose i r (a_store a) in
      case closed of
        None \<Rightarrow> ([], a)
      | Some event \<Rightarrow>
          (let a = recomputeIfIdle env (a\<lparr>a_store := st\<rparr>)
           in if \<not> deferred then ([], emitSessionEvent env event a) else (event, a)))"

text \<open>The callers pass the default \<^verbatim>\<open>deferred = false\<close> and drop the result.\<close>

abbreviation closeSession :: "env \<Rightarrow> string \<Rightarrow> sresult \<Rightarrow> agent \<Rightarrow> agent" where
  "closeSession env i r a \<equiv> snd (agentCloseSession env i r False a)"

section \<open>The callbacks of the polkit listener\<close>

definition onSessionRequest :: "env \<Rightarrow> string \<Rightarrow> string \<Rightarrow> bool \<Rightarrow> agent \<Rightarrow> agent" where
  "onSessionRequest env cookie prompt echo =
     storeAndEmit env (storeUpdatePrompt cookie prompt echo True)"

definition onSessionRetry :: "env \<Rightarrow> string \<Rightarrow> string \<Rightarrow> agent \<Rightarrow> agent" where
  "onSessionRetry env cookie err = storeAndEmit env (storeUpdateError cookie err)"

definition onSessionInfo :: "env \<Rightarrow> string \<Rightarrow> string \<Rightarrow> agent \<Rightarrow> agent" where
  "onSessionInfo env cookie info = storeAndEmit env (storeUpdateInfo cookie info)"

definition onSessionComplete :: "env \<Rightarrow> string \<Rightarrow> bool \<Rightarrow> agent \<Rightarrow> agent" where
  "onSessionComplete env cookie success a =
     (let (closed, st) = storeClose cookie (if success then Success else Cancelled) (a_store a) in
      case closed of
        None \<Rightarrow> a
      | Some event \<Rightarrow> recomputeIfIdle env (emitSessionEvent env event (a\<lparr>a_store := st\<rparr>)))"

text \<open>The requestor shown for a polkit request.\<close>

definition requestorOf :: "actor_info \<Rightarrow> int \<Rightarrow> requestor" where
  "requestorOf actor pid = \<lparr>rq_name = ac_displayName actor, rq_icon = ac_iconName actor,
     rq_fallbackLetter = ac_fallbackLetter actor, rq_fallbackKey = ac_fallbackKey actor, rq_pid = pid\<rparr>"

definition resolveSubject :: "env \<Rightarrow> proc_info \<Rightarrow> actor_info" where
  "resolveSubject env proc =
     resolveRequestorFromSubject (e_toUpper env) (e_desktopIndex env) (e_procReader env) proc (e_uid env)"

definition polkitRequestor :: "env \<Rightarrow> (string, string) hash \<Rightarrow> requestor" where
  "polkitRequestor env details =
     (let rq = (case extractSubjectPid (e_toLongLong env) details of
                  None \<Rightarrow> emptyRequestor
                | Some pid \<Rightarrow>
                    (case e_procReader env pid of
                       None \<Rightarrow> emptyRequestor
                     | Some proc \<Rightarrow> requestorOf (resolveSubject env proc) pid))
      in if rq_name rq = []
         then rq\<lparr>rq_name := ''Unknown'', rq_fallbackLetter := ''?'', rq_fallbackKey := ''unknown''\<rparr>
         else rq)"

definition onPolkitRequest ::
  "env \<Rightarrow> string \<Rightarrow> string \<Rightarrow> string \<Rightarrow> string \<Rightarrow> string \<Rightarrow> (string, string) hash \<Rightarrow> agent \<Rightarrow> bool \<times> agent" where
  "onPolkitRequest env cookie message iconName actionId user details a =
     agentCreateSession env cookie Polkit
       (emptyCtx\<lparr>cx_message := message, cx_actionId := actionId, cx_user := user,
                cx_requestor := polkitRequestor env details\<rparr>) a"

section \<open>Frames\<close>

text \<open>What each shared operation leaves alone; with these, a handler's effect on a component is
  read off its definition.\<close>

lemma sendJson_frame [simp, frame_simps]:
  "a_store (sendJson e s j w a) = a_store a" "a_queue (sendJson e s j w a) = a_queue a"
  "a_registry (sendJson e s j w a) = a_registry a" "a_subscribers (sendJson e s j w a) = a_subscribers a"
  "a_keyring (sendJson e s j w a) = a_keyring a" "a_pinentry (sendJson e s j w a) = a_pinentry a"
  "a_listener (sendJson e s j w a) = a_listener a" "a_launcher (sendJson e s j w a) = a_launcher a"
  "a_polkit (sendJson e s j w a) = a_polkit a" "a_fault (sendJson e s j w a) = a_fault a"
  "a_started (sendJson e s j w a) = a_started a"
  by (simp_all add: sendJson_def)

lemma sendAll_Nil [simp]: "sendAll e [] a = a"
  by (simp add: sendAll_def)

lemma sendAll_Cons [simp]: "sendAll e (x # xs) a = sendAll e xs (sendJson e (fst x) (snd x) False a)"
  by (simp add: sendAll_def case_prod_beta)

lemma sendAll_sent:
  "sendAll e xs a = a\<lparr>a_sent := a_sent a @ map (\<lambda>(s, j). (s, j, False))
      (filter (\<lambda>(s, j). s \<noteq> nullptr \<and> e_connected e s) xs)\<rparr>"
  by (induction xs arbitrary: a) (auto simp: sendJson_def)

lemma sendAll_frame [simp, frame_simps]:
  "a_store (sendAll e xs a) = a_store a" "a_queue (sendAll e xs a) = a_queue a"
  "a_registry (sendAll e xs a) = a_registry a" "a_subscribers (sendAll e xs a) = a_subscribers a"
  "a_keyring (sendAll e xs a) = a_keyring a" "a_pinentry (sendAll e xs a) = a_pinentry a"
  "a_listener (sendAll e xs a) = a_listener a" "a_launcher (sendAll e xs a) = a_launcher a"
  "a_polkit (sendAll e xs a) = a_polkit a" "a_fault (sendAll e xs a) = a_fault a"
  "a_started (sendAll e xs a) = a_started a"
  by (simp_all add: sendAll_sent)

lemma emit_frame [simp, frame_simps]:
  "a_store (emitSessionEvent e ev a) = a_store a" "a_registry (emitSessionEvent e ev a) = a_registry a"
  "a_subscribers (emitSessionEvent e ev a) = a_subscribers a" "a_keyring (emitSessionEvent e ev a) = a_keyring a"
  "a_pinentry (emitSessionEvent e ev a) = a_pinentry a" "a_listener (emitSessionEvent e ev a) = a_listener a"
  "a_launcher (emitSessionEvent e ev a) = a_launcher a" "a_polkit (emitSessionEvent e ev a) = a_polkit a"
  "a_fault (emitSessionEvent e ev a) = a_fault a" "a_started (emitSessionEvent e ev a) = a_started a"
  by (simp_all add: emitSessionEvent_def case_prod_beta)

lemma emit_queue:
  "a_queue (emitSessionEvent e ev a) = snd (route (e_valid e) ev (a_subscribers a) (a_registry a) (a_queue a))"
  by (simp add: emitSessionEvent_def case_prod_beta)

lemma readClock_frame [simp, frame_simps]:
  "a_store (snd (readClock e a)) = a_store a" "a_queue (snd (readClock e a)) = a_queue a"
  "a_registry (snd (readClock e a)) = a_registry a" "a_subscribers (snd (readClock e a)) = a_subscribers a"
  "a_keyring (snd (readClock e a)) = a_keyring a" "a_pinentry (snd (readClock e a)) = a_pinentry a"
  "a_listener (snd (readClock e a)) = a_listener a" "a_launcher (snd (readClock e a)) = a_launcher a"
  "a_polkit (snd (readClock e a)) = a_polkit a" "a_fault (snd (readClock e a)) = a_fault a"
  "a_sent (snd (readClock e a)) = a_sent a" "a_started (snd (readClock e a)) = a_started a"
  "a_socketPath (snd (readClock e a)) = a_socketPath a" "a_searchDirs (snd (readClock e a)) = a_searchDirs a"
  by (simp_all add: readClock_def)

lemma emitProviderStatus_frame [simp, frame_simps]:
  "a_store (emitProviderStatus e a) = a_store a" "a_queue (emitProviderStatus e a) = a_queue a"
  "a_registry (emitProviderStatus e a) = a_registry a" "a_subscribers (emitProviderStatus e a) = a_subscribers a"
  "a_keyring (emitProviderStatus e a) = a_keyring a" "a_pinentry (emitProviderStatus e a) = a_pinentry a"
  "a_listener (emitProviderStatus e a) = a_listener a" "a_launcher (emitProviderStatus e a) = a_launcher a"
  "a_polkit (emitProviderStatus e a) = a_polkit a" "a_fault (emitProviderStatus e a) = a_fault a"
  "a_started (emitProviderStatus e a) = a_started a"
  by (simp_all add: emitProviderStatus_def Let_def)

lemma agentRecompute_frame [simp, frame_simps]:
  "a_store (snd (agentRecompute e a)) = a_store a" "a_queue (snd (agentRecompute e a)) = a_queue a"
  "a_subscribers (snd (agentRecompute e a)) = a_subscribers a" "a_keyring (snd (agentRecompute e a)) = a_keyring a"
  "a_pinentry (snd (agentRecompute e a)) = a_pinentry a" "a_listener (snd (agentRecompute e a)) = a_listener a"
  "a_launcher (snd (agentRecompute e a)) = a_launcher a" "a_polkit (snd (agentRecompute e a)) = a_polkit a"
  "a_fault (snd (agentRecompute e a)) = a_fault a" "a_sent (snd (agentRecompute e a)) = a_sent a"
  "a_started (snd (agentRecompute e a)) = a_started a"
  by (simp_all add: agentRecompute_def readClock_def Let_def case_prod_beta)

lemma agentRecompute_registry:
  "a_registry (snd (agentRecompute e a)) =
     snd (recomputeActiveProvider (e_clock e (a_clockReads a)) (e_connected e) (a_registry a))"
  by (simp add: agentRecompute_def readClock_def Let_def case_prod_beta)

lemma announce_frame [simp, frame_simps]:
  "a_store (recomputeAndAnnounce e a) = a_store a" "a_queue (recomputeAndAnnounce e a) = a_queue a"
  "a_subscribers (recomputeAndAnnounce e a) = a_subscribers a" "a_keyring (recomputeAndAnnounce e a) = a_keyring a"
  "a_pinentry (recomputeAndAnnounce e a) = a_pinentry a" "a_listener (recomputeAndAnnounce e a) = a_listener a"
  "a_launcher (recomputeAndAnnounce e a) = a_launcher a" "a_polkit (recomputeAndAnnounce e a) = a_polkit a"
  "a_fault (recomputeAndAnnounce e a) = a_fault a" "a_started (recomputeAndAnnounce e a) = a_started a"
  "a_registry (recomputeAndAnnounce e a) = a_registry (snd (agentRecompute e a))"
  by (simp_all add: recomputeAndAnnounce_def Let_def case_prod_beta)

lemma recomputeIfIdle_frame [simp, frame_simps]:
  "a_store (recomputeIfIdle e a) = a_store a" "a_queue (recomputeIfIdle e a) = a_queue a"
  "a_subscribers (recomputeIfIdle e a) = a_subscribers a" "a_keyring (recomputeIfIdle e a) = a_keyring a"
  "a_pinentry (recomputeIfIdle e a) = a_pinentry a" "a_listener (recomputeIfIdle e a) = a_listener a"
  "a_launcher (recomputeIfIdle e a) = a_launcher a" "a_polkit (recomputeIfIdle e a) = a_polkit a"
  "a_fault (recomputeIfIdle e a) = a_fault a" "a_started (recomputeIfIdle e a) = a_started a"
  by (simp_all add: recomputeIfIdle_def)

lemma ensureFallback_frame [simp, frame_simps]:
  "a_store (ensureFallbackUiRunning e rs a) = a_store a" "a_queue (ensureFallbackUiRunning e rs a) = a_queue a"
  "a_registry (ensureFallbackUiRunning e rs a) = a_registry a"
  "a_subscribers (ensureFallbackUiRunning e rs a) = a_subscribers a"
  "a_keyring (ensureFallbackUiRunning e rs a) = a_keyring a"
  "a_pinentry (ensureFallbackUiRunning e rs a) = a_pinentry a"
  "a_listener (ensureFallbackUiRunning e rs a) = a_listener a"
  "a_polkit (ensureFallbackUiRunning e rs a) = a_polkit a" "a_fault (ensureFallbackUiRunning e rs a) = a_fault a"
  "a_sent (ensureFallbackUiRunning e rs a) = a_sent a"
  by (simp_all add: ensureFallbackUiRunning_def readClock_def Let_def case_prod_beta)

lemma storeAndEmit_frame [simp, frame_simps]:
  "a_registry (storeAndEmit e f a) = a_registry a" "a_subscribers (storeAndEmit e f a) = a_subscribers a"
  "a_keyring (storeAndEmit e f a) = a_keyring a" "a_pinentry (storeAndEmit e f a) = a_pinentry a"
  "a_listener (storeAndEmit e f a) = a_listener a" "a_launcher (storeAndEmit e f a) = a_launcher a"
  "a_polkit (storeAndEmit e f a) = a_polkit a" "a_fault (storeAndEmit e f a) = a_fault a"
  "a_started (storeAndEmit e f a) = a_started a"
  by (simp_all add: storeAndEmit_def case_prod_beta split: option.split)

lemma storeAndEmit_store:
  "(fst (f (a_store a)) = None \<Longrightarrow> snd (f (a_store a)) = a_store a) \<Longrightarrow>
   a_store (storeAndEmit e f a) = snd (f (a_store a))"
  by (auto simp: storeAndEmit_def case_prod_beta split: option.split)

lemmas update_ops_defs = updateSessionPrompt_def updateSessionError_def onSessionRequest_def
  onSessionRetry_def onSessionInfo_def

lemma create_frame [simp, frame_simps]:
  "a_registry (snd (agentCreateSession e i src c a)) = a_registry a"
  "a_subscribers (snd (agentCreateSession e i src c a)) = a_subscribers a"
  "a_keyring (snd (agentCreateSession e i src c a)) = a_keyring a"
  "a_pinentry (snd (agentCreateSession e i src c a)) = a_pinentry a"
  "a_listener (snd (agentCreateSession e i src c a)) = a_listener a"
  "a_polkit (snd (agentCreateSession e i src c a)) = a_polkit a"
  "a_fault (snd (agentCreateSession e i src c a)) = a_fault a"
  by (simp_all add: agentCreateSession_def Let_def case_prod_beta split: option.split)

lemma create_store:
  "a_store (snd (agentCreateSession e i src c a)) = snd (storeCreate i src c (a_store a))"
  "fst (agentCreateSession e i src c a) \<longleftrightarrow> hash_find (a_store a) i = None"
  by (auto simp: agentCreateSession_def Let_def storeCreate_def hash_has_def)

lemma close_frame [simp, frame_simps]:
  "a_subscribers (closeSession e i r a) = a_subscribers a" "a_keyring (closeSession e i r a) = a_keyring a"
  "a_pinentry (closeSession e i r a) = a_pinentry a" "a_listener (closeSession e i r a) = a_listener a"
  "a_launcher (closeSession e i r a) = a_launcher a" "a_polkit (closeSession e i r a) = a_polkit a"
  "a_fault (closeSession e i r a) = a_fault a" "a_started (closeSession e i r a) = a_started a"
  by (simp_all add: agentCloseSession_def Let_def case_prod_beta split: option.split)

lemma close_store: "a_store (closeSession e i r a) = snd (storeClose i r (a_store a))"
  by (auto simp: agentCloseSession_def Let_def storeClose_def split: option.split)

lemma complete_frame [simp, frame_simps]:
  "a_subscribers (onSessionComplete e i ok a) = a_subscribers a" "a_keyring (onSessionComplete e i ok a) = a_keyring a"
  "a_pinentry (onSessionComplete e i ok a) = a_pinentry a" "a_listener (onSessionComplete e i ok a) = a_listener a"
  "a_launcher (onSessionComplete e i ok a) = a_launcher a" "a_polkit (onSessionComplete e i ok a) = a_polkit a"
  "a_fault (onSessionComplete e i ok a) = a_fault a"
  by (simp_all add: onSessionComplete_def Let_def case_prod_beta split: option.split)

lemma complete_store:
  "a_store (onSessionComplete e i ok a) = snd (storeClose i (if ok then Success else Cancelled) (a_store a))"
  by (auto simp: onSessionComplete_def Let_def storeClose_def split: option.split)

lemma update_stores:
  "a_store (updateSessionPrompt e i p ec cl a) = snd (storeUpdatePrompt i p ec cl (a_store a))"
  "a_store (updateSessionError e i t a) = snd (storeUpdateError i t (a_store a))"
  "a_store (onSessionRequest e i p ec a) = snd (storeUpdatePrompt i p ec True (a_store a))"
  "a_store (onSessionRetry e i t a) = snd (storeUpdateError i t (a_store a))"
  "a_store (onSessionInfo e i t a) = snd (storeUpdateInfo i t (a_store a))"
  unfolding update_ops_defs
  by (rule storeAndEmit_store; simp add: storeUpdatePrompt_def storeUpdateError_def storeUpdateInfo_def Let_def
      split: option.splits)+

lemma retry_frame [simp, frame_simps]:
  "a_registry (updateSessionPinentryRetry i x y a) = a_registry a"
  "a_queue (updateSessionPinentryRetry i x y a) = a_queue a"
  "a_subscribers (updateSessionPinentryRetry i x y a) = a_subscribers a"
  "a_keyring (updateSessionPinentryRetry i x y a) = a_keyring a"
  "a_pinentry (updateSessionPinentryRetry i x y a) = a_pinentry a"
  "a_listener (updateSessionPinentryRetry i x y a) = a_listener a"
  "a_launcher (updateSessionPinentryRetry i x y a) = a_launcher a"
  "a_polkit (updateSessionPinentryRetry i x y a) = a_polkit a"
  "a_fault (updateSessionPinentryRetry i x y a) = a_fault a"
  by (simp_all add: updateSessionPinentryRetry_def)

section \<open>The core invariant\<close>

text \<open>Every table is well formed and the event queue is bounded.\<close>

definition core_ok :: "agent \<Rightarrow> bool" where
  "core_ok a \<longleftrightarrow> store_wf (a_store a) \<and> queue_ok (a_queue a) \<and> registry_ok (a_registry a)
     \<and> launcher_ok (a_launcher a)"

lemma core_ok_init: "core_ok (initAgent p d)"
  by (simp add: core_ok_def initAgent_def queue_ok_new)

lemma core_ok_send [wf_intros]:
  "core_ok a \<Longrightarrow> core_ok (sendJson e s j w a)" "core_ok a \<Longrightarrow> core_ok (sendAll e xs a)"
  "core_ok a \<Longrightarrow> core_ok (emitProviderStatus e a)"
  by (simp_all add: core_ok_def)

lemma core_ok_emit [wf_intros]: "core_ok a \<Longrightarrow> core_ok (emitSessionEvent e ev a)"
  by (simp add: core_ok_def emit_queue queue_ok_route)

lemma core_ok_recompute [wf_intros]:
  "core_ok a \<Longrightarrow> core_ok (snd (agentRecompute e a))"
  "core_ok a \<Longrightarrow> core_ok (recomputeAndAnnounce e a)"
  "core_ok a \<Longrightarrow> core_ok (recomputeIfIdle e a)"
  by (auto simp: core_ok_def agentRecompute_registry recomputeIfIdle_def
      intro: recompute_registry_ok registry_ok_wf)

lemma core_ok_ensure [wf_intros]: "core_ok a \<Longrightarrow> core_ok (ensureFallbackUiRunning e rs a)"
  by (simp add: core_ok_def ensureFallbackUiRunning_def readClock_def Let_def case_prod_beta
      launcher_ok_tryLaunch)

lemma core_ok_store: "core_ok a \<Longrightarrow> store_wf st \<Longrightarrow> core_ok (a\<lparr>a_store := st\<rparr>)"
  by (simp add: core_ok_def)

lemma core_ok_storeAndEmit:
  "core_ok a \<Longrightarrow> store_wf (snd (f (a_store a))) \<Longrightarrow> core_ok (storeAndEmit e f a)"
  by (auto simp: storeAndEmit_def case_prod_beta intro: core_ok_emit core_ok_store split: option.split)

lemma core_ok_sessions [wf_intros]:
  assumes "core_ok a"
  shows "core_ok (snd (agentCreateSession e i src c a))" and "core_ok (closeSession e i r a)"
    and "core_ok (onSessionComplete e i ok a)"
    and "core_ok (updateSessionPrompt e i p ec cl a)" and "core_ok (updateSessionError e i t a)"
    and "core_ok (onSessionRequest e i p ec a)" and "core_ok (onSessionRetry e i t a)"
    and "core_ok (onSessionInfo e i t a)" and "core_ok (updateSessionPinentryRetry i x y a)"
proof -
  note st = store_wf_ops [of "a_store a"]
  have w: "store_wf (a_store a)" using assms by (simp add: core_ok_def)
  show "core_ok (snd (agentCreateSession e i src c a))"
    using assms st(1) [OF w, of i src c]
    by (auto simp: agentCreateSession_def Let_def case_prod_beta split: option.split
        intro!: core_ok_ensure core_ok_emit core_ok_store)
  show "core_ok (closeSession e i r a)"
    using assms st(6) [OF w, of i r]
    by (auto simp: agentCloseSession_def Let_def case_prod_beta split: option.split
        intro!: core_ok_emit core_ok_recompute core_ok_store)
  show "core_ok (onSessionComplete e i ok a)"
    using assms st(6) [OF w, of i "if ok then Success else Cancelled"]
    by (auto simp: onSessionComplete_def Let_def case_prod_beta split: option.split
        intro!: core_ok_emit core_ok_recompute core_ok_store)
  show "core_ok (updateSessionPinentryRetry i x y a)"
    using assms st(5) [OF w] by (auto simp: updateSessionPinentryRetry_def intro!: core_ok_store)
  show "core_ok (updateSessionPrompt e i p ec cl a)" and "core_ok (onSessionRequest e i p ec a)"
    unfolding update_ops_defs by (intro core_ok_storeAndEmit assms st(2) w)+
  show "core_ok (updateSessionError e i t a)" and "core_ok (onSessionRetry e i t a)"
    unfolding update_ops_defs by (intro core_ok_storeAndEmit assms st(3) w)+
  show "core_ok (onSessionInfo e i t a)"
    unfolding update_ops_defs by (intro core_ok_storeAndEmit assms st(4) w)
qed

lemma core_ok_other [simp]:
  "core_ok (a\<lparr>a_keyring := k\<rparr>) = core_ok a" "core_ok (a\<lparr>a_pinentry := pm\<rparr>) = core_ok a"
  "core_ok (a\<lparr>a_listener := l\<rparr>) = core_ok a" "core_ok (a\<lparr>a_subscribers := ss\<rparr>) = core_ok a"
  "core_ok (a\<lparr>a_uuids := n\<rparr>) = core_ok a" "core_ok (a\<lparr>a_polkit := pc\<rparr>) = core_ok a"
  "core_ok (a\<lparr>a_fault := b\<rparr>) = core_ok a" "core_ok (a\<lparr>a_sent := sn\<rparr>) = core_ok a"
  "core_ok (a\<lparr>a_clockReads := n\<rparr>) = core_ok a"
  by (simp_all add: core_ok_def)

end
