(* ===== verification/Session_Services.thy ===== *)
theory Session_Services
  imports Agent_Core
begin

text \<open>
  The session services of the agent as its clients see them: the interface
  \<^verbatim>\<open>createSession\<close> / \<^verbatim>\<open>updateSession*\<close> / \<^verbatim>\<open>closeSession\<close> through which the
  keyring manager, the pinentry manager and the polkit listener reach the session store.  The
  view of a client is the source each live session id has.
\<close>

section \<open>The interface\<close>

locale session_services =
  fixes src :: "'a \<Rightarrow> string \<Rightarrow> source option"
    and create :: "string \<Rightarrow> source \<Rightarrow> sctx \<Rightarrow> 'a \<Rightarrow> bool \<times> 'a"
    and change :: "(session_store \<Rightarrow> jobject option \<times> session_store) \<Rightarrow> 'a \<Rightarrow> 'a"
    and close :: "string \<Rightarrow> sresult \<Rightarrow> 'a \<Rightarrow> 'a"
  assumes create_ok: "fst (create i s c a) \<longleftrightarrow> src a i = None"
    and create_src: "src (snd (create i s c a)) = (if src a i = None then (src a)(i \<mapsto> s) else src a)"
    and change_prompt: "src (change (storeUpdatePrompt i p ec cl) a) = src a"
    and change_error: "src (change (storeUpdateError i t) a) = src a"
    and change_info: "src (change (storeUpdateInfo i t) a) = src a"
    and close_src: "src (close i r a) = (src a)(i := None)"
begin

definition closeAll :: "sresult \<Rightarrow> string list \<Rightarrow> 'a \<Rightarrow> 'a" where
  "closeAll r cs = fold (\<lambda>c. close c r) cs"

lemma closeAll_src: "src (closeAll r cs a) = (\<lambda>i. if i \<in> set cs then None else src a i)"
  unfolding closeAll_def by (induction cs arbitrary: a) (auto simp: close_src)

lemma closeAll_other: "i \<notin> set cs \<Longrightarrow> src (closeAll r cs a) i = src a i"
  by (simp add: closeAll_src)

lemma create_other: "j \<noteq> i \<Longrightarrow> src (snd (create i s c a)) j = src a j"
  by (simp add: create_src)

lemma create_then_live: "src (snd (create i s c a)) i \<noteq> None"
  by (simp add: create_src)

lemma create_twice: "\<not> fst (create i s' c' (snd (create i s c a)))"
  using create_then_live by (simp add: create_ok)

lemma create_after_close: "fst (create i s c (close i r a))"
  by (simp add: create_ok close_src)

end

section \<open>The agent provides it\<close>

definition sessionSource :: "agent \<Rightarrow> string \<Rightarrow> source option" where
  "sessionSource a i = map_option s_source (storeGet i (a_store a))"

lemma sessionSource_store: "a_store b = a_store a \<Longrightarrow> sessionSource b = sessionSource a"
  by (simp add: sessionSource_def fun_eq_iff)

lemma sessionSource_get: "sessionSource a i = map_option s_source (agentGetSession i a)"
  by (simp add: sessionSource_def agentGetSession_def)

lemma storeUpdates_source:
  "map_option s_source (hash_find (snd (storeUpdatePrompt i p ec cl st)) j) = map_option s_source (hash_find st j)"
  "map_option s_source (hash_find (snd (storeUpdateError i t st)) j) = map_option s_source (hash_find st j)"
  "map_option s_source (hash_find (snd (storeUpdateInfo i t st)) j) = map_option s_source (hash_find st j)"
  "map_option s_source (hash_find (snd (storeUpdatePinentryRetry i x y st)) j) = map_option s_source (hash_find st j)"
  by (auto simp: storeUpdatePrompt_def storeUpdateError_def storeUpdateInfo_def
      storeUpdatePinentryRetry_def Let_def split: option.split)

interpretation services:
  session_services sessionSource "agentCreateSession env" "storeAndEmit env" "closeSession env" for env
proof unfold_locales
  fix i s c p ec cl t r and a :: agent
  show "fst (agentCreateSession env i s c a) \<longleftrightarrow> sessionSource a i = None"
    by (simp add: create_store sessionSource_def storeGet_def)
  show "sessionSource (snd (agentCreateSession env i s c a)) =
      (if sessionSource a i = None then (sessionSource a)(i \<mapsto> s) else sessionSource a)"
    by (auto simp: sessionSource_def storeGet_def create_store storeCreate_def hash_has_def Let_def fun_eq_iff)
  show "sessionSource (storeAndEmit env (storeUpdatePrompt i p ec cl) a) = sessionSource a"
    using update_stores(1) [of env i p ec cl a]
    by (simp add: updateSessionPrompt_def sessionSource_def storeGet_def storeUpdates_source fun_eq_iff)
  show "sessionSource (storeAndEmit env (storeUpdateError i t) a) = sessionSource a"
    using update_stores(2) [of env i t a]
    by (simp add: updateSessionError_def sessionSource_def storeGet_def storeUpdates_source fun_eq_iff)
  show "sessionSource (storeAndEmit env (storeUpdateInfo i t) a) = sessionSource a"
    using update_stores(5) [of env i t a]
    by (simp add: onSessionInfo_def sessionSource_def storeGet_def storeUpdates_source fun_eq_iff)
  show "sessionSource (closeSession env i r a) = (sessionSource a)(i := None)"
    by (auto simp: sessionSource_def storeGet_def close_store storeClose_def fun_eq_iff split: option.split)
qed

text \<open>The view through every operation of the agent, as rewrite rules for the managers.\<close>

lemmas create_view [simp] = services.create_ok services.create_src
lemmas close_view [simp] = services.close_src

lemma update_view [simp]:
  "sessionSource (updateSessionPrompt e i p ec cl a) = sessionSource a"
  "sessionSource (updateSessionError e i t a) = sessionSource a"
  "sessionSource (onSessionRequest e i p ec a) = sessionSource a"
  "sessionSource (onSessionRetry e i t a) = sessionSource a"
  "sessionSource (onSessionInfo e i t a) = sessionSource a"
  "sessionSource (updateSessionPinentryRetry i x y a) = sessionSource a"
  by (simp_all add: update_ops_defs onSessionInfo_def services.change_prompt services.change_error
      services.change_info updateSessionPinentryRetry_def sessionSource_def storeGet_def
      storeUpdates_source fun_eq_iff)

lemma complete_view [simp]:
  "sessionSource (onSessionComplete e i ok a) = (sessionSource a)(i := None)"
  by (auto simp: sessionSource_def storeGet_def complete_store storeClose_def fun_eq_iff split: option.split)

lemma frame_view [simp]:
  "sessionSource (sendJson e s j w a) = sessionSource a"
  "sessionSource (sendAll e xs a) = sessionSource a"
  "sessionSource (emitSessionEvent e ev a) = sessionSource a"
  "sessionSource (emitProviderStatus e a) = sessionSource a"
  "sessionSource (recomputeAndAnnounce e a) = sessionSource a"
  "sessionSource (recomputeIfIdle e a) = sessionSource a"
  "sessionSource (snd (agentRecompute e a)) = sessionSource a"
  "sessionSource (ensureFallbackUiRunning e rs a) = sessionSource a"
  by (rule sessionSource_store, simp)+

lemma field_view [simp]:
  "sessionSource (a\<lparr>a_keyring := k\<rparr>) = sessionSource a" "sessionSource (a\<lparr>a_pinentry := pm\<rparr>) = sessionSource a"
  "sessionSource (a\<lparr>a_listener := l\<rparr>) = sessionSource a" "sessionSource (a\<lparr>a_subscribers := ss\<rparr>) = sessionSource a"
  "sessionSource (a\<lparr>a_uuids := n\<rparr>) = sessionSource a" "sessionSource (a\<lparr>a_polkit := pc\<rparr>) = sessionSource a"
  "sessionSource (a\<lparr>a_fault := b\<rparr>) = sessionSource a" "sessionSource (a\<lparr>a_sent := sn\<rparr>) = sessionSource a"
  "sessionSource (a\<lparr>a_clockReads := n\<rparr>) = sessionSource a" "sessionSource (a\<lparr>a_queue := q\<rparr>) = sessionSource a"
  "sessionSource (a\<lparr>a_registry := rg\<rparr>) = sessionSource a"
  by (rule sessionSource_store, simp)+

section \<open>Shared pieces of the request managers\<close>

text \<open>\<^verbatim>\<open>readProc\<close> followed by \<^verbatim>\<open>resolveRequestorFromSubject\<close>, a default actor when the
  process is gone.\<close>

definition resolveActorForPid :: "env \<Rightarrow> int \<Rightarrow> actor_info" where
  "resolveActorForPid env peerPid =
     (case e_procReader env peerPid of None \<Rightarrow> emptyActor | Some proc \<Rightarrow> resolveSubject env proc)"

text \<open>\<^verbatim>\<open>cookie.isEmpty()\<close>: a fresh identifier.\<close>

definition cookieOrUuid :: "env \<Rightarrow> string \<Rightarrow> agent \<Rightarrow> string \<times> agent" where
  "cookieOrUuid env cookie a = (if cookie = [] then createUuid env a else (cookie, a))"

text \<open>The collision reply is written to the socket directly, not through \<^verbatim>\<open>sendJson\<close>.\<close>

definition collisionReply :: "env \<Rightarrow> socket \<Rightarrow> agent \<Rightarrow> agent" where
  "collisionReply env socket a =
     (if socket \<noteq> nullptr \<and> e_open env socket
      then a\<lparr>a_sent := a_sent a @ [(socket, errorMsg ''Session ID collision'', False)]\<rparr> else a)"

lemma cookieOrUuid_frame [simp]:
  "sessionSource (snd (cookieOrUuid e c a)) = sessionSource a"
  "a_store (snd (cookieOrUuid e c a)) = a_store a"
  "a_keyring (snd (cookieOrUuid e c a)) = a_keyring a" "a_pinentry (snd (cookieOrUuid e c a)) = a_pinentry a"
  "a_listener (snd (cookieOrUuid e c a)) = a_listener a" "a_fault (snd (cookieOrUuid e c a)) = a_fault a"
  "a_polkit (snd (cookieOrUuid e c a)) = a_polkit a" "a_registry (snd (cookieOrUuid e c a)) = a_registry a"
  "a_subscribers (snd (cookieOrUuid e c a)) = a_subscribers a" "a_sent (snd (cookieOrUuid e c a)) = a_sent a"
  "a_queue (snd (cookieOrUuid e c a)) = a_queue a"
  "core_ok (snd (cookieOrUuid e c a)) = core_ok a"
  by (simp_all add: cookieOrUuid_def createUuid_def)

lemma cookieOrUuid_given [simp]: "c \<noteq> [] \<Longrightarrow> cookieOrUuid e c a = (c, a)"
  by (simp add: cookieOrUuid_def)

lemma collisionReply_frame [simp]:
  "sessionSource (collisionReply e s a) = sessionSource a" "a_store (collisionReply e s a) = a_store a"
  "a_keyring (collisionReply e s a) = a_keyring a" "a_pinentry (collisionReply e s a) = a_pinentry a"
  "a_listener (collisionReply e s a) = a_listener a" "a_fault (collisionReply e s a) = a_fault a"
  "a_polkit (collisionReply e s a) = a_polkit a" "a_registry (collisionReply e s a) = a_registry a"
  "a_subscribers (collisionReply e s a) = a_subscribers a" "a_queue (collisionReply e s a) = a_queue a"
  "core_ok (collisionReply e s a) = core_ok a"
  by (simp_all add: collisionReply_def)

section \<open>A concrete environment for the examples\<close>

definition example_env :: env where
  "example_env = \<lparr>e_connected = (\<lambda>_. True), e_valid = (\<lambda>_. True), e_open = (\<lambda>_. True),
     e_peerPid = (\<lambda>s. 100 + int s), e_clock = (\<lambda>n. 10000 + int n), e_uuid = (\<lambda>n. ''uuid'' @ showNat n),
     e_procReader = (\<lambda>_. None), e_desktopIndex = [], e_toUpper = id, e_uid = 1000,
     e_toLongLong = (\<lambda>_. None), e_lockFree = False, e_cleanPath = id, e_listDir = (\<lambda>_. None),
     e_fromJson = (\<lambda>_. Inl ''bad''), e_isAbsolutePath = (\<lambda>_. False),
     e_launch = \<lparr>le_isExecutableFile = (\<lambda>_. False), le_findExecutable = (\<lambda>_. []), le_systemEnv = [],
                 le_startProcess = (\<lambda>_ _ _. False), le_jitter = 0\<rparr>,
     e_legacyOverride = [], e_legacyDefaultPath = [], e_bootstrapFile = None, e_conflictMode = [], e_cancelEmitsCompleted = True\<rparr>"

lemma init_view [simp]:
  "sessionSource (initAgent p d) c = None" "a_keyring (initAgent p d) = []" "a_store (initAgent p d) = []"
  "a_fault (initAgent p d) = False" "a_subscribers (initAgent p d) = []" "a_sent (initAgent p d) = []"
  by (simp_all add: sessionSource_def storeGet_def initAgent_def)

end
