(* ===== verification/Keyring_Manager.thy ===== *)
theory Keyring_Manager
  imports Session_Services
begin

text \<open>
  The keyring requests, \<^verbatim>\<open>src/core/managers/KeyringManager.cpp\<close>: one pending request per
  cookie, one session per pending request, and a reply to the requesting socket when the
  provider answers.
\<close>

section \<open>Operations\<close>

definition parseKeyringRequest :: "jobject \<Rightarrow> string \<Rightarrow> socket \<Rightarrow> int \<Rightarrow> keyring_request" where
  "parseKeyringRequest msg cookie socket peerPid =
     \<lparr>kr_cookie = cookie, kr_socket = socket, kr_peerPid = peerPid,
      kr_title = (if jcontains msg ''title'' then toStr (jvalue msg ''title'')
                  else toStr (jvalue msg ''prompt'')),
      kr_message = toStr (jvalue msg ''message''),
      kr_choice = toStr (jvalue msg ''choice''),
      kr_flags = toInt (jvalue msg ''flags'')\<rparr>"

definition keyringCtx :: "keyring_request \<Rightarrow> actor_info \<Rightarrow> int \<Rightarrow> sctx" where
  "keyringCtx request actor peerPid =
     emptyCtx\<lparr>cx_message := kr_title request, cx_keyringName := kr_message request,
              cx_requestor := requestorOf actor peerPid\<rparr>"

definition keyringHandleRequest :: "env \<Rightarrow> jobject \<Rightarrow> socket \<Rightarrow> int \<Rightarrow> agent \<Rightarrow> agent" where
  "keyringHandleRequest env msg socket peerPid a =
     (let (cookie, a) = cookieOrUuid env (toStr (jvalue msg ''cookie'')) a;
          request = parseKeyringRequest msg cookie socket peerPid;
          a = a\<lparr>a_keyring := hash_put cookie request (a_keyring a)\<rparr>;
          actor = resolveActorForPid env peerPid;
          (created, a) = agentCreateSession env cookie Keyring (keyringCtx request actor peerPid) a
      in if \<not> created
         then collisionReply env socket (a\<lparr>a_keyring := hash_del cookie (a_keyring a)\<rparr>)
         else updateSessionPrompt env cookie (kr_message request) False True a)"

definition keyringReplyOk :: "string \<Rightarrow> string \<Rightarrow> jobject" where
  "keyringReplyOk cookie response =
     [(''type'', JStr ''keyring_response''), (''id'', JStr cookie), (''result'', JStr ''ok''),
      (''password'', JStr response)]"

definition keyringReplyCancelled :: "string \<Rightarrow> jobject" where
  "keyringReplyCancelled cookie =
     [(''type'', JStr ''keyring_response''), (''result'', JStr ''cancelled''), (''id'', JStr cookie)]"

definition keyringHandleResponse :: "env \<Rightarrow> string \<Rightarrow> string \<Rightarrow> agent \<Rightarrow> jobject \<times> agent" where
  "keyringHandleResponse env cookie response a =
     (case hash_find (a_keyring a) cookie of
        None \<Rightarrow> (errorMsg ''Unknown cookie'', a)
      | Some _ \<Rightarrow> (keyringReplyOk cookie response,
                   closeSession env cookie Success (a\<lparr>a_keyring := hash_del cookie (a_keyring a)\<rparr>)))"

definition keyringHandleCancel :: "env \<Rightarrow> string \<Rightarrow> agent \<Rightarrow> jobject \<times> agent" where
  "keyringHandleCancel env cookie a =
     (case hash_find (a_keyring a) cookie of
        None \<Rightarrow> (errorMsg ''Unknown cookie'', a)
      | Some _ \<Rightarrow> (keyringReplyCancelled cookie,
                   closeSession env cookie Cancelled (a\<lparr>a_keyring := hash_del cookie (a_keyring a)\<rparr>)))"

definition keyringHasPending :: "string \<Rightarrow> agent \<Rightarrow> bool" where
  "keyringHasPending cookie a = hash_has (a_keyring a) cookie"

definition keyringSocket :: "string \<Rightarrow> agent \<Rightarrow> socket" where
  "keyringSocket cookie a =
     (case hash_find (a_keyring a) cookie of Some r \<Rightarrow> kr_socket r | None \<Rightarrow> nullptr)"

text \<open>The iterator loop: erasing an entry keeps the iterator on the next one.\<close>

fun keyringCleanupLoop :: "env \<Rightarrow> socket \<Rightarrow> (string \<times> keyring_request) list \<Rightarrow> agent \<Rightarrow> agent" where
  "keyringCleanupLoop env socket [] a = a"
| "keyringCleanupLoop env socket ((key, r) # rest) a =
     (if kr_socket r = socket
      then keyringCleanupLoop env socket rest
             (closeSession env (kr_cookie r) Cancelled (a\<lparr>a_keyring := hash_del key (a_keyring a)\<rparr>))
      else keyringCleanupLoop env socket rest a)"

definition keyringCleanupForSocket :: "env \<Rightarrow> socket \<Rightarrow> agent \<Rightarrow> agent" where
  "keyringCleanupForSocket env socket a = keyringCleanupLoop env socket (a_keyring a) a"

section \<open>Frames and effects\<close>

lemma kr_cookie_parse [simp]:
  "kr_cookie (parseKeyringRequest m c s p) = c" "kr_socket (parseKeyringRequest m c s p) = s"
  by (simp_all add: parseKeyringRequest_def)

definition requestCookie :: "env \<Rightarrow> jobject \<Rightarrow> agent \<Rightarrow> string" where
  "requestCookie env msg a = fst (cookieOrUuid env (toStr (jvalue msg ''cookie'')) a)"

lemma keyringRequest_frame [simp, frame_simps]:
  "a_pinentry (keyringHandleRequest e m s p a) = a_pinentry a"
  "a_listener (keyringHandleRequest e m s p a) = a_listener a"
  "a_registry (keyringHandleRequest e m s p a) = a_registry a"
  "a_subscribers (keyringHandleRequest e m s p a) = a_subscribers a"
  "a_fault (keyringHandleRequest e m s p a) = a_fault a" "a_polkit (keyringHandleRequest e m s p a) = a_polkit a"
  by (simp_all add: keyringHandleRequest_def Let_def case_prod_beta update_ops_defs storeAndEmit_frame)

lemma keyringRequest_effect:
  assumes "c = requestCookie e m a"
  shows "a_keyring (keyringHandleRequest e m s p a) =
      (if sessionSource a c = None then hash_put c (parseKeyringRequest m c s p) (a_keyring a)
       else hash_del c (hash_put c (parseKeyringRequest m c s p) (a_keyring a)))"
    and "sessionSource (keyringHandleRequest e m s p a) =
      (if sessionSource a c = None then (sessionSource a)(c \<mapsto> Keyring) else sessionSource a)"
  by (simp_all add: assms requestCookie_def keyringHandleRequest_def Let_def case_prod_beta
      update_ops_defs storeAndEmit_frame services.change_prompt)

lemma keyringResponse_frame [simp, frame_simps]:
  "a_pinentry (snd (keyringHandleResponse e c r a)) = a_pinentry a"
  "a_listener (snd (keyringHandleResponse e c r a)) = a_listener a"
  "a_subscribers (snd (keyringHandleResponse e c r a)) = a_subscribers a"
  "a_fault (snd (keyringHandleResponse e c r a)) = a_fault a"
  "a_polkit (snd (keyringHandleResponse e c r a)) = a_polkit a"
  "a_pinentry (snd (keyringHandleCancel e c a)) = a_pinentry a"
  "a_listener (snd (keyringHandleCancel e c a)) = a_listener a"
  "a_subscribers (snd (keyringHandleCancel e c a)) = a_subscribers a"
  "a_fault (snd (keyringHandleCancel e c a)) = a_fault a"
  "a_polkit (snd (keyringHandleCancel e c a)) = a_polkit a"
  by (simp_all add: keyringHandleResponse_def keyringHandleCancel_def split: option.split)

lemma keyringAnswer_effect:
  assumes "keyringHasPending c a"
  shows "fst (keyringHandleResponse e c r a) = keyringReplyOk c r"
    and "a_keyring (snd (keyringHandleResponse e c r a)) = hash_del c (a_keyring a)"
    and "sessionSource (snd (keyringHandleResponse e c r a)) = (sessionSource a)(c := None)"
    and "fst (keyringHandleCancel e c a) = keyringReplyCancelled c"
    and "a_keyring (snd (keyringHandleCancel e c a)) = hash_del c (a_keyring a)"
    and "sessionSource (snd (keyringHandleCancel e c a)) = (sessionSource a)(c := None)"
  using assms
  by (auto simp: keyringHasPending_def hash_has_def keyringHandleResponse_def keyringHandleCancel_def)

lemma keyringCleanupLoop_frame [simp]:
  "a_pinentry (keyringCleanupLoop e s xs a) = a_pinentry a"
  "a_listener (keyringCleanupLoop e s xs a) = a_listener a"
  "a_subscribers (keyringCleanupLoop e s xs a) = a_subscribers a"
  "a_fault (keyringCleanupLoop e s xs a) = a_fault a" "a_polkit (keyringCleanupLoop e s xs a) = a_polkit a"
  by (induction xs arbitrary: a) (auto split: if_splits)

lemma keyringCleanup_frame [simp, frame_simps]:
  "a_pinentry (keyringCleanupForSocket e s a) = a_pinentry a"
  "a_listener (keyringCleanupForSocket e s a) = a_listener a"
  "a_subscribers (keyringCleanupForSocket e s a) = a_subscribers a"
  "a_fault (keyringCleanupForSocket e s a) = a_fault a" "a_polkit (keyringCleanupForSocket e s a) = a_polkit a"
  by (simp_all add: keyringCleanupForSocket_def)

section \<open>Invariant\<close>

text \<open>Each pending request is stored under its own cookie and has a live keyring session.\<close>

definition keyring_ok :: "agent \<Rightarrow> bool" where
  "keyring_ok a \<longleftrightarrow> hash_wf (a_keyring a) \<and>
     (\<forall>c r. hash_find (a_keyring a) c = Some r \<longrightarrow> kr_cookie r = c \<and> sessionSource a c = Some Keyring)"

lemma keyring_ok_transfer:
  assumes "keyring_ok a" and "a_keyring b = a_keyring a"
    and "\<And>c. sessionSource a c = Some Keyring \<Longrightarrow> sessionSource b c = Some Keyring"
  shows "keyring_ok b"
  using assms by (simp add: keyring_ok_def)

lemma keyring_ok_request [wf_intros]:
  assumes "keyring_ok a" shows "keyring_ok (keyringHandleRequest e m s p a)"
proof -
  let ?c = "requestCookie e m a"
  note eff = keyringRequest_effect [of ?c e m a s p, OF refl]
  show ?thesis
  proof (cases "sessionSource a ?c")
    case None
    then show ?thesis using assms eff by (auto simp: keyring_ok_def)
  next
    case (Some src)
    then show ?thesis using assms eff by (auto simp: keyring_ok_def)
  qed
qed

lemma keyring_ok_remove:
  assumes "keyring_ok a" and "a_keyring b = hash_del c (a_keyring a)"
    and "sessionSource b = (sessionSource a)(c := None)"
  shows "keyring_ok b"
  using assms by (auto simp: keyring_ok_def)

lemma keyring_ok_answer [wf_intros]:
  assumes "keyring_ok a"
  shows "keyring_ok (snd (keyringHandleResponse e c r a))" and "keyring_ok (snd (keyringHandleCancel e c a))"
proof -
  have "keyring_ok (snd (keyringHandleResponse e c r a)) \<and> keyring_ok (snd (keyringHandleCancel e c a))"
  proof (cases "keyringHasPending c a")
    case True
    from keyringAnswer_effect [OF this] assms show ?thesis by (blast intro: keyring_ok_remove)
  next
    case False
    then show ?thesis using assms
      by (simp add: keyringHandleResponse_def keyringHandleCancel_def keyringHasPending_def hash_has_def)
  qed
  then show "keyring_ok (snd (keyringHandleResponse e c r a))" and "keyring_ok (snd (keyringHandleCancel e c a))"
    by simp_all
qed

text \<open>The clean-up loop over the entries of a well-formed table: it removes exactly those of the
  socket, with their sessions.\<close>

definition keyringDropped :: "socket \<Rightarrow> (string \<times> keyring_request) list \<Rightarrow> string list" where
  "keyringDropped s xs = map fst (filter (\<lambda>(c, r). kr_socket r = s) xs)"

lemma keyringDropped_Cons [simp]:
  "keyringDropped s ((c, r) # xs) = (if kr_socket r = s then c # keyringDropped s xs else keyringDropped s xs)"
  "keyringDropped s [] = []"
  by (simp_all add: keyringDropped_def)

lemma keyringCleanupLoop_effect:
  assumes "\<forall>(c, r) \<in> set xs. kr_cookie r = c"
  shows "sessionSource (keyringCleanupLoop e s xs a) =
      (\<lambda>i. if i \<in> set (keyringDropped s xs) then None else sessionSource a i)"
    and "a_keyring (keyringCleanupLoop e s xs a) = fold hash_del (keyringDropped s xs) (a_keyring a)"
  using assms by (induction xs arbitrary: a) (auto simp: fun_eq_iff split: if_splits)

lemma fold_hash_del_find:
  "hash_find (fold hash_del ks t) k = (if k \<in> set ks then None else hash_find t k)"
  by (induction ks arbitrary: t) auto

lemma fold_hash_del_wf: "hash_wf t \<Longrightarrow> hash_wf (fold hash_del ks t)"
  by (induction ks arbitrary: t) (auto intro: hash_wf_intros)

lemma keyring_ok_entries:
  assumes "keyring_ok a"
  shows "\<forall>(c, r) \<in> set (a_keyring a). kr_cookie r = c"
proof -
  have "hash_find (a_keyring a) c = Some r" if "(c, r) \<in> set (a_keyring a)" for c r
    using that assms by (auto simp: keyring_ok_def intro: hash_find_mem)
  then show ?thesis using assms by (fastforce simp: keyring_ok_def)
qed

lemma keyringDropped_iff:
  assumes "hash_wf t"
  shows "c \<in> set (keyringDropped s t) \<longleftrightarrow> (\<exists>r. hash_find t c = Some r \<and> kr_socket r = s)"
  using assms by (force simp: keyringDropped_def intro: hash_find_mem dest: map_of_SomeD)

lemma keyringCleanup_find:
  assumes "keyring_ok a"
  shows "hash_find (a_keyring (keyringCleanupForSocket e s a)) c =
      (case hash_find (a_keyring a) c of None \<Rightarrow> None
       | Some r \<Rightarrow> if kr_socket r = s then None else Some r)"
    and "sessionSource (keyringCleanupForSocket e s a) c =
      (case hash_find (a_keyring a) c of None \<Rightarrow> sessionSource a c
       | Some r \<Rightarrow> if kr_socket r = s then None else sessionSource a c)"
proof -
  have wf: "hash_wf (a_keyring a)" using assms by (simp add: keyring_ok_def)
  note eff = keyringCleanupLoop_effect [OF keyring_ok_entries [OF assms], of e s a]
  note d = keyringDropped_iff [OF wf, of c s]
  show "hash_find (a_keyring (keyringCleanupForSocket e s a)) c =
      (case hash_find (a_keyring a) c of None \<Rightarrow> None
       | Some r \<Rightarrow> if kr_socket r = s then None else Some r)"
    using d by (auto simp: keyringCleanupForSocket_def eff(2) fold_hash_del_find split: option.split)
  show "sessionSource (keyringCleanupForSocket e s a) c =
      (case hash_find (a_keyring a) c of None \<Rightarrow> sessionSource a c
       | Some r \<Rightarrow> if kr_socket r = s then None else sessionSource a c)"
    using d by (auto simp: keyringCleanupForSocket_def eff(1) split: option.split)
qed

lemma keyring_ok_cleanup [wf_intros]:
  assumes "keyring_ok a" shows "keyring_ok (keyringCleanupForSocket e s a)"
proof -
  have "hash_wf (a_keyring (keyringCleanupForSocket e s a))"
    using assms by (simp add: keyringCleanupForSocket_def keyringCleanupLoop_effect(2) [OF keyring_ok_entries]
        fold_hash_del_wf keyring_ok_def)
  then show ?thesis
    using assms keyringCleanup_find [OF assms, of e s]
    by (auto simp: keyring_ok_def split: option.splits if_splits)
qed

lemma core_ok_keyring [wf_intros]:
  assumes "core_ok a"
  shows "core_ok (keyringHandleRequest e m s p a)" and "core_ok (snd (keyringHandleResponse e c r a))"
    and "core_ok (snd (keyringHandleCancel e c a))" and "core_ok (keyringCleanupForSocket e s a)"
proof -
  show "core_ok (keyringHandleRequest e m s p a)"
    using assms by (simp add: keyringHandleRequest_def Let_def case_prod_beta core_ok_sessions)
  show "core_ok (snd (keyringHandleResponse e c r a))" and "core_ok (snd (keyringHandleCancel e c a))"
    using assms by (simp_all add: keyringHandleResponse_def keyringHandleCancel_def core_ok_sessions split: option.split)
  have "core_ok (keyringCleanupLoop e s xs a)" for xs
    using assms by (induction xs arbitrary: a) (auto simp: core_ok_sessions)
  then show "core_ok (keyringCleanupForSocket e s a)" by (simp add: keyringCleanupForSocket_def)
qed

section \<open>Properties\<close>

text \<open>A keyring request on a fresh cookie, answered by the provider, ends where it began: one
  reply with the password for the requester, no pending request and no session left over.\<close>

theorem keyring_request_response:
  assumes "c = toStr (jvalue msg ''cookie'')" and "c \<noteq> []" and "sessionSource a c = None"
    and "hash_find (a_keyring a) c = None"
  shows "fst (keyringHandleResponse env c pw (keyringHandleRequest env msg s pid a)) = keyringReplyOk c pw
    \<and> keyringSocket c (keyringHandleRequest env msg s pid a) = s
    \<and> hash_find (a_keyring (snd (keyringHandleResponse env c pw (keyringHandleRequest env msg s pid a))))
        = hash_find (a_keyring a)
    \<and> sessionSource (snd (keyringHandleResponse env c pw (keyringHandleRequest env msg s pid a)))
        = sessionSource a"
proof -
  let ?b = "keyringHandleRequest env msg s pid a"
  have c: "c = requestCookie env msg a" using assms(1,2) by (simp add: requestCookie_def)
  note eff = keyringRequest_effect [OF c, of s pid]
  have pend: "keyringHasPending c ?b" using assms(3) eff by (simp add: keyringHasPending_def)
  note ans = keyringAnswer_effect [OF pend]
  show ?thesis using assms(3,4) eff ans by (auto simp: keyringSocket_def fun_eq_iff)
qed

definition example_keyring_msg :: jobject where
  "example_keyring_msg = [(''type'', JStr ''keyring_request''), (''cookie'', JStr ''k1''),
     (''title'', JStr ''Unlock''), (''message'', JStr ''Login keyring'')]"

theorem keyring_request_response_witness:
  "fst (keyringHandleResponse example_env ''k1'' ''pw''
      (keyringHandleRequest example_env example_keyring_msg 7 107 (initAgent [] []))) = keyringReplyOk ''k1'' ''pw''"
  using keyring_request_response [of "''k1''" example_keyring_msg "initAgent [] []" example_env "''pw''" 7 107]
  by (simp add: example_keyring_msg_def)

text \<open>When a client disconnects, exactly its pending keyring requests and their sessions
  disappear; every request of another client and every other session stays.\<close>

theorem keyring_cleanup_exact:
  assumes "keyring_ok a"
  shows "hash_find (a_keyring (keyringCleanupForSocket env s a)) c =
      (case hash_find (a_keyring a) c of None \<Rightarrow> None
       | Some r \<Rightarrow> if kr_socket r = s then None else Some r)
    \<and> sessionSource (keyringCleanupForSocket env s a) c =
      (if keyringHasPending c a \<and> keyringSocket c a = s then None else sessionSource a c)"
  using keyringCleanup_find [OF assms, of env s c]
  by (auto simp: keyringHasPending_def keyringSocket_def hash_has_def split: option.splits)

theorem keyring_cleanup_exact_witness:
  "keyringHasPending ''k1'' (keyringHandleRequest example_env example_keyring_msg 7 107 (initAgent [] []))
   \<and> sessionSource (keyringCleanupForSocket example_env 7
        (keyringHandleRequest example_env example_keyring_msg 7 107 (initAgent [] []))) ''k1'' = None"
proof -
  let ?i = "initAgent [] []"
  let ?b = "keyringHandleRequest example_env example_keyring_msg 7 107 ?i"
  have c: "''k1'' = requestCookie example_env example_keyring_msg ?i"
    by (simp add: requestCookie_def example_keyring_msg_def)
  note eff = keyringRequest_effect [OF c, of 7 107]
  have ok: "keyring_ok ?b" by (rule keyring_ok_request) (simp add: keyring_ok_def)
  have p: "keyringHasPending ''k1'' ?b" "keyringSocket ''k1'' ?b = 7"
    using eff by (simp_all add: keyringHasPending_def keyringSocket_def)
  show ?thesis using keyring_cleanup_exact [OF ok, of example_env 7 "''k1''"] p by simp
qed



end
