(* ===== verification/Pinentry_Manager.thy ===== *)
theory Pinentry_Manager
  imports Keyring_Manager
begin

text \<open>
  The pinentry flows, \<^verbatim>\<open>src/core/managers/PinentryManager.cpp\<close>: a cookie names a flow that
  may prompt several times; each prompt is pending until the provider answers, then awaits the
  terminal result of the pinentry process, which a 10 s timer replaces by an error.
\<close>

section \<open>Retry counters\<close>

text \<open>The expression \<^verbatim>\<open>\((\d+)\s+of\s+(\d+)\s+attempts\)\<close>.  Its three character classes are
  disjoint, so each repetition takes all it can and no backtracking is needed at one position; the
  search takes the first position that matches.\<close>

definition isDigit :: "char \<Rightarrow> bool" where
  "isDigit c = (let n = of_char c :: nat in 48 \<le> n \<and> n \<le> 57)"

definition isBlank :: "char \<Rightarrow> bool" where
  "isBlank c = (let n = of_char c :: nat in n = 32 \<or> (9 \<le> n \<and> n \<le> 13))"

definition spanOf :: "(char \<Rightarrow> bool) \<Rightarrow> string \<Rightarrow> string \<times> string" where
  "spanOf P s = (takeWhile P s, dropWhile P s)"

definition retryMatchAt :: "string \<Rightarrow> (string \<times> string) option" where
  "retryMatchAt s =
     (if \<not> startsWith s ''('' then None
      else
        let (d1, r) = spanOf isDigit (drop 1 s);
            (s1, r) = spanOf isBlank r
        in if d1 = [] \<or> s1 = [] \<or> \<not> startsWith r ''of'' then None
           else
             let (s2, r) = spanOf isBlank (drop 2 r);
                 (d2, r) = spanOf isDigit r;
                 (s3, r) = spanOf isBlank r
             in if s2 = [] \<or> d2 = [] \<or> s3 = [] \<or> \<not> startsWith r ''attempts)'' then None
                else Some (d1, d2))"

fun retryMatch :: "string \<Rightarrow> (string \<times> string) option" where
  "retryMatch [] = None"
| "retryMatch (c # s) = (case retryMatchAt (c # s) of Some m \<Rightarrow> Some m | None \<Rightarrow> retryMatch s)"

text \<open>\<^verbatim>\<open>QString::toInt\<close> on digits: 0 when the number does not fit.\<close>

definition digitsToInt :: "string \<Rightarrow> int" where
  "digitsToInt s =
     (let n = foldl (\<lambda>n c. n * 10 + (int (of_char c) - 48)) 0 s in if n \<le> 2147483647 then n else 0)"

definition resolveRetryInfo :: "pinentry_request \<Rightarrow> pinentry_manager \<Rightarrow> (int \<times> int) \<times> pinentry_manager" where
  "resolveRetryInfo request pm =
     (let m = retryMatch (pr_description request);
          (curRetry, maxRetries, parsed) =
            (case m of None \<Rightarrow> (0, 3, False) | Some (x, y) \<Rightarrow> (digitsToInt x, digitsToInt y, True));
          (curRetry, maxRetries, pm) =
            (if pr_keyinfo request \<noteq> [] then
               let info = (case hash_find (pm_retryInfo pm) (pr_keyinfo request) of
                             Some i \<Rightarrow> i | None \<Rightarrow> \<lparr>ri_keyinfo = [], ri_curRetry = 0, ri_maxRetries = 0\<rparr>);
                   info = info\<lparr>ri_keyinfo := pr_keyinfo request\<rparr>;
                   info = (if parsed then info\<lparr>ri_curRetry := curRetry, ri_maxRetries := maxRetries\<rparr> else info);
                   pm = pm\<lparr>pm_retryInfo := hash_put (pr_keyinfo request) info (pm_retryInfo pm)\<rparr>
               in if parsed then (curRetry, maxRetries, pm)
                  else (ri_curRetry info, if ri_maxRetries info > 0 then ri_maxRetries info else 3, pm)
             else (curRetry, maxRetries, pm))
      in ((if curRetry < 0 then 0 else curRetry, if maxRetries \<le> 0 then 3 else maxRetries), pm))"

section \<open>Operations\<close>

definition parsePinentryRequest :: "jobject \<Rightarrow> socket \<Rightarrow> int \<Rightarrow> pinentry_request" where
  "parsePinentryRequest msg socket peerPid =
     (let prompt = toStr (jvalue msg ''prompt'') in
      \<lparr>pr_cookie = toStr (jvalue msg ''cookie''), pr_socket = socket, pr_peerPid = peerPid,
       pr_prompt = (if prompt = [] then ''Enter passphrase:'' else prompt),
       pr_description = toStr (jvalue msg ''description''),
       pr_error = toStr (jvalue msg ''error''),
       pr_keyinfo = toStr (jvalue msg ''keyinfo''),
       pr_repeat = toBool (jvalue msg ''repeat''),
       pr_confirmOnly = toBool (jvalue msg ''confirm_only'')\<rparr>)"

definition pmUpd :: "(pinentry_manager \<Rightarrow> pinentry_manager) \<Rightarrow> agent \<Rightarrow> agent" where
  "pmUpd f a = a\<lparr>a_pinentry := f (a_pinentry a)\<rparr>"

definition cleanupAwaiting :: "string \<Rightarrow> pinentry_manager \<Rightarrow> pinentry_manager" where
  "cleanupAwaiting cookie pm =
     (case hash_find (pm_awaiting pm) cookie of
        None \<Rightarrow> pm
      | Some _ \<Rightarrow> pm\<lparr>pm_awaiting := hash_del cookie (pm_awaiting pm)\<rparr>)"

text \<open>\<^verbatim>\<open>closeFlow\<close>: first the session, then the tables.\<close>

definition closeFlowSession :: "env \<Rightarrow> string \<Rightarrow> sresult \<Rightarrow> string \<Rightarrow> agent \<Rightarrow> agent" where
  "closeFlowSession env cookie r err a =
     (case agentGetSession cookie a of
        None \<Rightarrow> a
      | Some s \<Rightarrow> if s_source s = Pinentry
                 then closeSession env cookie r (if err \<noteq> [] then updateSessionError env cookie err a else a)
                 else a)"

definition closeFlowTables :: "string \<Rightarrow> pinentry_manager \<Rightarrow> pinentry_manager" where
  "closeFlowTables cookie pm =
     (let pm = pm\<lparr>pm_pending := hash_del cookie (pm_pending pm)\<rparr>;
          pm = cleanupAwaiting cookie pm;
          pm = pm\<lparr>pm_flowOwners := hash_del cookie (pm_flowOwners pm),
                  pm_retryReported := removeAllOf cookie (pm_retryReported pm)\<rparr>;
          keyinfo = (case hash_find (pm_flowKeyinfos pm) cookie of Some k \<Rightarrow> k | None \<Rightarrow> []);
          pm = pm\<lparr>pm_flowKeyinfos := hash_del cookie (pm_flowKeyinfos pm)\<rparr>
      in if keyinfo \<noteq> [] then pm\<lparr>pm_retryInfo := hash_del keyinfo (pm_retryInfo pm)\<rparr> else pm)"

definition closeFlow :: "env \<Rightarrow> string \<Rightarrow> sresult \<Rightarrow> string \<Rightarrow> agent \<Rightarrow> agent" where
  "closeFlow env cookie r err a = pmUpd (closeFlowTables cookie) (closeFlowSession env cookie r err a)"

definition pinentryCtx :: "pinentry_request \<Rightarrow> int \<Rightarrow> int \<Rightarrow> actor_info \<Rightarrow> int \<Rightarrow> sctx" where
  "pinentryCtx request curRetry maxRetries actor peerPid =
     emptyCtx\<lparr>cx_message := pr_prompt request, cx_description := pr_description request,
       cx_keyinfo := pr_keyinfo request, cx_curRetry := curRetry, cx_maxRetries := maxRetries,
       cx_confirmOnly := pr_confirmOnly request, cx_repeat := pr_repeat request,
       cx_requestor := requestorOf actor peerPid\<rparr>"

text \<open>The end of \<^verbatim>\<open>handleRequest\<close>: the prompt, and the error unless it was already reported.\<close>

definition pinentryShowPrompt :: "env \<Rightarrow> string \<Rightarrow> pinentry_request \<Rightarrow> agent \<Rightarrow> agent" where
  "pinentryShowPrompt env cookie request a =
     (let a = updateSessionPrompt env cookie (pr_prompt request) False False a;
          reported = cookie \<in> set (pm_retryReported (a_pinentry a));
          shouldEmit = (pr_error request \<noteq> [] \<and> \<not> reported);
          a = (if reported
               then pmUpd (\<lambda>pm. pm\<lparr>pm_retryReported := removeAllOf cookie (pm_retryReported pm)\<rparr>) a else a)
      in if shouldEmit then updateSessionError env cookie (pr_error request) a else a)"

text \<open>The whole handler; \<open>pinentryAdmit\<close> is its part up to the lookup of the retry counters.\<close>

definition pinentryAdmit :: "string \<Rightarrow> pinentry_request \<Rightarrow> int \<Rightarrow> agent \<Rightarrow> (int \<times> int) \<times> agent" where
  "pinentryAdmit cookie request peerPid a =
     (let a = pmUpd (\<lambda>pm. pm\<lparr>pm_flowOwners := hash_put cookie peerPid (pm_flowOwners pm)\<rparr>) a;
          a = (if pr_keyinfo request \<noteq> []
               then pmUpd (\<lambda>pm. pm\<lparr>pm_flowKeyinfos := hash_put cookie (pr_keyinfo request) (pm_flowKeyinfos pm)\<rparr>) a
               else a);
          (retry, pm) = resolveRetryInfo request (a_pinentry a)
      in (retry, a\<lparr>a_pinentry := pm\<rparr>))"

definition pinentryHandleRequest :: "env \<Rightarrow> jobject \<Rightarrow> socket \<Rightarrow> int \<Rightarrow> agent \<Rightarrow> agent" where
  "pinentryHandleRequest env msg socket peerPid a =
     (let request = parsePinentryRequest msg socket peerPid;
          (cookie, a) = cookieOrUuid env (pr_cookie request) a;
          request = request\<lparr>pr_cookie := cookie\<rparr>;
          owners = pm_flowOwners (a_pinentry a)
      in if hash_has owners cookie \<and> hash_find owners cookie \<noteq> Some peerPid then a
         else
           let ((curRetry, maxRetries), a) = pinentryAdmit cookie request peerPid a;
               sessionExists = (agentGetSession cookie a \<noteq> None);
               a = (if hash_has (pm_awaiting (a_pinentry a)) cookie
                    then updateSessionError env cookie
                           (if pr_error request = [] then ''Authentication failed'' else pr_error request)
                           (pmUpd (cleanupAwaiting cookie) a)
                    else a);
               a = pmUpd (\<lambda>pm. pm\<lparr>pm_pending := hash_put cookie request (pm_pending pm)\<rparr>) a
           in if \<not> sessionExists
              then let actor = resolveActorForPid env peerPid;
                       (created, a) = agentCreateSession env cookie Pinentry
                                        (pinentryCtx request curRetry maxRetries actor peerPid) a
                   in if \<not> created
                      then collisionReply env socket
                             (pmUpd (\<lambda>pm. pm\<lparr>pm_pending := hash_del cookie (pm_pending pm),
                                 pm_flowOwners := hash_del cookie (pm_flowOwners pm),
                                 pm_flowKeyinfos := (if pr_keyinfo request \<noteq> []
                                   then hash_del cookie (pm_flowKeyinfos pm) else pm_flowKeyinfos pm)\<rparr>) a)
                      else pinentryShowPrompt env cookie request a
              else pinentryShowPrompt env cookie request
                     (updateSessionPinentryRetry cookie curRetry maxRetries a))"

definition pinentryReply :: "pinentry_request \<Rightarrow> string \<Rightarrow> string \<Rightarrow> jobject" where
  "pinentryReply request cookie response =
     [(''type'', JStr ''pinentry_response''), (''id'', JStr cookie)]
     @ (if pr_confirmOnly request then [(''result'', JStr ''confirmed'')]
        else [(''result'', JStr ''ok''), (''password'', JStr response)])"

definition pinentryHandleResponse :: "env \<Rightarrow> string \<Rightarrow> string \<Rightarrow> agent \<Rightarrow> jobject \<times> agent" where
  "pinentryHandleResponse env cookie response a =
     (case hash_find (pm_pending (a_pinentry a)) cookie of
        None \<Rightarrow>
          (if hash_has (pm_awaiting (a_pinentry a)) cookie
           then (errorMsg ''Session is already awaiting terminal result'', a)
           else (errorMsg ''Unknown session'', a))
      | Some request \<Rightarrow>
          (let a = pmUpd (\<lambda>pm. pm\<lparr>pm_pending := hash_del cookie (pm_pending pm)\<rparr>) a;
               socketResponse = pinentryReply request cookie response;
               a = pmUpd (cleanupAwaiting cookie) a;
               a = pmUpd (\<lambda>pm. pm\<lparr>pm_awaiting := hash_put cookie request (pm_awaiting pm)\<rparr>) a
           in (socketResponse, a)))"

definition validateResultOwner :: "string \<Rightarrow> int \<Rightarrow> agent \<Rightarrow> bool" where
  "validateResultOwner cookie peerPid a =
     (case hash_find (pm_flowOwners (a_pinentry a)) cookie of None \<Rightarrow> True | Some owner \<Rightarrow> owner = peerPid)"

definition authFailedOr :: "string \<Rightarrow> string" where
  "authFailedOr err = (if err = [] then ''Authentication failed'' else err)"

definition pinentryHandleResult :: "env \<Rightarrow> jobject \<Rightarrow> int \<Rightarrow> agent \<Rightarrow> jobject \<times> agent" where
  "pinentryHandleResult env msg peerPid a =
     (let cookie = toStr (jvalue msg ''id'') in
      if cookie = [] then (errorMsg ''Missing id'', a)
      else if \<not> validateResultOwner cookie peerPid a
      then (errorMsg ''Result sender does not own session'', a)
      else if map_option s_source (agentGetSession cookie a) \<noteq> Some Pinentry
      then (errorMsg ''Unknown pinentry session'', a)
      else
        let result = toLower (toStr (jvalue msg ''result''));
            err = toStr (jvalue msg ''error'')
        in if result = ''success'' then (okMsg, closeFlow env cookie Success [] a)
           else if result = ''retry''
           then (okMsg,
                 updateSessionError env cookie (authFailedOr err)
                   (pmUpd (\<lambda>pm. pm\<lparr>pm_retryReported := List.insert cookie (pm_retryReported pm)\<rparr>)
                     (pmUpd (cleanupAwaiting cookie) a)))
           else if result = ''cancelled'' \<or> result = ''canceled''
           then (okMsg, closeFlow env cookie Cancelled [] a)
           else if result = ''error'' then (okMsg, closeFlow env cookie ResError (authFailedOr err) a)
           else (errorMsg ''Invalid result type'', a))"

definition pinentryCancelled :: "string \<Rightarrow> jobject" where
  "pinentryCancelled cookie =
     [(''type'', JStr ''pinentry_response''), (''id'', JStr cookie), (''result'', JStr ''cancelled'')]"

definition pinentryHandleCancel :: "env \<Rightarrow> string \<Rightarrow> agent \<Rightarrow> jobject \<times> agent" where
  "pinentryHandleCancel env cookie a =
     (if hash_has (pm_pending (a_pinentry a)) cookie
      then (pinentryCancelled cookie, closeFlow env cookie Cancelled [] a)
      else if hash_has (pm_awaiting (a_pinentry a)) cookie
      then (pinentryCancelled cookie, closeFlow env cookie Cancelled [] a)
      else if map_option s_source (agentGetSession cookie a) = Some Pinentry
      then (pinentryCancelled cookie, closeFlow env cookie Cancelled [] a)
      else (errorMsg ''Unknown session'', a))"

definition hasPendingInput :: "string \<Rightarrow> agent \<Rightarrow> bool" where
  "hasPendingInput cookie a = hash_has (pm_pending (a_pinentry a)) cookie"

definition pinentryHasRequest :: "string \<Rightarrow> agent \<Rightarrow> bool" where
  "pinentryHasRequest cookie a =
     (if hash_has (pm_pending (a_pinentry a)) cookie \<or> hash_has (pm_awaiting (a_pinentry a)) cookie then True
      else map_option s_source (agentGetSession cookie a) = Some Pinentry)"

definition isAwaitingOutcome :: "string \<Rightarrow> agent \<Rightarrow> bool" where
  "isAwaitingOutcome cookie a = hash_has (pm_awaiting (a_pinentry a)) cookie"

definition pinentrySocket :: "string \<Rightarrow> agent \<Rightarrow> socket" where
  "pinentrySocket cookie a =
     (case hash_find (pm_pending (a_pinentry a)) cookie of None \<Rightarrow> nullptr | Some r \<Rightarrow> pr_socket r)"

definition pinentryCleanupForSocket :: "env \<Rightarrow> socket \<Rightarrow> agent \<Rightarrow> agent" where
  "pinentryCleanupForSocket env socket a =
     (let cookiesToClose = map fst (filter (\<lambda>(c, r). pr_socket r = socket) (pm_pending (a_pinentry a)))
      in fold (\<lambda>c. closeFlow env c Cancelled ''Pinentry disconnected'') cookiesToClose a)"

text \<open>The timer of an awaiting flow: it fires only while the entry exists.\<close>

definition pinentryTimeout :: "env \<Rightarrow> string \<Rightarrow> agent \<Rightarrow> agent" where
  "pinentryTimeout env cookie a =
     (if isAwaitingOutcome cookie a
      then closeFlow env cookie ResError ''Pinentry did not report terminal result'' a else a)"

section \<open>Frames\<close>

lemma pmUpd_simps [simp]:
  "a_pinentry (pmUpd f a) = f (a_pinentry a)" "a_store (pmUpd f a) = a_store a"
  "a_keyring (pmUpd f a) = a_keyring a" "a_listener (pmUpd f a) = a_listener a"
  "a_registry (pmUpd f a) = a_registry a" "a_subscribers (pmUpd f a) = a_subscribers a"
  "a_fault (pmUpd f a) = a_fault a" "a_polkit (pmUpd f a) = a_polkit a" "a_sent (pmUpd f a) = a_sent a"
  "a_queue (pmUpd f a) = a_queue a"
  "sessionSource (pmUpd f a) = sessionSource a" "core_ok (pmUpd f a) = core_ok a"
  "agentGetSession c (pmUpd f a) = agentGetSession c a"
  by (simp_all add: pmUpd_def agentGetSession_def)

lemma cleanupAwaiting_eq: "cleanupAwaiting c pm = pm\<lparr>pm_awaiting := hash_del c (pm_awaiting pm)\<rparr>"
  by (simp add: cleanupAwaiting_def hash_del_absent hash_has_def split: option.split)

text \<open>What \<^verbatim>\<open>closeFlow\<close> does to the manager's tables.\<close>

definition dropFlow :: "string \<Rightarrow> pinentry_manager \<Rightarrow> pinentry_manager" where
  "dropFlow c pm =
     \<lparr>pm_pending = hash_del c (pm_pending pm), pm_awaiting = hash_del c (pm_awaiting pm),
      pm_retryInfo = (case hash_find (pm_flowKeyinfos pm) c of
         None \<Rightarrow> pm_retryInfo pm | Some k \<Rightarrow> if k = [] then pm_retryInfo pm else hash_del k (pm_retryInfo pm)),
      pm_flowOwners = hash_del c (pm_flowOwners pm), pm_flowKeyinfos = hash_del c (pm_flowKeyinfos pm),
      pm_retryReported = removeAllOf c (pm_retryReported pm)\<rparr>"

lemma closeFlowTables_eq: "closeFlowTables c pm = dropFlow c pm"
  by (cases "hash_find (pm_flowKeyinfos pm) c")
    (simp_all add: closeFlowTables_def dropFlow_def cleanupAwaiting_eq Let_def)

lemma closeFlowSession_effect [simp]:
  "sessionSource (closeFlowSession e c r err a) =
     (if sessionSource a c = Some Pinentry then (sessionSource a)(c := None) else sessionSource a)"
  "a_pinentry (closeFlowSession e c r err a) = a_pinentry a"
  "a_keyring (closeFlowSession e c r err a) = a_keyring a" "a_listener (closeFlowSession e c r err a) = a_listener a"
  "a_subscribers (closeFlowSession e c r err a) = a_subscribers a"
  "a_fault (closeFlowSession e c r err a) = a_fault a" "a_polkit (closeFlowSession e c r err a) = a_polkit a"
  "core_ok a \<Longrightarrow> core_ok (closeFlowSession e c r err a)"
proof -
  have fr: "a_pinentry (updateSessionError e c t b) = a_pinentry b" "a_keyring (updateSessionError e c t b) = a_keyring b"
    "a_listener (updateSessionError e c t b) = a_listener b" "a_fault (updateSessionError e c t b) = a_fault b"
    "a_subscribers (updateSessionError e c t b) = a_subscribers b"
    "a_polkit (updateSessionError e c t b) = a_polkit b" for t b
    by (simp_all add: updateSessionError_def)
  note d = closeFlowSession_def [of e c r err a]
  show "sessionSource (closeFlowSession e c r err a) =
     (if sessionSource a c = Some Pinentry then (sessionSource a)(c := None) else sessionSource a)"
    by (cases "agentGetSession c a") (simp_all add: d sessionSource_get)
  show "a_pinentry (closeFlowSession e c r err a) = a_pinentry a"
    "a_keyring (closeFlowSession e c r err a) = a_keyring a" "a_listener (closeFlowSession e c r err a) = a_listener a"
    "a_subscribers (closeFlowSession e c r err a) = a_subscribers a"
    "a_fault (closeFlowSession e c r err a) = a_fault a" "a_polkit (closeFlowSession e c r err a) = a_polkit a"
    by (cases "agentGetSession c a"; simp add: d fr)+
  show "core_ok a \<Longrightarrow> core_ok (closeFlowSession e c r err a)"
    by (cases "agentGetSession c a") (simp_all add: d core_ok_sessions)
qed

lemma closeFlow_effect:
  "a_pinentry (closeFlow e c r err a) = dropFlow c (a_pinentry a)"
  "sessionSource (closeFlow e c r err a) =
     (if sessionSource a c = Some Pinentry then (sessionSource a)(c := None) else sessionSource a)"
  by (simp_all add: closeFlow_def closeFlowTables_eq)

lemma closeFlow_frame [simp, frame_simps]:
  "a_keyring (closeFlow e c r err a) = a_keyring a" "a_listener (closeFlow e c r err a) = a_listener a"
  "a_subscribers (closeFlow e c r err a) = a_subscribers a" "a_fault (closeFlow e c r err a) = a_fault a"
  "a_polkit (closeFlow e c r err a) = a_polkit a"
  by (simp_all add: closeFlow_def)

lemma core_ok_closeFlow [wf_intros]: "core_ok a \<Longrightarrow> core_ok (closeFlow e c r err a)"
  by (simp add: closeFlow_def)

definition accepted :: "env \<Rightarrow> jobject \<Rightarrow> int \<Rightarrow> agent \<Rightarrow> bool" where
  "accepted e m p a \<longleftrightarrow>
     (case hash_find (pm_flowOwners (a_pinentry a)) (requestCookie e m a) of None \<Rightarrow> True | Some q \<Rightarrow> q = p)"

lemma pr_cookie_parse [simp]: "pr_cookie (parsePinentryRequest m s p) = toStr (jvalue m ''cookie'')"
  "pr_socket (parsePinentryRequest m s p) = s" "pr_peerPid (parsePinentryRequest m s p) = p"
  by (simp_all add: parsePinentryRequest_def Let_def)

lemma resolveRetryInfo_frame [simp]:
  "pm_pending (snd (resolveRetryInfo rq pm)) = pm_pending pm"
  "pm_awaiting (snd (resolveRetryInfo rq pm)) = pm_awaiting pm"
  "pm_flowOwners (snd (resolveRetryInfo rq pm)) = pm_flowOwners pm"
  "pm_flowKeyinfos (snd (resolveRetryInfo rq pm)) = pm_flowKeyinfos pm"
  "pm_retryReported (snd (resolveRetryInfo rq pm)) = pm_retryReported pm"
  by (simp_all add: resolveRetryInfo_def Let_def case_prod_beta)

lemma resolveRetryInfo_wf:
  "hash_wf (pm_retryInfo pm) \<Longrightarrow> hash_wf (pm_retryInfo (snd (resolveRetryInfo rq pm)))"
  by (auto simp: resolveRetryInfo_def Let_def case_prod_beta intro: hash_wf_intros)

lemma pinentryAdmit_frame [simp]:
  "a_store (snd (pinentryAdmit c rq p a)) = a_store a" "a_keyring (snd (pinentryAdmit c rq p a)) = a_keyring a"
  "a_listener (snd (pinentryAdmit c rq p a)) = a_listener a"
  "a_subscribers (snd (pinentryAdmit c rq p a)) = a_subscribers a"
  "a_fault (snd (pinentryAdmit c rq p a)) = a_fault a" "a_polkit (snd (pinentryAdmit c rq p a)) = a_polkit a"
  "sessionSource (snd (pinentryAdmit c rq p a)) = sessionSource a"
  "agentGetSession d (snd (pinentryAdmit c rq p a)) = agentGetSession d a"
  "core_ok (snd (pinentryAdmit c rq p a)) = core_ok a"
  "a_registry (snd (pinentryAdmit c rq p a)) = a_registry a"
  by (simp_all add: pinentryAdmit_def Let_def case_prod_beta agentGetSession_def)

lemma pinentryAdmit_pm:
  "pm_pending (a_pinentry (snd (pinentryAdmit c rq p a))) = pm_pending (a_pinentry a)"
  "pm_awaiting (a_pinentry (snd (pinentryAdmit c rq p a))) = pm_awaiting (a_pinentry a)"
  "pm_flowOwners (a_pinentry (snd (pinentryAdmit c rq p a))) = hash_put c p (pm_flowOwners (a_pinentry a))"
  "pm_flowKeyinfos (a_pinentry (snd (pinentryAdmit c rq p a))) =
     (if pr_keyinfo rq \<noteq> [] then hash_put c (pr_keyinfo rq) (pm_flowKeyinfos (a_pinentry a))
      else pm_flowKeyinfos (a_pinentry a))"
  "pm_retryReported (a_pinentry (snd (pinentryAdmit c rq p a))) = pm_retryReported (a_pinentry a)"
  "hash_wf (pm_retryInfo (a_pinentry a)) \<Longrightarrow>
     hash_wf (pm_retryInfo (a_pinentry (snd (pinentryAdmit c rq p a))))"
  by (simp_all add: pinentryAdmit_def Let_def case_prod_beta resolveRetryInfo_wf)

lemma showPrompt_frame [simp]:
  "a_keyring (pinentryShowPrompt e c rq a) = a_keyring a" "a_listener (pinentryShowPrompt e c rq a) = a_listener a"
  "a_subscribers (pinentryShowPrompt e c rq a) = a_subscribers a" "a_fault (pinentryShowPrompt e c rq a) = a_fault a"
  "a_polkit (pinentryShowPrompt e c rq a) = a_polkit a" "a_registry (pinentryShowPrompt e c rq a) = a_registry a"
  "sessionSource (pinentryShowPrompt e c rq a) = sessionSource a"
  "a_pinentry (pinentryShowPrompt e c rq a) =
     (a_pinentry a)\<lparr>pm_retryReported := removeAllOf c (pm_retryReported (a_pinentry a))\<rparr>"
  by (simp_all add: pinentryShowPrompt_def Let_def update_ops_defs
      services.change_prompt services.change_error)

lemma core_ok_showPrompt [wf_intros]: "core_ok a \<Longrightarrow> core_ok (pinentryShowPrompt e c rq a)"
  by (simp add: pinentryShowPrompt_def Let_def core_ok_sessions)

section \<open>Effects\<close>

lemma pinentryRequest_rejected:
  assumes "\<not> accepted e m p a"
  shows "pinentryHandleRequest e m s p a = snd (cookieOrUuid e (toStr (jvalue m ''cookie'')) a)"
proof -
  obtain q where "hash_find (pm_flowOwners (a_pinentry a)) (requestCookie e m a) = Some q" "q \<noteq> p"
    using assms by (auto simp: accepted_def split: option.splits)
  then show ?thesis
    by (simp add: pinentryHandleRequest_def Let_def case_prod_beta requestCookie_def hash_has_def)
qed

text \<open>An accepted request ends in the prompt, from a state reached without the collision branch:
  \<^verbatim>\<open>createSession\<close> cannot fail after the test of \<^verbatim>\<open>sessionExists\<close>.\<close>

lemma pinentryRequest_accepted:
  assumes "accepted e m p a" and "c = requestCookie e m a"
  obtains b where "pinentryHandleRequest e m s p a =
        pinentryShowPrompt e c ((parsePinentryRequest m s p)\<lparr>pr_cookie := c\<rparr>) b"
    and "a_pinentry b = (let pm = a_pinentry (snd (pinentryAdmit c ((parsePinentryRequest m s p)\<lparr>pr_cookie := c\<rparr>) p a))
         in pm\<lparr>pm_pending := hash_put c ((parsePinentryRequest m s p)\<lparr>pr_cookie := c\<rparr>) (pm_pending pm),
               pm_awaiting := hash_del c (pm_awaiting pm)\<rparr>)"
    and "sessionSource b = (if sessionSource a c = None then (sessionSource a)(c \<mapsto> Pinentry) else sessionSource a)"
    and "a_keyring b = a_keyring a" and "a_listener b = a_listener a" and "a_subscribers b = a_subscribers a"
    and "a_fault b = a_fault a" and "a_polkit b = a_polkit a" and "a_registry b = a_registry a"
    and "core_ok a \<Longrightarrow> core_ok b"
proof -
  let ?rq = "(parsePinentryRequest m s p)\<lparr>pr_cookie := c\<rparr>"
  define a0 where "a0 = snd (cookieOrUuid e (toStr (jvalue m ''cookie'')) a)"
  have split': "cookieOrUuid e (pr_cookie (parsePinentryRequest m s p)) a = (c, a0)"
    by (simp add: a0_def assms(2) requestCookie_def)
  have same: "sessionSource a0 = sessionSource a" "a_pinentry a0 = a_pinentry a" "a_keyring a0 = a_keyring a"
    "a_listener a0 = a_listener a" "a_subscribers a0 = a_subscribers a" "a_fault a0 = a_fault a"
    "a_polkit a0 = a_polkit a" "core_ok a0 = core_ok a" "a_store a0 = a_store a" "a_registry a0 = a_registry a"
    by (simp_all add: a0_def)
  define a1 where "a1 = snd (pinentryAdmit c ?rq p a0)"
  define x where "x = fst (pinentryAdmit c ?rq p a0)"
  have admit': "pinentryAdmit c ?rq p a0 = ((fst x, snd x), a1)" by (simp add: a1_def x_def)
  define a2 where "a2 = (if hash_has (pm_awaiting (a_pinentry a1)) c
     then updateSessionError e c (if pr_error ?rq = [] then ''Authentication failed'' else pr_error ?rq)
            (pmUpd (cleanupAwaiting c) a1) else a1)"
  define a3 where "a3 = pmUpd (\<lambda>pm. pm\<lparr>pm_pending := hash_put c ?rq (pm_pending pm)\<rparr>) a2"
  define b where "b = (if agentGetSession c a1 = None
     then snd (agentCreateSession e c Pinentry (pinentryCtx ?rq (fst x) (snd x) (resolveActorForPid e p) p) a3)
     else updateSessionPinentryRetry c (fst x) (snd x) a3)"
  have acc: "\<not> (hash_has (pm_flowOwners (a_pinentry a0)) c \<and> hash_find (pm_flowOwners (a_pinentry a0)) c \<noteq> Some p)"
    using assms by (auto simp: accepted_def hash_has_def same split: option.splits)
  have src1: "sessionSource a1 = sessionSource a" by (simp add: a1_def same)
  have pm2: "a_pinentry a2 = cleanupAwaiting c (a_pinentry a1)"
    by (auto simp: a2_def update_ops_defs cleanupAwaiting_eq hash_del_absent)
  have src3: "sessionSource a3 = sessionSource a" by (simp add: a3_def a2_def src1)
  have pm3: "a_pinentry a3 = (a_pinentry a1)\<lparr>pm_pending := hash_put c ?rq (pm_pending (a_pinentry a1)),
      pm_awaiting := hash_del c (pm_awaiting (a_pinentry a1))\<rparr>"
    by (simp add: a3_def pm2 cleanupAwaiting_eq)
  have fresh: "agentGetSession c a1 = None \<longleftrightarrow> sessionSource a c = None"
    using src1 by (metis sessionSource_get map_option_is_None)
  have created: "fst (agentCreateSession e c Pinentry ctx a3)" if "agentGetSession c a1 = None" for ctx
    using that fresh src3 by simp
  have eq: "pinentryHandleRequest e m s p a = pinentryShowPrompt e c ?rq b"
  proof (cases "agentGetSession c a1 = None")
    case True
    note cr = created [OF True, unfolded a3_def a2_def]
    show ?thesis
      by (simp only: pinentryHandleRequest_def split' admit' Let_def case_prod_beta fst_conv snd_conv
          acc if_False b_def a3_def a2_def True simp_thms if_True cr)
  next
    case False
    show ?thesis
      by (simp only: pinentryHandleRequest_def split' admit' Let_def case_prod_beta fst_conv snd_conv
          acc if_False b_def a3_def a2_def False simp_thms if_True)
  qed
  show thesis
  proof (rule that [OF eq])
    show "a_pinentry b = (let pm = a_pinentry (snd (pinentryAdmit c ?rq p a))
         in pm\<lparr>pm_pending := hash_put c ?rq (pm_pending pm), pm_awaiting := hash_del c (pm_awaiting pm)\<rparr>)"
      by (simp add: b_def pm3 Let_def) (simp add: a1_def pinentryAdmit_def same Let_def case_prod_beta)
    show "sessionSource b = (if sessionSource a c = None then (sessionSource a)(c \<mapsto> Pinentry) else sessionSource a)"
      using fresh by (simp add: b_def src3)
    show "a_keyring b = a_keyring a" "a_listener b = a_listener a" "a_subscribers b = a_subscribers a"
      "a_fault b = a_fault a" "a_polkit b = a_polkit a" "a_registry b = a_registry a"
      by (simp_all add: b_def a3_def a2_def a1_def same update_ops_defs)
    show "core_ok b" if "core_ok a"
      using that by (simp add: b_def a3_def a2_def a1_def same core_ok_sessions)
  qed
qed

lemma pinentryRequest_effect:
  assumes "accepted e m p a" and "c = requestCookie e m a" and "b = pinentryHandleRequest e m s p a"
  shows "sessionSource b = (if sessionSource a c = None then (sessionSource a)(c \<mapsto> Pinentry) else sessionSource a)"
    and "pm_pending (a_pinentry b) =
      hash_put c ((parsePinentryRequest m s p)\<lparr>pr_cookie := c\<rparr>) (pm_pending (a_pinentry a))"
    and "pm_awaiting (a_pinentry b) = hash_del c (pm_awaiting (a_pinentry a))"
    and "pm_flowOwners (a_pinentry b) = hash_put c p (pm_flowOwners (a_pinentry a))"
    and "pm_flowKeyinfos (a_pinentry b) =
      (if pr_keyinfo (parsePinentryRequest m s p) \<noteq> []
       then hash_put c (pr_keyinfo (parsePinentryRequest m s p)) (pm_flowKeyinfos (a_pinentry a))
       else pm_flowKeyinfos (a_pinentry a))"
    and "pm_retryReported (a_pinentry b) = removeAllOf c (pm_retryReported (a_pinentry a))"
    and "hash_wf (pm_retryInfo (a_pinentry a)) \<Longrightarrow> hash_wf (pm_retryInfo (a_pinentry b))"
  by (rule pinentryRequest_accepted [OF assms(1,2), of s];
      simp add: assms(3) Let_def pinentryAdmit_pm)+

lemma pinentryRequest_frame [simp, frame_simps]:
  "a_keyring (pinentryHandleRequest e m s p a) = a_keyring a"
  "a_listener (pinentryHandleRequest e m s p a) = a_listener a"
  "a_subscribers (pinentryHandleRequest e m s p a) = a_subscribers a"
  "a_fault (pinentryHandleRequest e m s p a) = a_fault a"
  "a_polkit (pinentryHandleRequest e m s p a) = a_polkit a"
  "a_registry (pinentryHandleRequest e m s p a) = a_registry a"
  by (cases "accepted e m p a"; (simp add: pinentryRequest_rejected)?;
      rule pinentryRequest_accepted [OF _ refl, of e m p a s]; simp)+

lemma core_ok_pinentryRequest [wf_intros]:
  "core_ok a \<Longrightarrow> core_ok (pinentryHandleRequest e m s p a)"
  by (cases "accepted e m p a"; (simp add: pinentryRequest_rejected)?;
      rule pinentryRequest_accepted [OF _ refl, of e m p a s]; simp add: core_ok_showPrompt)

section \<open>Invariant\<close>

text \<open>
  A flow is known to exactly the tables it should be in: it has an owner iff it is pending,
  awaiting its result or has a pinentry session; pending and awaiting exclude each other; the
  process whose request is pending is the owner; key info and retry marks belong to live flows.
\<close>

definition flows_ok :: "(string \<Rightarrow> source option) \<Rightarrow> pinentry_manager \<Rightarrow> bool" where
  "flows_ok src pm \<longleftrightarrow>
     hash_wf (pm_pending pm) \<and> hash_wf (pm_awaiting pm) \<and> hash_wf (pm_flowOwners pm)
     \<and> hash_wf (pm_flowKeyinfos pm) \<and> hash_wf (pm_retryInfo pm)
     \<and> (\<forall>c r. hash_find (pm_pending pm) c = Some r \<longrightarrow>
          pr_cookie r = c \<and> hash_find (pm_flowOwners pm) c = Some (pr_peerPid r)
          \<and> hash_find (pm_awaiting pm) c = None)
     \<and> (\<forall>c r. hash_find (pm_awaiting pm) c = Some r \<longrightarrow>
          pr_cookie r = c \<and> hash_find (pm_flowOwners pm) c = Some (pr_peerPid r))
     \<and> (\<forall>c. hash_has (pm_flowOwners pm) c \<longleftrightarrow>
          hash_has (pm_pending pm) c \<or> hash_has (pm_awaiting pm) c \<or> src c = Some Pinentry)
     \<and> (\<forall>c. hash_has (pm_flowKeyinfos pm) c \<longrightarrow> hash_has (pm_flowOwners pm) c)
     \<and> (\<forall>c \<in> set (pm_retryReported pm). hash_has (pm_flowOwners pm) c)"

abbreviation pinentry_ok :: "agent \<Rightarrow> bool" where
  "pinentry_ok a \<equiv> flows_ok (sessionSource a) (a_pinentry a)"

lemma flows_ok_transfer:
  assumes "flows_ok src pm" and "\<And>c. src' c = Some Pinentry \<longleftrightarrow> src c = Some Pinentry"
  shows "flows_ok src' pm"
  using assms(1) unfolding flows_ok_def assms(2) .

lemma flows_ok_drop:
  assumes "flows_ok src pm"
  shows "flows_ok (if src c = Some Pinentry then src(c := None) else src) (dropFlow c pm)"
  using assms
  by (auto simp: flows_ok_def dropFlow_def hash_has_def intro: hash_wf_intros split: option.splits)

lemma flows_ok_retried:
  assumes "flows_ok src pm" and "src c = Some Pinentry"
  shows "flows_ok src ((cleanupAwaiting c pm)\<lparr>pm_retryReported := List.insert c (pm_retryReported pm)\<rparr>)"
  using assms by (auto simp: flows_ok_def cleanupAwaiting_eq hash_has_def intro: hash_wf_intros)

lemma flows_ok_answered:
  assumes "flows_ok src pm" and "hash_find (pm_pending pm) c = Some r"
  shows "flows_ok src (pm\<lparr>pm_pending := hash_del c (pm_pending pm),
     pm_awaiting := hash_put c r (hash_del c (pm_awaiting pm))\<rparr>)"
  using assms by (auto simp: flows_ok_def hash_has_def intro: hash_wf_intros)

lemma flows_ok_requested:
  assumes ok: "flows_ok src pm" and acc: "hash_find (pm_flowOwners pm) c = None \<or> hash_find (pm_flowOwners pm) c = Some p"
    and src': "src' = (if src c = None then src(c \<mapsto> Pinentry) else src)"
    and pend: "pm_pending pm' = hash_put c rq (pm_pending pm)" and rq: "pr_cookie rq = c" "pr_peerPid rq = p"
    and aw: "pm_awaiting pm' = hash_del c (pm_awaiting pm)"
    and ow: "pm_flowOwners pm' = hash_put c p (pm_flowOwners pm)"
    and ki: "pm_flowKeyinfos pm' = (if b then hash_put c k (pm_flowKeyinfos pm) else pm_flowKeyinfos pm)"
    and rr: "pm_retryReported pm' = removeAllOf c (pm_retryReported pm)" and ri: "hash_wf (pm_retryInfo pm')"
  shows "flows_ok src' pm'"
proof -
  have wf: "hash_wf (pm_pending pm')" "hash_wf (pm_awaiting pm')" "hash_wf (pm_flowOwners pm')"
    "hash_wf (pm_flowKeyinfos pm')"
    using ok by (auto simp: flows_ok_def pend aw ow ki intro: hash_wf_intros)
  have "\<forall>d r. hash_find (pm_pending pm') d = Some r \<longrightarrow>
      pr_cookie r = d \<and> hash_find (pm_flowOwners pm') d = Some (pr_peerPid r) \<and> hash_find (pm_awaiting pm') d = None"
    using ok rq by (auto simp: flows_ok_def pend aw ow)
  moreover have "\<forall>d r. hash_find (pm_awaiting pm') d = Some r \<longrightarrow>
      pr_cookie r = d \<and> hash_find (pm_flowOwners pm') d = Some (pr_peerPid r)"
    using ok by (auto simp: flows_ok_def aw ow)
  moreover have "\<forall>d. hash_has (pm_flowOwners pm') d \<longleftrightarrow>
      hash_has (pm_pending pm') d \<or> hash_has (pm_awaiting pm') d \<or> src' d = Some Pinentry"
    using ok by (auto simp: flows_ok_def pend aw ow src')
  moreover have "\<forall>d. hash_has (pm_flowKeyinfos pm') d \<longrightarrow> hash_has (pm_flowOwners pm') d"
    using ok by (auto simp: flows_ok_def ki ow)
  moreover have "\<forall>d \<in> set (pm_retryReported pm'). hash_has (pm_flowOwners pm') d"
    using ok by (auto simp: flows_ok_def rr ow)
  ultimately show ?thesis using wf ri by (simp add: flows_ok_def)
qed

lemma pinentry_ok_request [wf_intros]:
  assumes "pinentry_ok a" shows "pinentry_ok (pinentryHandleRequest e m s p a)"
proof (cases "accepted e m p a")
  case True
  let ?c = "requestCookie e m a"
  note eff = pinentryRequest_effect [OF True refl refl, of s]
  have acc: "hash_find (pm_flowOwners (a_pinentry a)) ?c = None \<or> hash_find (pm_flowOwners (a_pinentry a)) ?c = Some p"
    using True by (auto simp: accepted_def split: option.splits)
  have "hash_wf (pm_retryInfo (a_pinentry (pinentryHandleRequest e m s p a)))"
    using assms eff(7) by (simp add: flows_ok_def)
  from flows_ok_requested [OF assms acc eff(1,2) _ _ eff(3,4,5,6) this] show ?thesis by simp
qed (use assms in \<open>simp add: pinentryRequest_rejected\<close>)

lemma pinentry_ok_closeFlow [wf_intros]:
  "pinentry_ok a \<Longrightarrow> pinentry_ok (closeFlow e c r err a)"
  using flows_ok_drop [of "sessionSource a" "a_pinentry a" c] by (simp add: closeFlow_effect)

lemma pinentry_ok_response [wf_intros]:
  "pinentry_ok a \<Longrightarrow> pinentry_ok (snd (pinentryHandleResponse e c r a))"
  by (auto simp: pinentryHandleResponse_def Let_def cleanupAwaiting_eq flows_ok_answered split: option.split)

lemma pinentry_ok_result [wf_intros]:
  assumes "pinentry_ok a" shows "pinentry_ok (snd (pinentryHandleResult e m p a))"
proof -
  let ?c = "toStr (jvalue m ''id'')"
  have "pinentry_ok (updateSessionError e ?c t
      (pmUpd (\<lambda>pm. pm\<lparr>pm_retryReported := List.insert ?c (pm_retryReported pm)\<rparr>) (pmUpd (cleanupAwaiting ?c) a)))"
    if "sessionSource a ?c = Some Pinentry" for t
    using flows_ok_retried [OF assms that]
    by (simp add: update_ops_defs services.change_error cleanupAwaiting_eq)
  then show ?thesis using assms
    by (simp add: pinentryHandleResult_def Let_def sessionSource_get [symmetric] pinentry_ok_closeFlow)
qed

lemma pinentry_ok_cancel [wf_intros]:
  "pinentry_ok a \<Longrightarrow> pinentry_ok (snd (pinentryHandleCancel e c a))"
  by (simp add: pinentryHandleCancel_def pinentry_ok_closeFlow)

lemma pinentry_ok_timeout [wf_intros]: "pinentry_ok a \<Longrightarrow> pinentry_ok (pinentryTimeout e c a)"
  by (simp add: pinentryTimeout_def pinentry_ok_closeFlow)

lemma fold_closeFlow:
  assumes "\<And>a c. Q a \<Longrightarrow> Q (closeFlow e c r err a)" and "Q a"
  shows "Q (fold (\<lambda>c. closeFlow e c r err) cs a)"
  using assms(2) by (induction cs arbitrary: a) (auto intro: assms(1))

lemma pinentry_ok_cleanup [wf_intros]: "pinentry_ok a \<Longrightarrow> pinentry_ok (pinentryCleanupForSocket e s a)"
  unfolding pinentryCleanupForSocket_def Let_def
  by (rule fold_closeFlow [where Q = pinentry_ok]) (auto intro: pinentry_ok_closeFlow)

lemma pinentry_frames [simp, frame_simps]:
  "a_keyring (snd (pinentryHandleResponse e c rs a)) = a_keyring a"
  "a_listener (snd (pinentryHandleResponse e c rs a)) = a_listener a"
  "a_subscribers (snd (pinentryHandleResponse e c rs a)) = a_subscribers a"
  "a_fault (snd (pinentryHandleResponse e c rs a)) = a_fault a"
  "a_polkit (snd (pinentryHandleResponse e c rs a)) = a_polkit a"
  "sessionSource (snd (pinentryHandleResponse e c rs a)) = sessionSource a"
  "a_keyring (snd (pinentryHandleResult e m p a)) = a_keyring a"
  "a_listener (snd (pinentryHandleResult e m p a)) = a_listener a"
  "a_subscribers (snd (pinentryHandleResult e m p a)) = a_subscribers a"
  "a_fault (snd (pinentryHandleResult e m p a)) = a_fault a"
  "a_polkit (snd (pinentryHandleResult e m p a)) = a_polkit a"
  "a_keyring (snd (pinentryHandleCancel e c a)) = a_keyring a"
  "a_listener (snd (pinentryHandleCancel e c a)) = a_listener a"
  "a_subscribers (snd (pinentryHandleCancel e c a)) = a_subscribers a"
  "a_fault (snd (pinentryHandleCancel e c a)) = a_fault a"
  "a_polkit (snd (pinentryHandleCancel e c a)) = a_polkit a"
  by (simp_all add: pinentryHandleResponse_def pinentryHandleResult_def pinentryHandleCancel_def Let_def
      update_ops_defs split: option.split)

lemma pinentryCleanup_frames [simp, frame_simps]:
  "a_keyring (pinentryCleanupForSocket e s a) = a_keyring a"
  "a_listener (pinentryCleanupForSocket e s a) = a_listener a"
  "a_subscribers (pinentryCleanupForSocket e s a) = a_subscribers a"
  "a_fault (pinentryCleanupForSocket e s a) = a_fault a"
  "a_polkit (pinentryCleanupForSocket e s a) = a_polkit a"
  "a_keyring (pinentryTimeout e c a) = a_keyring a" "a_listener (pinentryTimeout e c a) = a_listener a"
  "a_subscribers (pinentryTimeout e c a) = a_subscribers a" "a_fault (pinentryTimeout e c a) = a_fault a"
  "a_polkit (pinentryTimeout e c a) = a_polkit a"
  unfolding pinentryCleanupForSocket_def Let_def pinentryTimeout_def
  by ((rule fold_closeFlow [where Q = "\<lambda>b. a_keyring b = a_keyring a"]
       fold_closeFlow [where Q = "\<lambda>b. a_listener b = a_listener a"]
       fold_closeFlow [where Q = "\<lambda>b. a_subscribers b = a_subscribers a"]
       fold_closeFlow [where Q = "\<lambda>b. a_fault b = a_fault a"]
       fold_closeFlow [where Q = "\<lambda>b. a_polkit b = a_polkit a"]; simp) | simp)+

lemma core_ok_pinentry [wf_intros]:
  assumes "core_ok a"
  shows "core_ok (snd (pinentryHandleResponse e c rs a))" and "core_ok (snd (pinentryHandleResult e m p a))"
    and "core_ok (snd (pinentryHandleCancel e c a))" and "core_ok (pinentryCleanupForSocket e s a)"
    and "core_ok (pinentryTimeout e c a)"
proof -
  show "core_ok (pinentryCleanupForSocket e s a)"
    unfolding pinentryCleanupForSocket_def Let_def
    by (rule fold_closeFlow [where Q = core_ok]) (auto intro: core_ok_closeFlow assms)
qed (use assms in \<open>simp_all add: pinentryHandleResponse_def pinentryHandleResult_def pinentryHandleCancel_def
       pinentryTimeout_def Let_def core_ok_closeFlow core_ok_sessions split: option.split\<close>)

section \<open>Facts about the retry counters\<close>

lemma isDigit_digit: "k < 10 \<Longrightarrow> isDigit (char_of (48 + k :: nat))"
  by (simp add: isDigit_def Let_def)

lemma showNat_digits: "c \<in> set (showNat n) \<Longrightarrow> isDigit c"
proof (induction n rule: showNat.induct)
  case (1 n)
  show ?case using 1 by (subst (asm) (2) showNat.simps) (auto simp: isDigit_digit split: if_splits)
qed

lemma showNat_neq_Nil [simp]: "showNat n \<noteq> []"
  by (subst showNat.simps) simp

lemma digit_value: "k < 10 \<Longrightarrow> int (of_char (char_of (48 + k :: nat) :: char)) - 48 = int k"
  by simp

lemma digits_showNat: "foldl (\<lambda>n c. n * 10 + (int (of_char c) - 48)) 0 (showNat n) = int n"
proof (induction n rule: showNat.induct)
  case (1 n)
  show ?case
  proof (cases "n < 10")
    case True
    then show ?thesis by (subst showNat.simps) simp
  next
    case False
    then show ?thesis using 1 [OF False] digit_value [of "n mod 10"]
      by (subst showNat.simps) (simp add: zmod_int zdiv_int)
  qed
qed

lemma digitsToInt_showNat: "n \<le> 2147483647 \<Longrightarrow> digitsToInt (showNat n) = int n"
  by (simp add: digitsToInt_def digits_showNat Let_def)

lemma spanOf_append:
  "(\<And>c. c \<in> set w \<Longrightarrow> P c) \<Longrightarrow> \<not> P x \<Longrightarrow> spanOf P (w @ x # r) = (w, x # r)"
  by (simp add: spanOf_def takeWhile_append2 dropWhile_append2)

text \<open>The text of a retry announcement, as gpg-agent writes it.\<close>

definition attemptsText :: "nat \<Rightarrow> nat \<Rightarrow> string" where
  "attemptsText m n = ''('' @ showNat m @ '' of '' @ showNat n @ '' attempts)''"

lemma retryMatchAt_text: "retryMatchAt (attemptsText m n @ post) = Some (showNat m, showNat n)"
proof -
  have nd: "\<not> isDigit (CHR '' '')" by (simp add: isDigit_def Let_def)
  have b: "isBlank (CHR '' '')" "\<not> isBlank (CHR ''o'')" "\<not> isBlank (CHR ''a'')" by (simp_all add: isBlank_def Let_def)
  have nb: "\<not> isBlank c" if "isDigit c" for c using that by (auto simp: isDigit_def isBlank_def Let_def)
  have drop: "drop (Suc 0) (attemptsText m n @ post) = showNat m @ CHR '' '' # ''of '' @ showNat n @ '' attempts)'' @ post"
    by (simp add: attemptsText_def)
  have 1: "spanOf isDigit (drop (Suc 0) (attemptsText m n @ post)) =
      (showNat m, CHR '' '' # ''of '' @ showNat n @ '' attempts)'' @ post)"
    unfolding drop by (rule spanOf_append) (auto intro: showNat_digits simp: nd)
  have 2: "spanOf isBlank (CHR '' '' # ''of '' @ r) = ('' '', ''of '' @ r)" for r
    by (simp add: spanOf_def b)
  have 3: "spanOf isBlank (CHR '' '' # showNat n @ r) = ('' '', showNat n @ r)" for r
    using nb [OF showNat_digits [of "hd (showNat n)" n]]
    by (cases "showNat n") (auto simp: spanOf_def b)
  have 4: "spanOf isDigit (showNat n @ CHR '' '' # r) = (showNat n, CHR '' '' # r)" for r
    by (rule spanOf_append) (auto intro: showNat_digits simp: nd)
  have 5: "spanOf isBlank (CHR '' '' # ''attempts)'' @ r) = ('' '', ''attempts)'' @ r)" for r
    by (simp add: spanOf_def b)
  show ?thesis
    using 1 2 3 4 5
    by (simp add: retryMatchAt_def attemptsText_def startsWith_def Let_def)
qed

lemma retryMatch_skip:
  "CHR ''('' \<notin> set pre \<Longrightarrow> retryMatch (pre @ s) = retryMatch s"
  by (induction pre) (auto simp: retryMatchAt_def startsWith_def)

lemma retryMatch_text:
  assumes "CHR ''('' \<notin> set pre"
  shows "retryMatch (pre @ attemptsText m n @ post) = Some (showNat m, showNat n)"
proof -
  obtain c r where "attemptsText m n @ post = c # r" by (simp add: attemptsText_def)
  then have "retryMatch (attemptsText m n @ post) = Some (showNat m, showNat n)"
    using retryMatchAt_text [of m n post] by simp
  then show ?thesis using assms by (simp add: retryMatch_skip)
qed

section \<open>Properties\<close>

text \<open>The retry counters gpg-agent announces in the description, \<open>(m of n attempts)\<close>, are the
  ones the session gets, whatever surrounds them (an earlier parenthesis apart).\<close>

theorem retry_counters_parsed:
  assumes "pr_description rq = pre @ attemptsText m n @ post" and "CHR ''('' \<notin> set pre"
    and "m \<le> 2147483647" and "n \<le> 2147483647" and "0 < n"
  shows "fst (resolveRetryInfo rq pm) = (int m, int n)"
  using retryMatch_text [OF assms(2), of m n post] assms
  by (simp add: resolveRetryInfo_def Let_def case_prod_beta digitsToInt_showNat)

definition example_pinentry_msg :: jobject where
  "example_pinentry_msg = [(''type'', JStr ''pinentry_request''), (''cookie'', JStr ''p1''),
     (''description'', JStr (''Unlock '' @ attemptsText 1 3)), (''keyinfo'', JStr ''s/key'')]"

theorem retry_counters_parsed_witness:
  "fst (resolveRetryInfo (parsePinentryRequest example_pinentry_msg 4 104) (a_pinentry (initAgent [] []))) = (1, 3)"
  using retry_counters_parsed [of "parsePinentryRequest example_pinentry_msg 4 104" "''Unlock ''" 1 3 "[]"
      "a_pinentry (initAgent [] [])"]
  by (simp add: parsePinentryRequest_def example_pinentry_msg_def Let_def)

text \<open>Whatever a client sends, the counters shown are a non-negative attempt number and a
  positive maximum.\<close>

theorem retry_counters_bounds:
  "0 \<le> fst (fst (resolveRetryInfo rq pm)) \<and> 0 < snd (fst (resolveRetryInfo rq pm))"
  by (simp add: resolveRetryInfo_def Let_def case_prod_beta)

text \<open>C25: a flow belongs to the process that opened it: neither a request nor a result for its
  cookie sent by another process changes anything at all, and the result is answered with an
  error.\<close>

theorem pinentry_owner_exclusive:
  assumes "hash_find (pm_flowOwners (a_pinentry a)) c = Some q" and "q \<noteq> p" and "c \<noteq> []"
    and "toStr (jvalue msg ''cookie'') = c" and "toStr (jvalue msg' ''id'') = c"
  shows "pinentryHandleRequest env msg s p a = a
    \<and> pinentryHandleResult env msg' p a = (errorMsg ''Result sender does not own session'', a)"
proof -
  have "\<not> accepted env msg p a" using assms by (simp add: accepted_def requestCookie_def)
  from pinentryRequest_rejected [OF this, of s] assms show ?thesis
    by (simp add: pinentryHandleResult_def validateResultOwner_def Let_def)
qed

definition example_flow :: agent where
  "example_flow = pinentryHandleRequest example_env example_pinentry_msg 4 104 (initAgent [] [])"

lemma init_flows [simp]: "flows_ok (sessionSource (initAgent p d)) (a_pinentry (initAgent p d))"
  by (simp add: flows_ok_def initAgent_def sessionSource_def storeGet_def)

lemma example_flow_facts:
  "hash_find (pm_flowOwners (a_pinentry example_flow)) ''p1'' = Some 104"
  "hash_has (pm_pending (a_pinentry example_flow)) ''p1''"
  "sessionSource example_flow ''p1'' = Some Pinentry" "pinentry_ok example_flow"
proof -
  have c: "requestCookie example_env example_pinentry_msg (initAgent [] []) = ''p1''"
    by (simp add: requestCookie_def example_pinentry_msg_def)
  have acc: "accepted example_env example_pinentry_msg 104 (initAgent [] [])"
    by (simp add: accepted_def initAgent_def)
  note eff = pinentryRequest_effect [OF acc refl refl, of 4]
  show "hash_find (pm_flowOwners (a_pinentry example_flow)) ''p1'' = Some 104"
    "hash_has (pm_pending (a_pinentry example_flow)) ''p1''"
    "sessionSource example_flow ''p1'' = Some Pinentry"
    using eff c by (simp_all add: example_flow_def)
  show "pinentry_ok example_flow" unfolding example_flow_def by (rule pinentry_ok_request) (rule init_flows)
qed

theorem pinentry_owner_exclusive_witness:
  "pinentryHandleRequest example_env example_pinentry_msg 5 105 example_flow = example_flow"
  using pinentry_owner_exclusive [OF example_flow_facts(1), of 105 example_pinentry_msg
      "[(''id'', JStr ''p1'')]" example_env 5]
  by (simp add: example_pinentry_msg_def)

text \<open>A terminal result is accepted only from the recorded owner of a live pinentry session.\<close>

theorem pinentry_result_from_owner:
  assumes "pinentry_ok a" and "fst (pinentryHandleResult env msg p a) = okMsg"
  shows "hash_find (pm_flowOwners (a_pinentry a)) (toStr (jvalue msg ''id'')) = Some p
    \<and> sessionSource a (toStr (jvalue msg ''id'')) = Some Pinentry"
proof -
  let ?c = "toStr (jvalue msg ''id'')"
  have own: "validateResultOwner ?c p a" and src: "sessionSource a ?c = Some Pinentry"
    using assms(2) by (auto simp: pinentryHandleResult_def Let_def sessionSource_get errorMsg_def okMsg_def
        split: if_splits)
  moreover have "hash_has (pm_flowOwners (a_pinentry a)) ?c" using assms(1) src by (auto simp: flows_ok_def)
  ultimately show ?thesis by (auto simp: validateResultOwner_def hash_has_def)
qed

theorem pinentry_result_from_owner_witness:
  "hash_find (pm_flowOwners (a_pinentry example_flow)) ''p1'' = Some 104"
proof -
  let ?m = "[(''id'', JStr ''p1''), (''result'', JStr ''success'')]"
  have "fst (pinentryHandleResult example_env ?m 104 example_flow) = okMsg"
    using example_flow_facts
    by (simp add: pinentryHandleResult_def validateResultOwner_def Let_def sessionSource_get [symmetric]
        toLower_def lowerChar_def)
  from pinentry_result_from_owner [OF example_flow_facts(4) this] show ?thesis by simp
qed

end
