(* ===== verification/Prompt_Text.thy ===== *)
theory Prompt_Text
  imports Pinentry_Manager
begin

text \<open>
  The text functions of the fallback prompt: \<^verbatim>\<open>fallback/prompt/TextNormalize.cpp\<close>,
  \<^verbatim>\<open>PromptHeuristics.cpp\<close> and \<^verbatim>\<open>PromptExtractors.cpp\<close>.  The regular expressions
  are written out as matchers at a position; \<open>searchFirst\<close> tries every position from the left.  In
  each of them the classes that follow one another are disjoint, so the greedy match is the only one
  and no backtracking is lost.
\<close>

section \<open>Normalisation\<close>

definition nl :: char where "nl = CHR 0x0A"

definition normalizeDetailText :: "string \<Rightarrow> string" where
  "normalizeDetailText text =
     joinWith [nl] (filter (\<lambda>l. l \<noteq> [])
       (map simplified (splitOn nl (map (\<lambda>c. if c = CHR 0x0D then nl else c) text))))"

definition normalizeCompareText :: "string \<Rightarrow> string" where
  "normalizeCompareText text =
     simplified (map (\<lambda>c. if c \<in> {CHR 0x60, CHR 0x22, CHR '','', CHR ''.''} then CHR '' '' else c)
       (toLower (normalizeDetailText text)))"

definition textEquivalent :: "string \<Rightarrow> string \<Rightarrow> bool" where
  "textEquivalent left right =
     (let a = normalizeCompareText left; b = normalizeCompareText right
      in if a = [] \<or> b = [] then False else a = b \<or> startsWith a b \<or> startsWith b a)"

definition firstMeaningfulLine :: "string \<Rightarrow> string" where
  "firstMeaningfulLine text = takeWhile (\<lambda>c. c \<noteq> nl) (normalizeDetailText text)"

text \<open>\<^verbatim>\<open>QString::left\<close> with a negative length is the whole string.\<close>

definition leftStr :: "int \<Rightarrow> string \<Rightarrow> string" where
  "leftStr n s = (if n < 0 then s else take (nat n) s)"

definition trimToLength :: "string \<Rightarrow> int \<Rightarrow> string" where
  "trimToLength text maxChars =
     (if int (length text) \<le> maxChars then text else trimmed (leftStr (maxChars - 3) text) @ ''...'')"

fun uniqueLines :: "string list \<Rightarrow> string list \<Rightarrow> string list" where
  "uniqueLines filtered [] = filtered"
| "uniqueLines filtered (v # vs) =
     (let s = trimmed v
      in if s = [] \<or> list_ex (\<lambda>existing. textEquivalent existing s) filtered
         then uniqueLines filtered vs else uniqueLines (filtered @ [s]) vs)"

definition uniqueJoined :: "string list \<Rightarrow> string" where
  "uniqueJoined vals = joinWith [nl] (uniqueLines [] vals)"

section \<open>Heuristics\<close>

definition containsAnyTerm :: "string \<Rightarrow> string list \<Rightarrow> bool" where
  "containsAnyTerm text terms = (let lower = toLower text in list_ex (containsStr lower) terms)"

definition looksLikeFingerprintPrompt :: "string \<Rightarrow> bool" where
  "looksLikeFingerprintPrompt text =
     containsAnyTerm text [''fingerprint'', ''finger print'', ''fprint'', ''swipe'', ''scan your finger'']"

definition looksLikeFidoPrompt :: "string \<Rightarrow> bool" where
  "looksLikeFidoPrompt text =
     containsAnyTerm text [''fido'', ''fido2'', ''webauthn'', ''security key'', ''yubikey'', ''hardware token'', ''user presence'']"

definition looksLikeTouchPrompt :: "string \<Rightarrow> bool" where
  "looksLikeTouchPrompt text =
     containsAnyTerm text [''touch'', ''tap'', ''insert'', ''use your security key'', ''verify your identity'']"

section \<open>Matchers\<close>

fun searchFirst :: "(string \<Rightarrow> string option) \<Rightarrow> string \<Rightarrow> string option" where
  "searchFirst m [] = None"
| "searchFirst m (c # s) = (case m (c # s) of Some x \<Rightarrow> Some x | None \<Rightarrow> searchFirst m s)"

definition captureFirst :: "string \<Rightarrow> (string \<Rightarrow> string option) \<Rightarrow> string" where
  "captureFirst text m = (case searchFirst m text of None \<Rightarrow> [] | Some x \<Rightarrow> trimmed x)"

text \<open>A literal without regard to case (the pattern is in lower case), and a run of one class.\<close>

definition litCI :: "string \<Rightarrow> string \<Rightarrow> string option" where
  "litCI p s = (if toLower (take (length p) s) = p then Some (drop (length p) s) else None)"

definition many1 :: "(char \<Rightarrow> bool) \<Rightarrow> string \<Rightarrow> (string \<times> string) option" where
  "many1 P s = (let (w, r) = spanOf P s in if w = [] then None else Some (w, r))"

definition blanks1 :: "string \<Rightarrow> string option" where
  "blanks1 s = map_option snd (many1 isBlank s)"

definition isQuote :: "char \<Rightarrow> bool" where
  "isQuote c \<longleftrightarrow> c = CHR 0x60 \<or> c = CHR 0x27 \<or> c = CHR 0x22"

definition isAlnum :: "char \<Rightarrow> bool" where
  "isAlnum c = (let n = of_char c :: nat in (48 \<le> n \<and> n \<le> 57) \<or> (65 \<le> n \<and> n \<le> 90) \<or> (97 \<le> n \<and> n \<le> 122))"

definition explicitRunAt :: "string \<Rightarrow> string option" where
  "explicitRunAt s =
     (case litCI ''run'' s of
        None \<Rightarrow> None
      | Some r \<Rightarrow> (case blanks1 r of
          Some (q # r) \<Rightarrow>
            (if \<not> isQuote q then None
             else case many1 (\<lambda>c. \<not> isQuote c \<and> \<not> isBlank c) r of
                    Some (w, q # r) \<Rightarrow> if isQuote q then Some w else None
                  | _ \<Rightarrow> None)
        | _ \<Rightarrow> None))"

definition pathAt :: "string \<Rightarrow> string option" where
  "pathAt s =
     (case s of
        c # r \<Rightarrow> if c \<noteq> CHR ''/'' then None
               else map_option (\<lambda>(w, _). c # w) (many1 (\<lambda>c. isAlnum c \<or> c \<in> {CHR ''_'', CHR ''-'', CHR ''.'', CHR ''/''}) r)
      | [] \<Rightarrow> None)"

definition unlockAt :: "string \<Rightarrow> string option" where
  "unlockAt s =
     (case litCI ''unlock'' s of
        None \<Rightarrow> None
      | Some r \<Rightarrow> (case blanks1 r of None \<Rightarrow> None | Some r \<Rightarrow> map_option fst (many1 (\<lambda>c. c \<noteq> nl) r)))"

section \<open>Extractors\<close>

definition extractCommandName :: "string \<Rightarrow> string" where
  "extractCommandName message =
     (let command = captureFirst message explicitRunAt;
          command = (if command = [] then captureFirst message pathAt else command)
      in if command = [] then []
         else let commandName = fileName command in if commandName = [] then command else commandName)"

definition extractUnlockTarget :: "string \<Rightarrow> string" where
  "extractUnlockTarget text =
     (let normalized = normalizeDetailText text in
      if normalized = [] then []
      else let target = captureFirst normalized unlockAt in
           if target = [] then []
           else let target = trimmed target;
                    target = (if endsWith target ''.'' then butlast target else target)
                in trimmed target)"

definition extractUnlockTargetFromContext :: "jobject \<Rightarrow> string" where
  "extractUnlockTargetFromContext ctx =
     (let target = extractUnlockTarget (toStr (jvalue ctx ''keyringName''));
          target = (if target = [] then extractUnlockTarget (toStr (jvalue ctx ''message'')) else target)
      in if target = [] then extractUnlockTarget (toStr (jvalue ctx ''description'')) else target)"

definition isTemplateUnlockLine :: "string \<Rightarrow> string \<Rightarrow> bool" where
  "isTemplateUnlockLine line target =
     (let normalized = normalizeCompareText line; normalizedTarget = normalizeCompareText target in
      if normalized = [] then True
      else if normalizedTarget \<noteq> [] \<and> normalized = normalizedTarget then True
      else normalizedTarget \<noteq> [] \<and> containsStr normalized ''unlock'' \<and> containsStr normalized normalizedTarget
           \<and> (startsWith normalized ''authenticate to unlock'' \<or> startsWith normalized ''unlock''
              \<or> startsWith normalized ''use your password to unlock''
              \<or> startsWith normalized ''use your account password to unlock''))"

definition buildUnlockDetails :: "jobject \<Rightarrow> string \<Rightarrow> string" where
  "buildUnlockDetails ctx target =
     (let candidates = map (\<lambda>k. normalizeDetailText (toStr (jvalue ctx k))) [''description'', ''message'', ''keyringName''];
          details = concat (map (\<lambda>candidate.
            if candidate = [] then []
            else filter (\<lambda>line. \<not> (line = [] \<or> isTemplateUnlockLine line target)) (map trimmed (splitOn nl candidate))) candidates)
      in uniqueJoined details)"

section \<open>Simplified text\<close>

definition isWord :: "string \<Rightarrow> bool" where
  "isWord w \<longleftrightarrow> w \<noteq> [] \<and> list_all (\<lambda>c. \<not> isSpace c) w"

lemma isSpace_chars [simp]: "isSpace (CHR '' '')" "isSpace nl" "isSpace (CHR 0x0D)"
  by (simp_all add: isSpace_def nl_def Let_def)

lemma spaceWords_words: "list_all (\<lambda>c. \<not> isSpace c) w \<Longrightarrow> v \<in> set (spaceWords w s) \<Longrightarrow> isWord v"
  by (induction w s rule: spaceWords.induct) (auto simp: isWord_def split: if_splits)

lemma spaceWords_append: "list_all (\<lambda>c. \<not> isSpace c) w \<Longrightarrow> spaceWords acc (w @ s) = spaceWords (rev w @ acc) s"
  by (induction w arbitrary: acc) auto

lemma spaceWords_join:
  assumes "\<And>w. w \<in> set ws \<Longrightarrow> isWord w" shows "spaceWords [] (joinWith '' '' ws) = ws"
  using assms
proof (induction "'' ''" ws rule: joinWith.induct)
  case (2 w)
  then show ?case using spaceWords_append [of w "[]" "[]"] by (simp add: isWord_def)
next
  case (3 w v ws)
  have "isWord w" using 3 by simp
  moreover have "spaceWords [] (joinWith '' '' (v # ws)) = v # ws" using 3 by simp
  ultimately show ?case
    using spaceWords_append [of w "[]" "'' '' @ joinWith '' '' (v # ws)"] by (simp add: isWord_def)
qed simp

lemma simplified_idem [simp]: "simplified (simplified s) = simplified s"
  using spaceWords_join [of "spaceWords [] s"] spaceWords_words [of "[]" _ s] by (simp add: simplified_def)

lemma joinWith_set: "set (joinWith sep ws) \<subseteq> set sep \<union> \<Union> (set ` set ws)"
  by (induction sep ws rule: joinWith.induct) auto

lemma simplified_chars: "c \<in> set (simplified s) \<Longrightarrow> c = CHR '' '' \<or> \<not> isSpace c"
  using joinWith_set [of "'' ''" "spaceWords [] s"] spaceWords_words [of "[]" _ s]
  by (fastforce simp: simplified_def isWord_def list_all_iff)

lemma simplified_line: "nl \<notin> set (simplified s)" "CHR 0x0D \<notin> set (simplified s)"
  using simplified_chars [of nl s] simplified_chars [of "CHR 0x0D" s] by (auto simp: nl_def isSpace_def Let_def)

lemma splitOn_joinWith:
  "ws \<noteq> [] \<Longrightarrow> (\<And>w. w \<in> set ws \<Longrightarrow> c \<notin> set w) \<Longrightarrow> splitOn c (joinWith [c] ws) = ws"
proof (induction "[c]" ws rule: joinWith.induct)
  case (3 w v ws)
  have "splitOn c (w @ c # t) = w # splitOn c t" if "c \<notin> set w" for w t
    using that by (induction w) auto
  with 3 show ?case by simp
qed (simp_all add: splitOn_none)

text \<open>The lines of a normalised text.\<close>

definition detailLines :: "string \<Rightarrow> string list" where
  "detailLines text = filter (\<lambda>l. l \<noteq> []) (map simplified (splitOn nl (map (\<lambda>c. if c = CHR 0x0D then nl else c) text)))"

lemma detailLines_line: "l \<in> set (detailLines s) \<Longrightarrow> l \<noteq> [] \<and> simplified l = l \<and> nl \<notin> set l \<and> CHR 0x0D \<notin> set l"
  using simplified_line by (auto simp: detailLines_def)

lemma normalize_lines: "normalizeDetailText s = joinWith [nl] (detailLines s)"
  by (simp add: normalizeDetailText_def detailLines_def)

lemma normalize_split:
  "splitOn nl (normalizeDetailText s) = (if detailLines s = [] then [[]] else detailLines s)"
  using splitOn_joinWith [of "detailLines s" nl] detailLines_line by (simp add: normalize_lines)

lemma normalize_no_return: "CHR 0x0D \<notin> set (normalizeDetailText s)"
  using joinWith_set [of "[nl]" "detailLines s"] detailLines_line [of _ s] by (auto simp: normalize_lines nl_def)

lemma detailLines_normalize: "detailLines (normalizeDetailText s) = detailLines s"
proof -
  have "map (\<lambda>c. if c = CHR 0x0D then nl else c) (normalizeDetailText s) = normalizeDetailText s"
    using normalize_no_return by (intro map_idI) auto
  moreover have "map simplified (detailLines s) = detailLines s"
    using detailLines_line by (intro map_idI) blast
  moreover have "filter (\<lambda>l. l \<noteq> []) (detailLines s) = detailLines s" by (simp add: detailLines_def)
  moreover have "simplified [] = []" by (simp add: simplified_def)
  ultimately show ?thesis
    using normalize_split [of s] by (simp add: detailLines_def [of "normalizeDetailText s"])
qed

text \<open>Normalising a text for display is idempotent, and its result is clean: no carriage return, and
  it is either empty or every line of it is non-empty and free of superfluous white space.\<close>

theorem normalize_idempotent:
  "normalizeDetailText (normalizeDetailText s) = normalizeDetailText s
   \<and> CHR 0x0D \<notin> set (normalizeDetailText s)
   \<and> (normalizeDetailText s = [] \<or> list_all (\<lambda>l. l \<noteq> [] \<and> simplified l = l) (splitOn nl (normalizeDetailText s)))"
proof -
  have "detailLines s = [] \<or> list_all (\<lambda>l. l \<noteq> [] \<and> simplified l = l) (detailLines s)"
    using detailLines_line by (auto simp: list_all_iff)
  then show ?thesis
    using detailLines_normalize [of s] normalize_no_return [of s] by (auto simp: normalize_split) (auto simp: normalize_lines)
qed

section \<open>Repeated lines\<close>

lemma uniqueLines_distinct:
  assumes "sorted_wrt (\<lambda>a b. \<not> textEquivalent a b) acc"
  shows "sorted_wrt (\<lambda>a b. \<not> textEquivalent a b) (uniqueLines acc vs)"
  using assms
proof (induction acc vs rule: uniqueLines.induct)
  case (2 acc v vs)
  then show ?case by (auto simp: Let_def sorted_wrt_append list_ex_iff)
qed simp

text \<open>Joining details never repeats itself: no line of the result is equivalent to an earlier one,
  and every line is one of the given texts, trimmed.\<close>

theorem unique_lines:
  "sorted_wrt (\<lambda>a b. \<not> textEquivalent a b) (uniqueLines [] vals)
   \<and> set (uniqueLines [] vals) \<subseteq> trimmed ` set vals
   \<and> uniqueJoined vals = joinWith [nl] (uniqueLines [] vals)"
proof -
  have "set (uniqueLines acc vs) \<subseteq> set acc \<union> trimmed ` set vs" for acc vs
    by (induction acc vs rule: uniqueLines.induct) (auto simp: Let_def)
  from this [of "[]" vals] show ?thesis
    using uniqueLines_distinct [of "[]" vals] by (simp add: uniqueJoined_def)
qed

end
