(* ===== verification/Prompt_Model.thy ===== *)
theory Prompt_Model
  imports Prompt_Text
begin

text \<open>
  What the fallback window shows for a session event: \<^verbatim>\<open>fallback/prompt/PromptModel.hpp\<close>
  and \<^verbatim>\<open>PromptModelBuilder.cpp\<close>.  The long \<^verbatim>\<open>build\<close> is split where the code
  has its blocks: the facts read from the event, the intent, the texts of each intent, the
  requestor line, the clean-up of summary and details, and the input prompt.
\<close>

section \<open>The model\<close>

datatype prompt_intent = Generic | Unlock | RunCommand | OpenPgp | Fingerprint | Fido2

record prompt_model =
  pd_intent :: prompt_intent
  pd_title :: string
  pd_summary :: string
  pd_requestor :: string
  pd_details :: string
  pd_prompt :: string
  pd_passphrasePrompt :: bool
  pd_allowEmptyResponse :: bool

definition emptyPromptModel :: prompt_model where
  "emptyPromptModel = \<lparr>pd_intent = Generic, pd_title = [], pd_summary = [], pd_requestor = [], pd_details = [],
     pd_prompt = [], pd_passphrasePrompt = False, pd_allowEmptyResponse = False\<rparr>"

section \<open>Helpers\<close>

definition isLowSignalCommand :: "string \<Rightarrow> bool" where
  "isLowSignalCommand commandName =
     (let normalized = toLower (trimmed commandName)
      in normalized = [] \<or> normalized \<in> {''true'', ''sh'', ''bash''})"

definition isIdentityLine :: "string \<Rightarrow> bool" where
  "isIdentityLine line \<longleftrightarrow> CHR 0x22 \<in> set line \<and> CHR ''<'' \<in> set line \<and> CHR ''>'' \<in> set line"

definition isKeyMetadataLine :: "string \<Rightarrow> bool" where
  "isKeyMetadataLine line =
     (let lower = toLower line
      in (containsStr lower '' id '' \<or> startsWith lower ''id '') \<and> containsStr lower ''created'')"

text \<open>\<^verbatim>\<open>replace(p, "", Qt::CaseInsensitive)\<close>; the pattern is in lower case.\<close>

function removeCI :: "string \<Rightarrow> string \<Rightarrow> string" where
  "removeCI p s =
     (if p = [] then s
      else case s of [] \<Rightarrow> []
           | c # r \<Rightarrow> if litCI p s \<noteq> None then removeCI p (drop (length p) s) else c # removeCI p r)"
  by auto
termination by (relation "measure (\<lambda>(p, s). length s)") auto

declare removeCI.simps [simp del]

definition cleanIdentity :: "string \<Rightarrow> string" where
  "cleanIdentity identity = trimmed (removeCI '' (github)'' (simplified identity))"

text \<open>\<^verbatim>\<open>QChar::toUpper\<close>; the two letters of Latin-1 whose capital is outside it are left alone.\<close>

definition upperChar :: "char \<Rightarrow> char" where
  "upperChar c = (let n = of_char c :: nat in
     if (97 \<le> n \<and> n \<le> 122) \<or> (224 \<le> n \<and> n \<le> 254 \<and> n \<noteq> 247) then char_of (n - 32) else c)"

definition capitalise :: "string \<Rightarrow> string" where
  "capitalise w = (case w of [] \<Rightarrow> [] | c # r \<Rightarrow> upperChar c # r)"

definition humanizeActionId :: "string \<Rightarrow> string" where
  "humanizeActionId action =
     (let actionId = trimmed action in
      if actionId = [] then []
      else let tail = last (splitOn (CHR ''.'') actionId);
               actionId = (if CHR ''.'' \<in> set actionId \<and> tail \<noteq> [] then tail else actionId);
               actionId = simplified (map (\<lambda>c. if c \<in> {CHR ''-'', CHR ''_'', CHR ''/''} then CHR '' '' else c) actionId)
           in if actionId = [] then []
              else joinWith '' '' (map capitalise (filter (\<lambda>w. w \<noteq> []) (splitOn (CHR '' '') actionId))))"

definition isGenericAuthSummary :: "string \<Rightarrow> bool" where
  "isGenericAuthSummary summary =
     (let normalized = normalizeCompareText summary
      in normalized = [] \<or> normalized \<in>
        {''authentication is required'', ''authentication required'', ''authorization is required'',
         ''authorization required'', ''authenticate to continue'', ''authentication is required to continue'',
         ''authorization is required to continue''})"

section \<open>Facts of the event\<close>

text \<open>\<^verbatim>\<open>QJsonValue::toInteger\<close>.\<close>

definition toInteger :: "json option \<Rightarrow> int" where
  "toInteger v = (case v of
     Some (JNum x) \<Rightarrow> (let n = \<lfloor>x\<rfloor> in if of_int n = x \<and> - (2 ^ 63) \<le> n \<and> n < 2 ^ 63 then n else 0)
   | _ \<Rightarrow> 0)"

record prompt_facts =
  pf_source :: string
  pf_context :: jobject
  pf_message :: string
  pf_description :: string
  pf_requestorName :: string
  pf_requestorPid :: int
  pf_actionId :: string
  pf_actionSummary :: string
  pf_actionUser :: string
  pf_infoText :: string
  pf_normMessage :: string
  pf_normDescription :: string
  pf_detailText :: string
  pf_commandName :: string
  pf_unlockTarget :: string
  pf_fingerprintHint :: bool
  pf_fidoHint :: bool
  pf_touchHint :: bool

definition promptFacts :: "jobject \<Rightarrow> prompt_facts" where
  "promptFacts event =
     (let source = toStr (jvalue event ''source'');
          ctx = toObject (jvalue event ''context'');
          requestor = toObject (jvalue ctx ''requestor'');
          message = toStr (jvalue ctx ''message'');
          description = toStr (jvalue ctx ''description'');
          requestorName = trimmed (toStr (jvalue requestor ''name''));
          actionId = trimmed (toStr (jvalue ctx ''actionId''));
          infoText = normalizeDetailText (toStr (jvalue event ''info''));
          livePromptText = normalizeDetailText (toStr (jvalue event ''prompt''));
          normMessage = normalizeDetailText message;
          normDescription = normalizeDetailText description;
          detailText = toLower (normDescription @ '' '' @ normMessage);
          authHintText = toLower (detailText @ '' '' @ infoText @ '' '' @ livePromptText);
          unlockTarget = (if source = ''polkit'' \<or> source = ''keyring'' then extractUnlockTargetFromContext ctx else []);
          fingerprintHint = looksLikeFingerprintPrompt authHintText;
          fidoHint = looksLikeFidoPrompt authHintText
      in \<lparr>pf_source = source, pf_context = ctx, pf_message = message, pf_description = description,
          pf_requestorName = requestorName, pf_requestorPid = toInteger (jvalue requestor ''pid''),
          pf_actionId = actionId, pf_actionSummary = (if source = ''polkit'' then humanizeActionId actionId else []),
          pf_actionUser = trimmed (toStr (jvalue ctx ''user'')), pf_infoText = infoText,
          pf_normMessage = normMessage, pf_normDescription = normDescription, pf_detailText = detailText,
          pf_commandName = (if source = ''polkit'' then extractCommandName message else []),
          pf_unlockTarget = (if source = ''keyring'' \<and> unlockTarget = [] then requestorName else unlockTarget),
          pf_fingerprintHint = fingerprintHint, pf_fidoHint = fidoHint,
          pf_touchHint = (fingerprintHint \<or> fidoHint \<or> looksLikeTouchPrompt authHintText)\<rparr>)"

definition promptIntent :: "prompt_facts \<Rightarrow> prompt_intent" where
  "promptIntent f =
     (if pf_source f = ''polkit'' \<and> pf_fingerprintHint f then Fingerprint
      else if pf_source f = ''polkit'' \<and> pf_fidoHint f then Fido2
      else if pf_source f = ''pinentry'' \<and> (containsStr (pf_detailText f) ''openpgp'' \<or> containsStr (pf_detailText f) ''gpg'')
      then OpenPgp
      else if pf_source f = ''polkit'' \<and> pf_commandName f \<noteq> [] then RunCommand
      else if (pf_source f = ''polkit'' \<or> pf_source f = ''keyring'') \<and> pf_unlockTarget f \<noteq> [] then Unlock
      else Generic)"

section \<open>The key of a pinentry prompt\<close>

definition isHexCI :: "char \<Rightarrow> bool" where
  "isHexCI c = (let n = of_char c :: nat in (48 \<le> n \<and> n \<le> 57) \<or> (65 \<le> n \<and> n \<le> 70) \<or> (97 \<le> n \<and> n \<le> 102))"

definition quotedAt :: "string \<Rightarrow> string option" where
  "quotedAt s =
     (case s of [] \<Rightarrow> None
      | c # r \<Rightarrow> if c \<noteq> CHR 0x22 then None
               else case many1 (\<lambda>c. c \<noteq> CHR 0x22) r of Some (w, _ # _) \<Rightarrow> Some w | _ \<Rightarrow> None)"

definition keyIdAt :: "string \<Rightarrow> string option" where
  "keyIdAt s =
     (case litCI ''id'' s of None \<Rightarrow> None
      | Some r \<Rightarrow> (case blanks1 r of None \<Rightarrow> None
          | Some r \<Rightarrow> (let (w, _) = spanOf isHexCI r in if length w < 8 then None else Some w)))"

definition keyTypeAt :: "string \<Rightarrow> string option" where
  "keyTypeAt s =
     (let (d, r) = spanOf isDigit s in
      if length d < 3 \<or> 5 < length d then None
      else case litCI ''-bit'' r of None \<Rightarrow> None
           | Some r \<Rightarrow> (case blanks1 r of None \<Rightarrow> None
               | Some r \<Rightarrow> (case many1 (\<lambda>c. isAlnum c \<or> c = CHR ''-'') r of None \<Rightarrow> None
                   | Some (_, r) \<Rightarrow> (case blanks1 r of None \<Rightarrow> None
                       | Some r \<Rightarrow> (case litCI ''key'' r of None \<Rightarrow> None
                           | Some r \<Rightarrow> Some (take (length s - length r) s))))))"

definition isDate :: "string \<Rightarrow> bool" where
  "isDate w \<longleftrightarrow> length w = 10 \<and> list_all isDigit (take 4 w) \<and> w ! 4 = CHR ''-'' \<and> list_all isDigit (take 2 (drop 5 w))
     \<and> w ! 7 = CHR ''-'' \<and> list_all isDigit (drop 8 w)"

definition createdAt :: "string \<Rightarrow> string option" where
  "createdAt s =
     (case litCI ''created'' s of None \<Rightarrow> None
      | Some r \<Rightarrow> (case blanks1 r of None \<Rightarrow> None
          | Some r \<Rightarrow> if isDate (take 10 r) then Some (take 10 r) else None))"

text \<open>The separator is two blanks, a bullet and two blanks; the bullet U+2022 is outside the character
  type and stands as the control code 0x95.\<close>

definition bulletSep :: string where "bulletSep = ''  '' @ [CHR 0x95] @ ''  ''"

definition keyPieces :: "string \<Rightarrow> string list" where
  "keyPieces referenceText =
     (let identity = cleanIdentity (captureFirst referenceText quotedAt);
          keyId = captureFirst referenceText keyIdAt;
          keyType = captureFirst referenceText keyTypeAt;
          created = captureFirst referenceText createdAt
      in (if identity \<noteq> [] then [trimToLength identity 72] else if keyType \<noteq> [] then [keyType] else [])
         @ (if keyId \<noteq> [] then [keyId] else []) @ (if created \<noteq> [] then [''created '' @ created] else []))"

section \<open>Texts of each intent\<close>

definition orElse :: "string \<Rightarrow> string \<Rightarrow> string" where
  "orElse s d = (if s = [] then d else s)"

definition pinentryTexts :: "prompt_facts \<Rightarrow> prompt_model \<Rightarrow> prompt_model" where
  "pinentryTexts f m =
     (let title = (if pd_intent m = OpenPgp then ''Unlock OpenPGP Key''
                   else if containsStr (pf_detailText f) ''ssh'' then ''Unlock SSH Key'' else ''Authentication Required'');
          referenceText = orElse (pf_description f) (pf_message f);
          pieces = keyPieces referenceText;
          summary = (if pieces \<noteq> [] then joinWith bulletSep pieces else firstMeaningfulLine referenceText);
          pinText = normalizeDetailText (orElse (pf_description f) (pf_message f));
          filtered = filter (\<lambda>line. \<not> (isIdentityLine line \<or> isKeyMetadataLine line)) (splitOn nl pinText);
          details = (if pinText = [] then pd_details m
                     else if filtered = [] then pinText else joinWith [nl] filtered)
      in m\<lparr>pd_title := title, pd_summary := summary, pd_details := details\<rparr>)"

definition genericTexts :: "prompt_facts \<Rightarrow> prompt_model \<Rightarrow> prompt_model" where
  "genericTexts f m =
     (let summary = orElse (firstMeaningfulLine (pf_normMessage f)) (firstMeaningfulLine (pf_normDescription f));
          details = (if pf_normDescription f \<noteq> [] \<and> \<not> textEquivalent (pf_normDescription f) summary then pf_normDescription f
                     else if pf_normMessage f \<noteq> [] \<and> \<not> textEquivalent (pf_normMessage f) summary then pf_normMessage f
                     else pd_details m)
      in m\<lparr>pd_title := (if pf_source f = ''polkit'' then ''Authorization Required'' else ''Authentication Required''),
           pd_summary := summary, pd_details := details\<rparr>)"

definition intentTexts :: "prompt_facts \<Rightarrow> prompt_model \<Rightarrow> prompt_model" where
  "intentTexts f m =
     (if pd_intent m = Unlock
      then m\<lparr>pd_title := ''Unlock '' @ pf_unlockTarget f, pd_summary := ''Use your password to unlock '' @ pf_unlockTarget f,
             pd_details := buildUnlockDetails (pf_context f) (pf_unlockTarget f)\<rparr>
      else if pd_intent m = Fingerprint
      then m\<lparr>pd_title := ''Verify Fingerprint'',
             pd_summary := (if pf_infoText f = [] then ''Use your fingerprint sensor to continue'' else firstMeaningfulLine (pf_infoText f)),
             pd_details := normalizeDetailText (pf_description f)\<rparr>
      else if pd_intent m = Fido2
      then m\<lparr>pd_title := ''Use Security Key'',
             pd_summary := (if pf_infoText f = [] then ''Touch your security key to continue'' else firstMeaningfulLine (pf_infoText f)),
             pd_details := normalizeDetailText (pf_description f)\<rparr>
      else if pd_intent m = RunCommand
      then (let summary = orElse (firstMeaningfulLine (pf_normDescription f)) (firstMeaningfulLine (pf_normMessage f));
                summary = (if summary = [] then if isLowSignalCommand (pf_commandName f) then ''Administrative privileges required''
                             else ''Run '' @ pf_commandName f @ '' as superuser'' else summary)
            in m\<lparr>pd_title := ''Authorization Required'', pd_summary := summary, pd_details := []\<rparr>)
      else if pf_source f = ''pinentry'' then pinentryTexts f m
      else genericTexts f m)"

definition requestorLine :: "prompt_facts \<Rightarrow> prompt_model \<Rightarrow> prompt_model" where
  "requestorLine f m =
     (if pf_requestorName f \<noteq> []
      then if pd_intent m = Unlock \<and> equalCI (pf_requestorName f) (pf_unlockTarget f) then m
           else let weakIdentity = (pf_source f = ''polkit'' \<and> equalCI (pf_requestorName f) ''unknown'' \<and> pf_requestorPid f > 0)
                in m\<lparr>pd_requestor := (if weakIdentity then ''Requested by process '' @ showInt (pf_requestorPid f)
                                     else ''Requested by '' @ pf_requestorName f)\<rparr>
      else if pf_source f = ''polkit'' \<and> pf_requestorPid f > 0
      then m\<lparr>pd_requestor := ''Requested by process '' @ showInt (pf_requestorPid f)\<rparr>
      else m)"

section \<open>Summary and details\<close>

definition promoteDetails :: "prompt_model \<Rightarrow> prompt_model" where
  "promoteDetails m =
     (if pd_summary m = [] \<and> pd_details m \<noteq> []
      then let normalizedDetails = normalizeDetailText (pd_details m)
           in if nl \<notin> set normalizedDetails then m\<lparr>pd_summary := normalizedDetails, pd_details := []\<rparr>
              else m\<lparr>pd_summary := trimmed (takeWhile (\<lambda>c. c \<noteq> nl) normalizedDetails),
                     pd_details := trimmed (drop 1 (dropWhile (\<lambda>c. c \<noteq> nl) normalizedDetails))\<rparr>
      else m)"

definition dropRepeatedLine :: "prompt_model \<Rightarrow> prompt_model" where
  "dropRepeatedLine m =
     (if pd_summary m \<noteq> [] \<and> pd_details m \<noteq> []
      then let detailLines = splitOn nl (normalizeDetailText (pd_details m));
               m = (if textEquivalent (hd detailLines) (pd_summary m)
                    then m\<lparr>pd_details := trimmed (joinWith [nl] (tl detailLines))\<rparr> else m)
           in if textEquivalent (pd_summary m) (pd_details m) then m\<lparr>pd_details := []\<rparr> else m
      else m)"

definition addDetails :: "string \<Rightarrow> prompt_model \<Rightarrow> prompt_model" where
  "addDetails txt m = m\<lparr>pd_details := (if pd_details m = [] then txt else uniqueJoined [pd_details m, txt])\<rparr>"

definition addInfo :: "prompt_facts \<Rightarrow> prompt_model \<Rightarrow> prompt_model" where
  "addInfo f m =
     (if pf_infoText f \<noteq> [] \<and> \<not> textEquivalent (pf_infoText f) (pd_summary m) \<and> \<not> textEquivalent (pf_infoText f) (pd_details m)
      then addDetails (pf_infoText f) m else m)"

definition addAction :: "prompt_facts \<Rightarrow> prompt_model \<Rightarrow> prompt_model" where
  "addAction f m =
     (if pf_source f = ''polkit''
      then let m = (if isGenericAuthSummary (pd_summary m) \<and> pf_actionSummary f \<noteq> []
                    then m\<lparr>pd_summary := pf_actionSummary f\<rparr> else m);
               actionLines =
                 (if pf_actionSummary f \<noteq> [] then [''Action: '' @ pf_actionSummary f] else [])
                 @ (if pf_actionId f \<noteq> [] \<and> \<not> equalCI (pf_actionId f) (pf_actionSummary f) then [''Policy: '' @ pf_actionId f] else [])
                 @ (if pf_actionUser f \<noteq> [] then [''Authenticate as '' @ pf_actionUser f] else []);
               actionDetails = uniqueJoined actionLines
           in if actionDetails \<noteq> [] then addDetails actionDetails m else m
      else m)"

definition inputPrompt :: "jobject \<Rightarrow> prompt_facts \<Rightarrow> prompt_model \<Rightarrow> prompt_model" where
  "inputPrompt event f m =
     (let m = (if pf_source f = ''pinentry''
               then let eventPrompt = trimmed (toStr (jvalue event ''prompt''));
                        pinPrompt = (if eventPrompt = [] then trimmed (toStr (jvalue (pf_context f) ''message'')) else eventPrompt)
                    in m\<lparr>pd_prompt := (if pinPrompt = [] then ''Passphrase:'' else pinPrompt)\<rparr>
               else if pf_source f = ''polkit'' \<and> pf_touchHint f
               then m\<lparr>pd_prompt := ''Press Enter to continue (or wait)'', pd_allowEmptyResponse := True\<rparr>
               else m\<lparr>pd_prompt := ''Password:''\<rparr>);
          m = m\<lparr>pd_passphrasePrompt := (pf_source f = ''pinentry'' \<or> containsCI (pd_prompt m) ''passphrase'')\<rparr>
      in if pf_source f = ''polkit'' \<and> pf_touchHint f then m\<lparr>pd_passphrasePrompt := False\<rparr> else m)"

definition buildPrompt :: "jobject \<Rightarrow> prompt_model" where
  "buildPrompt event =
     (let f = promptFacts event;
          m = emptyPromptModel\<lparr>pd_intent := promptIntent f\<rparr>;
          m = requestorLine f (intentTexts f m);
          m = dropRepeatedLine (promoteDetails m);
          m = addAction f (addInfo f m)
      in inputPrompt event f m)"

section \<open>What every prompt has\<close>

lemma step_frames [simp]:
  "pd_title (requestorLine f m) = pd_title m" "pd_intent (requestorLine f m) = pd_intent m"
  "pd_title (promoteDetails m) = pd_title m" "pd_intent (promoteDetails m) = pd_intent m"
  "pd_title (dropRepeatedLine m) = pd_title m" "pd_intent (dropRepeatedLine m) = pd_intent m"
  "pd_title (addInfo f m) = pd_title m" "pd_intent (addInfo f m) = pd_intent m"
  "pd_title (addAction f m) = pd_title m" "pd_intent (addAction f m) = pd_intent m"
  "pd_title (inputPrompt e f m) = pd_title m" "pd_intent (inputPrompt e f m) = pd_intent m"
  by (simp_all add: requestorLine_def promoteDetails_def dropRepeatedLine_def addInfo_def addAction_def addDetails_def
      inputPrompt_def Let_def)

lemma allow_frames [simp]:
  "pd_allowEmptyResponse (requestorLine f m) = pd_allowEmptyResponse m"
  "pd_allowEmptyResponse (promoteDetails m) = pd_allowEmptyResponse m"
  "pd_allowEmptyResponse (dropRepeatedLine m) = pd_allowEmptyResponse m"
  "pd_allowEmptyResponse (addInfo f m) = pd_allowEmptyResponse m"
  "pd_allowEmptyResponse (addAction f m) = pd_allowEmptyResponse m"
  "pd_allowEmptyResponse (intentTexts f m) = pd_allowEmptyResponse m"
  by (simp_all add: requestorLine_def promoteDetails_def dropRepeatedLine_def addInfo_def addAction_def addDetails_def
      intentTexts_def pinentryTexts_def genericTexts_def Let_def)

lemma intentTexts_title: "pd_title (intentTexts f m) \<noteq> []"
  by (simp add: intentTexts_def pinentryTexts_def genericTexts_def Let_def)

lemma intentTexts_intent [simp]: "pd_intent (intentTexts f m) = pd_intent m"
  by (simp add: intentTexts_def pinentryTexts_def genericTexts_def Let_def)

lemma inputPrompt_allow:
  "pd_allowEmptyResponse (inputPrompt e f m) = (pf_source f = ''polkit'' \<and> pf_touchHint f \<or> pd_allowEmptyResponse m)"
  "pd_prompt (inputPrompt e f m) \<noteq> []"
  by (auto simp: inputPrompt_def Let_def)

text \<open>Every event gets a title and an input prompt; an empty answer is accepted exactly for polkit
  prompts that hint at a touch, fingerprint or security key, so never for a passphrase or a keyring;
  and the intent is one its source can have.\<close>

theorem prompt_shape:
  "pd_title (buildPrompt event) \<noteq> [] \<and> pd_prompt (buildPrompt event) \<noteq> []
   \<and> pd_allowEmptyResponse (buildPrompt event)
      = (toStr (jvalue event ''source'') = ''polkit'' \<and> pf_touchHint (promptFacts event))
   \<and> pd_intent (buildPrompt event) \<in>
      (if toStr (jvalue event ''source'') = ''polkit'' then {Generic, Unlock, RunCommand, Fingerprint, Fido2}
       else if toStr (jvalue event ''source'') = ''pinentry'' then {Generic, OpenPgp}
       else if toStr (jvalue event ''source'') = ''keyring'' then {Generic, Unlock} else {Generic})"
proof -
  have src: "pf_source (promptFacts event) = toStr (jvalue event ''source'')" by (simp add: promptFacts_def Let_def)
  have i: "pd_intent (buildPrompt event) = promptIntent (promptFacts event)" by (simp add: buildPrompt_def Let_def)
  have "pd_title (buildPrompt event) \<noteq> []" by (simp add: buildPrompt_def Let_def intentTexts_title)
  moreover have "pd_prompt (buildPrompt event) \<noteq> []" by (simp add: buildPrompt_def Let_def inputPrompt_allow)
  moreover have "pd_allowEmptyResponse (buildPrompt event)
      = (toStr (jvalue event ''source'') = ''polkit'' \<and> pf_touchHint (promptFacts event))"
    by (simp add: buildPrompt_def Let_def inputPrompt_allow src emptyPromptModel_def)
  ultimately show ?thesis unfolding i by (auto simp: promptIntent_def src)
qed

section \<open>Unlock targets\<close>

lemma unlock_literal: "litCI ''unlock'' (''Unlock '' @ t) = Some (CHR '' '' # t)"
  by (simp add: litCI_def toLower_def lowerChar_def Let_def char_of_def bit_0)

lemma simplified_head:
  assumes "simplified t = t" and "t \<noteq> []" shows "\<not> isSpace (hd t)" and "\<not> isSpace (last t)"
proof -
  have w: "isWord v" if "v \<in> set (spaceWords [] t)" for v using spaceWords_words [OF _ that] by simp
  have t: "t = joinWith '' '' (spaceWords [] t)" using assms(1) by (simp add: simplified_def)
  then have n: "spaceWords [] t \<noteq> []" using assms(2) by (metis joinWith.simps(1))
  have j: "hd (joinWith '' '' (v # vs)) = hd v" if "v \<noteq> []" for v vs
    using that by (cases vs) auto
  have l: "last (joinWith '' '' vs) = last (last vs)" if "vs \<noteq> []" "\<And>v. v \<in> set vs \<Longrightarrow> v \<noteq> []" for vs
    using that
  proof (induction "'' ''" vs rule: joinWith.induct)
    case (3 w v ws)
    have "joinWith '' '' (v # ws) \<noteq> []" using 3(3) by (cases ws) auto
    with 3 show ?case by auto
  qed auto
  obtain v vs where v: "spaceWords [] t = v # vs" using n by (cases "spaceWords [] t") auto
  have "isWord v" using w v by simp
  then show "\<not> isSpace (hd t)" using t j [of v vs] by (cases v) (auto simp: isWord_def v)
  have "isWord (last (spaceWords [] t))" using w n by simp
  moreover have "last t = last (last (spaceWords [] t))" using t l [OF n] w by (metis isWord_def)
  ultimately show "\<not> isSpace (last t)" by (auto simp: isWord_def list_all_iff)
qed

lemma trimmed_simplified:
  assumes "simplified t = t" shows "trimmed t = t"
proof (cases "t = []")
  case False
  then have "dropWhile isSpace t = t" "dropWhile isSpace (rev t) = rev t"
    using simplified_head [OF assms] by (simp_all add: dropWhile_eq_self_iff hd_rev)
  then show ?thesis by (simp add: trimmed_def)
qed (simp add: trimmed_def)

lemma simplified_unlock:
  assumes "simplified t = t" and "t \<noteq> []" shows "simplified (''Unlock '' @ t) = ''Unlock '' @ t"
proof -
  have u: "list_all (\<lambda>c. \<not> isSpace c) ''Unlock''" by (simp add: isSpace_def Let_def)
  have "spaceWords [] (''Unlock'' @ '' '' @ t) = ''Unlock'' # spaceWords [] t"
    using spaceWords_append [OF u, of "[]" "'' '' @ t"] by simp
  moreover obtain v vs where "spaceWords [] t = v # vs"
    using assms by (cases "spaceWords [] t") (auto simp: simplified_def)
  ultimately show ?thesis using assms(1) by (simp add: simplified_def)
qed

lemma normalize_line:
  assumes "simplified s = s" and "s \<noteq> []" shows "normalizeDetailText s = s"
proof -
  have "nl \<notin> set s" "CHR 0x0D \<notin> set s" using simplified_line [of s] assms(1) by simp_all
  moreover from this have "map (\<lambda>c. if c = CHR 0x0D then nl else c) s = s" by (intro map_idI) auto
  ultimately show ?thesis using assms by (simp add: normalizeDetailText_def splitOn_none)
qed

text \<open>The target shown in an unlock title is the one the text names: from \<open>Unlock t\<close> the extractor
  reads back exactly \<open>t\<close>, for every clean \<open>t\<close> that does not end with a full stop.\<close>

theorem unlock_target_roundtrip:
  assumes "simplified t = t" and "t \<noteq> []" and "\<not> endsWith t ''.''"
  shows "extractUnlockTarget (''Unlock '' @ t) = t"
proof -
  have nb: "\<not> isBlank (hd t)" using simplified_head(1) [OF assms(1,2)] by (auto simp: isBlank_def isSpace_def Let_def)
  have "blanks1 (CHR '' '' # t) = Some t"
    using nb assms(2) by (cases t) (auto simp: blanks1_def many1_def spanOf_def isBlank_def Let_def)
  moreover have "many1 (\<lambda>c. c \<noteq> nl) t = Some (t, [])"
  proof -
    have "\<forall>c\<in>set t. c \<noteq> nl" using simplified_line(1) [of t] assms(1) by auto
    then have "takeWhile (\<lambda>c. c \<noteq> nl) t = t" "dropWhile (\<lambda>c. c \<noteq> nl) t = []"
      by (simp_all add: takeWhile_eq_all_conv)
    then show ?thesis using assms(2) unfolding many1_def spanOf_def by (simp only: prod.case Let_def if_False)
  qed
  ultimately have "unlockAt (''Unlock '' @ t) = Some t"
    using unlock_literal [of t] by (simp add: unlockAt_def)
  then have "captureFirst (''Unlock '' @ t) unlockAt = t"
    using trimmed_simplified [OF assms(1)] by (simp add: captureFirst_def)
  then show ?thesis
    using normalize_line [OF simplified_unlock [OF assms(1,2)]] trimmed_simplified [OF assms(1)] assms(2,3)
    by (simp add: extractUnlockTarget_def Let_def)
qed

theorem unlock_target_roundtrip_witness: "extractUnlockTarget ''Unlock Login keyring'' = ''Login keyring''"
proof -
  have "simplified ''Login keyring'' = ''Login keyring''" "\<not> endsWith ''Login keyring'' ''.''"
    by (simp_all add: simplified_def isSpace_def Let_def endsWith_def startsWith_def)
  then show ?thesis using unlock_target_roundtrip [of "''Login keyring''"] by simp
qed

end
