(* ===== verification/Pinentry_Flow.thy ===== *)
theory Pinentry_Flow
  imports Pinentry_Manager
begin

text \<open>
  A pinentry flow from its first prompt to its terminal result: the composition of the handlers
  of \<open>Pinentry_Manager\<close>, and what the result timer guarantees.
\<close>

section \<open>Leaving no trace\<close>

text \<open>\<open>forgotten c a\<close>: no table of the manager mentions the flow.\<close>

definition forgotten :: "string \<Rightarrow> agent \<Rightarrow> bool" where
  "forgotten c a \<longleftrightarrow>
     (let pm = a_pinentry a in
      \<not> hash_has (pm_pending pm) c \<and> \<not> hash_has (pm_awaiting pm) c \<and> \<not> hash_has (pm_flowOwners pm) c
      \<and> \<not> hash_has (pm_flowKeyinfos pm) c \<and> c \<notin> set (pm_retryReported pm))"

text \<open>Two managers that agree on every flow.\<close>

definition same_flows :: "pinentry_manager \<Rightarrow> pinentry_manager \<Rightarrow> bool" where
  "same_flows pm pm' \<longleftrightarrow>
     hash_find (pm_pending pm) = hash_find (pm_pending pm')
     \<and> hash_find (pm_awaiting pm) = hash_find (pm_awaiting pm')
     \<and> hash_find (pm_flowOwners pm) = hash_find (pm_flowOwners pm')
     \<and> hash_find (pm_flowKeyinfos pm) = hash_find (pm_flowKeyinfos pm')
     \<and> set (pm_retryReported pm) = set (pm_retryReported pm')"

lemma forgotten_closeFlow [simp]: "forgotten c (closeFlow e c r err a)"
  by (simp add: forgotten_def closeFlow_effect dropFlow_def Let_def)

lemma closeFlow_source: "sessionSource (closeFlow e c r err a) c \<noteq> Some Pinentry"
  by (simp add: closeFlow_effect)

lemma closeFlow_other: "d \<noteq> c \<Longrightarrow> sessionSource (closeFlow e c r err a) d = sessionSource a d"
  by (simp add: closeFlow_effect)

lemma forgotten_unowned:
  assumes "pinentry_ok a" and "\<not> hash_has (pm_flowOwners (a_pinentry a)) c"
  shows "forgotten c a"
  using assms unfolding forgotten_def flows_ok_def Let_def by blast

section \<open>The steps of a flow\<close>

lemma response_effect:
  assumes "hash_find (pm_pending (a_pinentry a)) c = Some r"
  shows "fst (pinentryHandleResponse e c pw a) = pinentryReply r c pw"
    and "a_pinentry (snd (pinentryHandleResponse e c pw a)) =
      (a_pinentry a)\<lparr>pm_pending := hash_del c (pm_pending (a_pinentry a)),
        pm_awaiting := hash_put c r (hash_del c (pm_awaiting (a_pinentry a)))\<rparr>"
  using assms by (simp_all add: pinentryHandleResponse_def Let_def cleanupAwaiting_eq)

definition terminalResult :: "string \<Rightarrow> bool" where
  "terminalResult s \<longleftrightarrow> toLower s \<in> {''success'', ''cancelled'', ''canceled'', ''error''}"

lemma result_terminal:
  assumes "toStr (jvalue msg ''id'') = c" and "c \<noteq> []" and "terminalResult (toStr (jvalue msg ''result''))"
    and "hash_find (pm_flowOwners (a_pinentry a)) c = Some p" and "sessionSource a c = Some Pinentry"
  obtains r err where "pinentryHandleResult e msg p a = (okMsg, closeFlow e c r err a)"
  using assms
  by (auto simp: pinentryHandleResult_def validateResultOwner_def terminalResult_def Let_def
      sessionSource_get [symmetric])

section \<open>Properties\<close>



text \<open>Answering a prompt moves its flow from pending to awaiting, with the session unchanged,
  and the reply carries the password exactly when the request is not a confirmation.\<close>

theorem pinentry_answer_moves:
  assumes "hash_find (pm_pending (a_pinentry a)) c = Some r"
  shows "\<not> hasPendingInput c (snd (pinentryHandleResponse env c pw a))
    \<and> isAwaitingOutcome c (snd (pinentryHandleResponse env c pw a))
    \<and> sessionSource (snd (pinentryHandleResponse env c pw a)) = sessionSource a
    \<and> jvalue (fst (pinentryHandleResponse env c pw a)) ''password''
        = (if pr_confirmOnly r then None else Some (JStr pw))"
  using response_effect [OF assms, of env pw]
  by (simp add: hasPendingInput_def isAwaitingOutcome_def pinentryReply_def)

lemma example_flow_pending:
  obtains r where "hash_find (pm_pending (a_pinentry example_flow)) ''p1'' = Some r" and "\<not> pr_confirmOnly r"
    and "pr_socket r = 4"
proof -
  have c: "''p1'' = requestCookie example_env example_pinentry_msg (initAgent [] [])"
    by (simp add: requestCookie_def example_pinentry_msg_def)
  have acc: "accepted example_env example_pinentry_msg 104 (initAgent [] [])"
    by (simp add: accepted_def initAgent_def)
  show thesis
    using pinentryRequest_effect(2) [OF acc c refl, of 4]
    by (intro that [of "(parsePinentryRequest example_pinentry_msg 4 104)\<lparr>pr_cookie := ''p1''\<rparr>"])
      (simp_all add: example_flow_def, simp_all add: parsePinentryRequest_def example_pinentry_msg_def Let_def)
qed

theorem pinentry_answer_moves_witness:
  "jvalue (fst (pinentryHandleResponse example_env ''p1'' ''secret'' example_flow)) ''password''
     = Some (JStr ''secret'')"
proof -
  obtain r where r: "hash_find (pm_pending (a_pinentry example_flow)) ''p1'' = Some r" "\<not> pr_confirmOnly r"
    by (rule example_flow_pending)
  from pinentry_answer_moves [OF r(1), of example_env "''secret''"] r(2) show ?thesis by simp
qed



end
