(* ===== verification/Polkit_Listener.thy ===== *)
theory Polkit_Listener
  imports Session_Services
begin

text \<open>
  The polkit agent, \<^verbatim>\<open>src/core/PolkitListener.cpp\<close>: one state per cookie that polkit asks
  about, driven by the signals of a \<^verbatim>\<open>PolkitQt1::Agent::Session\<close>, which is replaced after
  each failed attempt, three attempts at most.

  A \<^verbatim>\<open>SessionState*\<close> is represented by its cookie, the key under which it is stored; a use of
  the pointer after the state was deleted is a lookup that fails, and sets \<open>a_fault\<close>.  Whether
  \<^verbatim>\<open>Session::cancel()\<close> emits \<^verbatim>\<open>completed(false)\<close> before it returns is up to polkit:
  the field \<open>e_cancelEmitsCompleted\<close> of the environment.
\<close>

section \<open>Operations\<close>

definition MAX_AUTH_RETRIES :: int where
  "MAX_AUTH_RETRIES = 3"

definition findState :: "string \<Rightarrow> agent \<Rightarrow> pk_state option" where
  "findState cookie a = hash_find (pl_cookieToState (a_listener a)) cookie"

definition putState :: "string \<Rightarrow> pk_state \<Rightarrow> agent \<Rightarrow> agent" where
  "putState cookie st a =
     a\<lparr>a_listener := (a_listener a)\<lparr>pl_cookieToState := hash_put cookie st (pl_cookieToState (a_listener a))\<rparr>\<rparr>"

definition removeState :: "string \<Rightarrow> agent \<Rightarrow> agent" where
  "removeState cookie a =
     a\<lparr>a_listener := (a_listener a)\<lparr>pl_cookieToState := hash_del cookie (pl_cookieToState (a_listener a))\<rparr>\<rparr>"

text \<open>\<^verbatim>\<open>new Session(\<dots>)\<close> with its entry in \<^verbatim>\<open>m_sessionToState\<close>, and the removal of one.\<close>

definition newPkSession :: "string \<Rightarrow> agent \<Rightarrow> nat \<times> agent" where
  "newPkSession cookie a =
     (let l = a_listener a; n = pl_nextSession l
      in (n, a\<lparr>a_listener := l\<lparr>pl_sessionToState := hash_put n cookie (pl_sessionToState l),
                               pl_nextSession := Suc n\<rparr>\<rparr>))"

definition dropPkSession :: "nat \<Rightarrow> agent \<Rightarrow> agent" where
  "dropPkSession session a =
     (if session = 0 then a
      else a\<lparr>a_listener := (a_listener a)\<lparr>pl_sessionToState := hash_del session (pl_sessionToState (a_listener a))\<rparr>\<rparr>)"

definition pkCall :: "polkit_call \<Rightarrow> agent \<Rightarrow> agent" where
  "pkCall c a = a\<lparr>a_polkit := a_polkit a @ [c]\<rparr>"

definition reattempt :: "string \<Rightarrow> agent \<Rightarrow> agent" where
  "reattempt cookie a =
     (case findState cookie a of
        None \<Rightarrow> a\<lparr>a_fault := True\<rparr>
      | Some st \<Rightarrow> pkCall (PkInitiate (pk_session st)) (putState cookie (st\<lparr>pk_cancelled := False\<rparr>) a))"

definition initiateAuthentication ::
  "env \<Rightarrow> string \<Rightarrow> string \<Rightarrow> string \<Rightarrow> (string, string) hash \<Rightarrow> string \<Rightarrow> string list \<Rightarrow> agent \<Rightarrow> agent" where
  "initiateAuthentication env actionId message iconName details cookie identities a =
     (if hash_has (pl_cookieToState (a_listener a)) cookie
      then pkCall (PkResultCompleted cookie) (pkCall (PkResultError cookie ''Duplicate session'') a)
      else if identities = []
      then pkCall (PkResultCompleted cookie) (pkCall (PkResultError cookie
             ''No identities, this is a problem with your system configuration.'') a)
      else
        let user = hd identities;
            (session, a) = newPkSession cookie a;
            st = \<lparr>pk_inProgress = True, pk_cancelled = False, pk_gainedAuth = False, pk_cookie = cookie,
                  pk_message = message, pk_iconName = iconName, pk_actionId = actionId, pk_prompt = [],
                  pk_errorText = [], pk_echoOn = False, pk_requestSent = False, pk_selectedUser = user,
                  pk_session = session, pk_retryCount = 0\<rparr>;
            a = putState cookie st a;
            (accepted, a) = onPolkitRequest env cookie message iconName actionId user details a
        in if \<not> accepted
           then pkCall (PkResultCompleted cookie) (pkCall (PkResultError cookie ''Duplicate session'')
                  (dropPkSession session (removeState cookie a)))
           else reattempt cookie a)"

text \<open>The end of \<^verbatim>\<open>finishAuth\<close>: report to polkit and to the agent, then delete the state.\<close>

definition finishCleanup :: "env \<Rightarrow> string \<Rightarrow> pk_state \<Rightarrow> agent \<Rightarrow> agent" where
  "finishCleanup env cookie st a =
     (let a = putState cookie (st\<lparr>pk_inProgress := False\<rparr>) a;
          a = pkCall (PkResultCompleted cookie) a;
          a = dropPkSession (pk_session st) a;
          a = onSessionComplete env cookie (pk_gainedAuth st) a
      in removeState cookie a)"

definition finishAuth :: "env \<Rightarrow> string \<Rightarrow> agent \<Rightarrow> agent" where
  "finishAuth env cookie a =
     (case findState cookie a of
        None \<Rightarrow> a\<lparr>a_fault := True\<rparr>
      | Some st \<Rightarrow>
          if \<not> pk_inProgress st then a
          else if \<not> pk_gainedAuth st \<and> \<not> pk_cancelled st
          then
            let st = st\<lparr>pk_retryCount := pk_retryCount st + 1\<rparr>
            in if pk_retryCount st < MAX_AUTH_RETRIES
               then let a = dropPkSession (pk_session st) a;
                        (session, a) = newPkSession cookie a
                    in reattempt cookie (putState cookie (st\<lparr>pk_session := session\<rparr>) a)
               else let st = st\<lparr>pk_errorText := ''Too many failed attempts''\<rparr>
                    in finishCleanup env cookie st (onSessionRetry env cookie (pk_errorText st) (putState cookie st a))
          else finishCleanup env cookie st a)"

definition findStateForSession :: "nat \<Rightarrow> agent \<Rightarrow> (string \<times> pk_state) option" where
  "findStateForSession session a =
     (case hash_find (pl_sessionToState (a_listener a)) session of
        None \<Rightarrow> None
      | Some cookie \<Rightarrow> map_option (\<lambda>st. (cookie, st)) (findState cookie a))"

definition plSessionRequest :: "env \<Rightarrow> nat \<Rightarrow> string \<Rightarrow> bool \<Rightarrow> agent \<Rightarrow> agent" where
  "plSessionRequest env session request echo a =
     (case findStateForSession session a of
        None \<Rightarrow> a
      | Some (cookie, st) \<Rightarrow>
          onSessionRequest env cookie request echo
            (putState cookie (st\<lparr>pk_prompt := request, pk_echoOn := echo, pk_requestSent := True\<rparr>) a))"

definition plSessionCompleted :: "env \<Rightarrow> nat \<Rightarrow> bool \<Rightarrow> agent \<Rightarrow> agent" where
  "plSessionCompleted env session gained a =
     (case findStateForSession session a of
        None \<Rightarrow> a
      | Some (cookie, st) \<Rightarrow>
          let st = st\<lparr>pk_gainedAuth := gained\<rparr>;
              a = (if \<not> gained
                   then let st = st\<lparr>pk_errorText := ''Authentication failed''\<rparr>
                        in onSessionRetry env cookie (pk_errorText st) (putState cookie st a)
                   else putState cookie st a)
          in finishAuth env cookie a)"

definition plSessionError :: "env \<Rightarrow> nat \<Rightarrow> string \<Rightarrow> agent \<Rightarrow> agent" where
  "plSessionError env session txt a =
     (case findStateForSession session a of
        None \<Rightarrow> a
      | Some (cookie, st) \<Rightarrow> onSessionRetry env cookie txt (putState cookie (st\<lparr>pk_errorText := txt\<rparr>) a))"

definition plSessionInfo :: "env \<Rightarrow> nat \<Rightarrow> string \<Rightarrow> agent \<Rightarrow> agent" where
  "plSessionInfo env session txt a =
     (case findStateForSession session a of
        None \<Rightarrow> a
      | Some (cookie, st) \<Rightarrow> onSessionInfo env cookie txt a)"

definition submitPassword :: "string \<Rightarrow> string \<Rightarrow> agent \<Rightarrow> agent" where
  "submitPassword cookie pass a =
     (case findState cookie a of
        None \<Rightarrow> a
      | Some st \<Rightarrow> if pk_session st = 0 then a else pkCall (PkResponse (pk_session st) pass) a)"

text \<open>\<^verbatim>\<open>state->cancelled = true; finishAuth(state);\<close>\<close>

definition markCancelledAndFinish :: "env \<Rightarrow> string \<Rightarrow> agent \<Rightarrow> agent" where
  "markCancelledAndFinish env cookie a =
     (case findState cookie a of
        None \<Rightarrow> a\<lparr>a_fault := True\<rparr>
      | Some st \<Rightarrow> finishAuth env cookie (putState cookie (st\<lparr>pk_cancelled := True\<rparr>) a))"

definition cancelPending :: "env \<Rightarrow> string \<Rightarrow> agent \<Rightarrow> agent" where
  "cancelPending env cookie a =
     (case findState cookie a of
        None \<Rightarrow> a
      | Some st \<Rightarrow>
          if pk_session st = 0 then a
          else
            let a = pkCall (PkCancel (pk_session st)) a;
                a = (if e_cancelEmitsCompleted env then plSessionCompleted env (pk_session st) False a else a)
            in markCancelledAndFinish env cookie a)"

definition cancelAuthentication :: "env \<Rightarrow> agent \<Rightarrow> agent" where
  "cancelAuthentication env a =
     fold (markCancelledAndFinish env) (hash_keys (pl_cookieToState (a_listener a))) a"

section \<open>Frames\<close>

lemma listener_prims [simp]:
  "a_store (putState c st a) = a_store a" "a_store (removeState c a) = a_store a"
  "a_store (dropPkSession n a) = a_store a" "a_store (pkCall k a) = a_store a"
  "a_keyring (putState c st a) = a_keyring a" "a_keyring (removeState c a) = a_keyring a"
  "a_keyring (dropPkSession n a) = a_keyring a" "a_keyring (pkCall k a) = a_keyring a"
  "a_pinentry (putState c st a) = a_pinentry a" "a_pinentry (removeState c a) = a_pinentry a"
  "a_pinentry (dropPkSession n a) = a_pinentry a" "a_pinentry (pkCall k a) = a_pinentry a"
  "a_subscribers (putState c st a) = a_subscribers a" "a_subscribers (removeState c a) = a_subscribers a"
  "a_subscribers (dropPkSession n a) = a_subscribers a" "a_subscribers (pkCall k a) = a_subscribers a"
  "a_fault (putState c st a) = a_fault a" "a_fault (removeState c a) = a_fault a"
  "a_fault (dropPkSession n a) = a_fault a" "a_fault (pkCall k a) = a_fault a"
  "a_polkit (putState c st a) = a_polkit a" "a_polkit (removeState c a) = a_polkit a"
  "a_polkit (dropPkSession n a) = a_polkit a" "a_polkit (pkCall k a) = a_polkit a @ [k]"
  "a_listener (pkCall k a) = a_listener a"
  "core_ok (putState c st a) = core_ok a" "core_ok (removeState c a) = core_ok a"
  "core_ok (dropPkSession n a) = core_ok a" "core_ok (pkCall k a) = core_ok a"
  by (simp_all add: putState_def removeState_def dropPkSession_def pkCall_def)

lemma newPk_prims [simp]:
  "a_store (snd (newPkSession c a)) = a_store a" "a_keyring (snd (newPkSession c a)) = a_keyring a"
  "a_pinentry (snd (newPkSession c a)) = a_pinentry a" "a_fault (snd (newPkSession c a)) = a_fault a"
  "a_subscribers (snd (newPkSession c a)) = a_subscribers a" "a_polkit (snd (newPkSession c a)) = a_polkit a"
  "core_ok (snd (newPkSession c a)) = core_ok a" "fst (newPkSession c a) = pl_nextSession (a_listener a)"
  by (simp_all add: newPkSession_def Let_def)

lemma listener_view [simp]:
  "sessionSource (putState c st a) = sessionSource a" "sessionSource (removeState c a) = sessionSource a"
  "sessionSource (dropPkSession n a) = sessionSource a" "sessionSource (pkCall k a) = sessionSource a"
  "sessionSource (snd (newPkSession c a)) = sessionSource a"
  by (rule sessionSource_store, simp)+

lemma findState_prims [simp]:
  "findState d (putState c st a) = (if d = c then Some st else findState d a)"
  "findState d (removeState c a) = (if d = c then None else findState d a)"
  "findState d (dropPkSession n a) = findState d a" "findState d (pkCall k a) = findState d a"
  "findState d (snd (newPkSession c a)) = findState d a"
  "findState d (onSessionRetry e c t a) = findState d a"
  "findState d (onSessionRequest e c t b a) = findState d a"
  "findState d (onSessionInfo e c t a) = findState d a"
  "findState d (onSessionComplete e c ok a) = findState d a"
  "findState d (a\<lparr>a_fault := ft\<rparr>) = findState d a"
  by (simp_all add: findState_def putState_def removeState_def dropPkSession_def pkCall_def newPkSession_def
      onSessionRetry_def onSessionRequest_def onSessionInfo_def Let_def)

definition pkSessions :: "agent \<Rightarrow> nat \<Rightarrow> string option" where
  "pkSessions a n = hash_find (pl_sessionToState (a_listener a)) n"

lemma pkSessions_prims [simp]:
  "pkSessions (putState c st a) = pkSessions a" "pkSessions (removeState c a) = pkSessions a"
  "pkSessions (dropPkSession n a) = (if n = 0 then pkSessions a else (pkSessions a)(n := None))"
  "pkSessions (pkCall k a) = pkSessions a"
  "pkSessions (snd (newPkSession c a)) = (pkSessions a)(pl_nextSession (a_listener a) \<mapsto> c)"
  "pkSessions (onSessionRetry e c t a) = pkSessions a"
  "pkSessions (onSessionRequest e c t b a) = pkSessions a"
  "pkSessions (onSessionInfo e c t a) = pkSessions a"
  "pkSessions (onSessionComplete e c ok a) = pkSessions a"
  "pkSessions (a\<lparr>a_fault := ft\<rparr>) = pkSessions a"
  by (auto simp: pkSessions_def putState_def removeState_def dropPkSession_def pkCall_def newPkSession_def
      onSessionRetry_def onSessionRequest_def onSessionInfo_def Let_def fun_eq_iff)

abbreviation nextPk :: "agent \<Rightarrow> nat" where
  "nextPk a \<equiv> pl_nextSession (a_listener a)"

lemma nextPk_prims [simp]:
  "nextPk (putState c st a) = nextPk a" "nextPk (removeState c a) = nextPk a"
  "nextPk (dropPkSession n a) = nextPk a" "nextPk (snd (newPkSession c a)) = Suc (nextPk a)"
  by (simp_all add: putState_def removeState_def dropPkSession_def newPkSession_def Let_def)

abbreviation states_wf :: "agent \<Rightarrow> bool" where
  "states_wf a \<equiv> hash_wf (pl_cookieToState (a_listener a))"

lemma states_wf_prims [simp]:
  "states_wf a \<Longrightarrow> states_wf (putState c st a)" "states_wf a \<Longrightarrow> states_wf (removeState c a)"
  "states_wf (dropPkSession n a) = states_wf a" "states_wf (snd (newPkSession c a)) = states_wf a"
  by (auto simp: putState_def removeState_def dropPkSession_def newPkSession_def Let_def intro: hash_wf_intros)

lemma retry_update_frame [simp]:
  "a_listener (onSessionRetry e c t a) = a_listener a" "a_listener (onSessionRequest e c t b a) = a_listener a"
  "a_listener (onSessionInfo e c t a) = a_listener a"
  "a_keyring (onSessionRetry e c t a) = a_keyring a" "a_keyring (onSessionRequest e c t b a) = a_keyring a"
  "a_keyring (onSessionInfo e c t a) = a_keyring a"
  "a_pinentry (onSessionRetry e c t a) = a_pinentry a" "a_pinentry (onSessionRequest e c t b a) = a_pinentry a"
  "a_pinentry (onSessionInfo e c t a) = a_pinentry a"
  "a_fault (onSessionRetry e c t a) = a_fault a" "a_fault (onSessionRequest e c t b a) = a_fault a"
  "a_fault (onSessionInfo e c t a) = a_fault a"
  "a_polkit (onSessionRetry e c t a) = a_polkit a" "a_polkit (onSessionRequest e c t b a) = a_polkit a"
  "a_polkit (onSessionInfo e c t a) = a_polkit a"
  by (simp_all add: onSessionRetry_def onSessionRequest_def onSessionInfo_def)

section \<open>What the operations do\<close>

text \<open>The transition of one state when its authentication ends: it either retries or is gone.\<close>

definition retries :: "pk_state \<Rightarrow> bool" where
  "retries st \<longleftrightarrow> \<not> pk_gainedAuth st \<and> \<not> pk_cancelled st \<and> pk_retryCount st + 1 < MAX_AUTH_RETRIES"

definition nextAttempt :: "nat \<Rightarrow> pk_state \<Rightarrow> pk_state" where
  "nextAttempt n st = st\<lparr>pk_retryCount := pk_retryCount st + 1, pk_session := n, pk_cancelled := False\<rparr>"

lemma finishCleanup_effect:
  assumes "0 < pk_session st"
  shows "findState d (finishCleanup e c st a) = (if d = c then None else findState d a)"
    and "pkSessions (finishCleanup e c st a) = (pkSessions a)(pk_session st := None)"
    and "sessionSource (finishCleanup e c st a) = (sessionSource a)(c := None)"
    and "nextPk (finishCleanup e c st a) = nextPk a" and "states_wf a \<Longrightarrow> states_wf (finishCleanup e c st a)"
    and "a_polkit (finishCleanup e c st a) = a_polkit a @ [PkResultCompleted c]"
  using assms by (auto simp: finishCleanup_def Let_def)

lemma finishCleanup_frame [simp]:
  "a_keyring (finishCleanup e c st a) = a_keyring a" "a_pinentry (finishCleanup e c st a) = a_pinentry a"
  "a_fault (finishCleanup e c st a) = a_fault a" "core_ok a \<Longrightarrow> core_ok (finishCleanup e c st a)"
  by (simp_all add: finishCleanup_def Let_def core_ok_sessions)

lemma finishAuth_ends:
  assumes "findState c a = Some st" and "pk_inProgress st" and "\<not> retries st" and "0 < pk_session st"
  shows "findState d (finishAuth e c a) = (if d = c then None else findState d a)"
    and "pkSessions (finishAuth e c a) = (pkSessions a)(pk_session st := None)"
    and "sessionSource (finishAuth e c a) = (sessionSource a)(c := None)"
    and "nextPk (finishAuth e c a) = nextPk a" and "states_wf a \<Longrightarrow> states_wf (finishAuth e c a)"
    and "a_polkit (finishAuth e c a) = a_polkit a @ [PkResultCompleted c]"
  using assms by (auto simp: finishAuth_def retries_def Let_def finishCleanup_effect)

lemma finishAuth_retries:
  assumes "findState c a = Some st" and "pk_inProgress st" and "retries st" and "0 < pk_session st"
  shows "findState d (finishAuth e c a) = (if d = c then Some (nextAttempt (nextPk a) st) else findState d a)"
    and "pkSessions (finishAuth e c a) = (pkSessions a)(pk_session st := None, nextPk a \<mapsto> c)"
    and "sessionSource (finishAuth e c a) = sessionSource a"
    and "nextPk (finishAuth e c a) = Suc (nextPk a)" and "states_wf a \<Longrightarrow> states_wf (finishAuth e c a)"
    and "a_polkit (finishAuth e c a) = a_polkit a @ [PkInitiate (nextPk a)]"
  using assms
  by (auto simp: finishAuth_def retries_def nextAttempt_def reattempt_def Let_def case_prod_beta)

lemma finishAuth_frame [simp]:
  "a_keyring (finishAuth e c a) = a_keyring a" "a_pinentry (finishAuth e c a) = a_pinentry a"
  "core_ok a \<Longrightarrow> core_ok (finishAuth e c a)"
  by (auto simp: finishAuth_def reattempt_def Let_def case_prod_beta core_ok_sessions split: option.split)

lemma finishAuth_fault: "findState c a = Some st \<Longrightarrow> a_fault (finishAuth e c a) = a_fault a"
  by (simp add: finishAuth_def reattempt_def Let_def case_prod_beta)

section \<open>Invariant\<close>

text \<open>The two tables of the listener and the session store agree: a cookie has a state iff it has a
  polkit session, and each state's current session leads back to it.\<close>

definition linked :: "agent \<Rightarrow> bool" where
  "linked a \<longleftrightarrow> states_wf a \<and> 0 < nextPk a
     \<and> (\<forall>c. findState c a \<noteq> None \<longleftrightarrow> sessionSource a c = Some Polkit)
     \<and> (\<forall>c st. findState c a = Some st \<longrightarrow> pk_cookie st = c \<and> pk_inProgress st \<and> 0 < pk_session st
          \<and> pk_session st < nextPk a \<and> pkSessions a (pk_session st) = Some c)
     \<and> (\<forall>n c. pkSessions a n = Some c \<longrightarrow> (\<exists>st. findState c a = Some st \<and> pk_session st = n))"

text \<open>Between events no state is cancelled or authorised, and every one has attempts left.\<close>

definition waiting :: "pk_state \<Rightarrow> bool" where
  "waiting st \<longleftrightarrow> \<not> pk_cancelled st \<and> \<not> pk_gainedAuth st \<and> 0 \<le> pk_retryCount st
     \<and> pk_retryCount st < MAX_AUTH_RETRIES"

definition listener_ok :: "agent \<Rightarrow> bool" where
  "listener_ok a \<longleftrightarrow> linked a \<and> (\<forall>c st. findState c a = Some st \<longrightarrow> waiting st)"

lemma linkedD:
  assumes "linked a" and "findState c a = Some st"
  shows "pk_cookie st = c" and "pk_inProgress st" and "0 < pk_session st" and "pk_session st < nextPk a"
    and "pkSessions a (pk_session st) = Some c" and "sessionSource a c = Some Polkit"
proof -
  show "sessionSource a c = Some Polkit" using assms unfolding linked_def by (metis option.distinct(1))
qed (use assms in \<open>auto simp: linked_def\<close>)

lemma linked_session: "linked a \<Longrightarrow> pkSessions a n = Some c \<Longrightarrow> \<exists>st. findState c a = Some st \<and> pk_session st = n"
  by (simp add: linked_def)

lemma linked_same:
  assumes "linked a" and "\<And>c. findState c b = findState c a" and "pkSessions b = pkSessions a"
    and "sessionSource b = sessionSource a" and "nextPk b = nextPk a" and "states_wf b"
  shows "linked b"
  using assms(1,6) unfolding linked_def assms(2-5) by blast

lemma linked_put:
  assumes "linked a" and "findState c a = Some st"
    and "pk_cookie st' = pk_cookie st" "pk_inProgress st'" "pk_session st' = pk_session st"
  shows "linked (putState c st' a)"
proof -
  note l = linkedD [OF assms(1,2)]
  have "findState d (putState c st' a) \<noteq> None \<longleftrightarrow> sessionSource (putState c st' a) d = Some Polkit" for d
    using assms(1,2) l(6) by (simp add: linked_def)
  moreover have "pk_cookie s = d \<and> pk_inProgress s \<and> 0 < pk_session s \<and> pk_session s < nextPk (putState c st' a)
      \<and> pkSessions (putState c st' a) (pk_session s) = Some d" if "findState d (putState c st' a) = Some s" for d s
    using that linkedD [OF assms(1), of d s] l assms(3-5) by (cases "d = c") simp_all
  moreover have "\<exists>s. findState d (putState c st' a) = Some s \<and> pk_session s = n"
    if "pkSessions (putState c st' a) n = Some d" for n d
    using that linked_session [OF assms(1), of n d] assms(2,5) by (cases "d = c") auto
  ultimately show ?thesis using assms(1) by (simp add: linked_def)
qed

lemma linked_gone:
  assumes l: "linked a" and st: "findState c a = Some st"
    and "\<And>d. findState d b = (if d = c then None else findState d a)"
    and "pkSessions b = (pkSessions a)(pk_session st := None)" and "sessionSource b = (sessionSource a)(c := None)"
    and "nextPk b = nextPk a" and "states_wf b"
  shows "linked b"
proof -
  have d: "pk_session st' \<noteq> pk_session st" if "findState d a = Some st'" "d \<noteq> c" for d st'
    using linkedD(5) [OF l that(1)] linkedD(5) [OF l st] that(2) by auto
  have "\<exists>st'. findState d b = Some st' \<and> pk_session st' = n" if "pkSessions b n = Some d" for n d
    using that linked_session [OF l, of n d] st by (auto simp: assms(3,4) split: if_splits)
  then show ?thesis
    using l d unfolding linked_def assms(3,5,6) by (auto simp: assms(4,7))
qed

lemma linked_retried:
  assumes l: "linked a" and st: "findState c a = Some st"
    and "\<And>d. findState d b = (if d = c then Some (nextAttempt (nextPk a) st) else findState d a)"
    and "pkSessions b = (pkSessions a)(pk_session st := None, nextPk a \<mapsto> c)" and "sessionSource b = sessionSource a"
    and "nextPk b = Suc (nextPk a)" and "states_wf b"
  shows "linked b"
proof -
  have d: "pk_session st' \<noteq> pk_session st" if "findState d a = Some st'" "d \<noteq> c" for d st'
    using linkedD(5) [OF l that(1)] linkedD(5) [OF l st] that(2) by auto
  have "\<exists>st'. findState d b = Some st' \<and> pk_session st' = n" if "pkSessions b n = Some d" for n d
    using that linked_session [OF l, of n d] st by (auto simp: assms(3,4) nextAttempt_def split: if_splits)
  moreover have "pk_cookie st' = d \<and> pk_inProgress st' \<and> 0 < pk_session st' \<and> pk_session st' < nextPk b
      \<and> pkSessions b (pk_session st') = Some d" if "findState d b = Some st'" for d st'
  proof (cases "d = c")
    case True
    then show ?thesis using that l linkedD [OF l st]
      by (auto simp: assms(3,4,6) nextAttempt_def linked_def)
  next
    case False
    with that have f: "findState d a = Some st'" by (simp add: assms(3))
    from linkedD [OF l this] d [OF this False] show ?thesis by (simp add: assms(4,6))
  qed
  moreover have "findState d b \<noteq> None \<longleftrightarrow> sessionSource b d = Some Polkit" for d
    using l linkedD(6) [OF l st] by (simp add: linked_def assms(3,5))
  ultimately show ?thesis using assms(7) by (simp add: linked_def assms(6))
qed

lemma finishAuth_linked:
  assumes "linked a" and "findState c a = Some st"
  shows "linked (finishAuth e c a)"
proof -
  note f = linkedD(2,3) [OF assms]
  have wf: "states_wf a" using assms(1) by (simp add: linked_def)
  show ?thesis
  proof (cases "retries st")
    case True
    note r = finishAuth_retries [OF assms(2) f(1) True f(2), where e = e]
    show ?thesis using r(5) [OF wf] by (rule linked_retried [OF assms r(1,2,3,4)])
  next
    case False
    note r = finishAuth_ends [OF assms(2) f(1) False f(2), where e = e]
    show ?thesis using r(5) [OF wf] by (rule linked_gone [OF assms r(1,2,3,4)])
  qed
qed

text \<open>Finishing one state leaves the others as they were, so the listener is again between events.\<close>

lemma finishAuth_ok:
  assumes l: "linked a" and st: "findState c a = Some st" and "0 \<le> pk_retryCount st"
    and others: "\<And>d st. d \<noteq> c \<Longrightarrow> findState d a = Some st \<Longrightarrow> waiting st"
  shows "listener_ok (finishAuth e c a)"
proof -
  note f = linkedD(2,3) [OF l st]
  have "waiting st'" if "findState d (finishAuth e c a) = Some st'" for d st'
  proof (cases "retries st")
    case True
    then show ?thesis
      using that finishAuth_retries(1) [OF st f(1) True f(2), of d e] others assms(3)
      by (auto simp: nextAttempt_def waiting_def retries_def split: if_splits)
  next
    case False
    then show ?thesis
      using that finishAuth_ends(1) [OF st f(1) False f(2), of d e] others by (auto split: if_splits)
  qed
  then show ?thesis using finishAuth_linked [OF l st, of e] by (simp add: listener_ok_def)
qed

section \<open>The invariant through every event\<close>

lemma listener_ok_transfer:
  assumes "listener_ok a" and "a_listener b = a_listener a"
    and "\<And>c. sessionSource b c = Some Polkit \<longleftrightarrow> sessionSource a c = Some Polkit"
  shows "listener_ok b"
proof -
  have f: "findState c b = findState c a" "pkSessions b = pkSessions a" for c
    by (simp_all add: findState_def pkSessions_def assms(2) fun_eq_iff)
  show ?thesis using assms(1) unfolding listener_ok_def linked_def f assms(2,3) .
qed

lemma listener_okD: "listener_ok a \<Longrightarrow> linked a" "listener_ok a \<Longrightarrow> findState c a = Some st \<Longrightarrow> waiting st"
  by (simp_all add: listener_ok_def)

lemma listener_ok_put:
  assumes "listener_ok a" and "findState c a = Some st"
    and "pk_cookie st' = pk_cookie st" "pk_inProgress st'" "pk_session st' = pk_session st" "waiting st'"
  shows "listener_ok (putState c st' a)"
  using assms linked_put [OF listener_okD(1) [OF assms(1)] assms(2-5)] by (simp add: listener_ok_def)

lemma findStateForSession_Some:
  assumes "findStateForSession n a = Some (c, st)" and "linked a"
  shows "findState c a = Some st" and "pk_session st = n"
  using assms linked_session [OF assms(2), of n c]
  by (auto simp: findStateForSession_def pkSessions_def split: option.splits)

lemma findStateForSession_own:
  "linked a \<Longrightarrow> findState c a = Some st \<Longrightarrow> findStateForSession (pk_session st) a = Some (c, st)"
  using linkedD(5) [of a c st] by (simp add: findStateForSession_def pkSessions_def)

lemma listener_ok_updates [wf_intros]:
  assumes "listener_ok a"
  shows "listener_ok (plSessionRequest e n t b a)" and "listener_ok (plSessionError e n t a)"
    and "listener_ok (plSessionInfo e n t a)"
proof -
  have *: "listener_ok (putState c st' a)"
    if "findStateForSession n a = Some (c, st)" "pk_cookie st' = pk_cookie st" "pk_inProgress st' = pk_inProgress st"
      "pk_session st' = pk_session st" "waiting st' = waiting st" for c st st'
  proof -
    note f = findStateForSession_Some [OF that(1) listener_okD(1) [OF assms]]
    show ?thesis using that linkedD(2) [OF listener_okD(1) [OF assms] f(1)] listener_okD(2) [OF assms f(1)]
      by (intro listener_ok_put [OF assms f(1)]) simp_all
  qed
  have "listener_ok (onSessionRequest e c t b (putState c (st\<lparr>pk_prompt := t, pk_echoOn := b, pk_requestSent := True\<rparr>) a))"
    and "listener_ok (onSessionRetry e c t (putState c (st\<lparr>pk_errorText := t\<rparr>) a))"
    if "findStateForSession n a = Some (c, st)" for c st
    by (rule listener_ok_transfer [OF * [OF that]]; simp add: waiting_def)+
  then show "listener_ok (plSessionRequest e n t b a)" and "listener_ok (plSessionError e n t a)"
    by (auto simp: plSessionRequest_def plSessionError_def assms split: option.split)
  show "listener_ok (plSessionInfo e n t a)"
    by (auto simp: plSessionInfo_def assms split: option.split intro!: listener_ok_transfer [OF assms])
qed

text \<open>The state a completed signal leads \<open>finishAuth\<close> to, and what follows.\<close>

definition completedState :: "bool \<Rightarrow> pk_state \<Rightarrow> pk_state" where
  "completedState gained st =
     (let st = st\<lparr>pk_gainedAuth := gained\<rparr>
      in if gained then st else st\<lparr>pk_errorText := ''Authentication failed''\<rparr>)"

definition completedAgent :: "env \<Rightarrow> string \<Rightarrow> pk_state \<Rightarrow> bool \<Rightarrow> agent \<Rightarrow> agent" where
  "completedAgent e c st gained a =
     (let a = putState c (completedState gained st) a
      in if gained then a else onSessionRetry e c ''Authentication failed'' a)"

lemma plSessionCompleted_eq:
  "plSessionCompleted e n gained a =
     (case findStateForSession n a of None \<Rightarrow> a
      | Some (c, st) \<Rightarrow> finishAuth e c (completedAgent e c st gained a))"
  by (simp add: plSessionCompleted_def completedAgent_def completedState_def Let_def split: option.split)

lemma completedAgent_simps [simp]:
  "findState d (completedAgent e c st g a) = (if d = c then Some (completedState g st) else findState d a)"
  "pkSessions (completedAgent e c st g a) = pkSessions a"
  "sessionSource (completedAgent e c st g a) = sessionSource a" "nextPk (completedAgent e c st g a) = nextPk a"
  "states_wf a \<Longrightarrow> states_wf (completedAgent e c st g a)"
  "a_polkit (completedAgent e c st g a) = a_polkit a" "a_fault (completedAgent e c st g a) = a_fault a"
  "a_keyring (completedAgent e c st g a) = a_keyring a" "a_pinentry (completedAgent e c st g a) = a_pinentry a"
  "core_ok a \<Longrightarrow> core_ok (completedAgent e c st g a)"
  by (simp_all add: completedAgent_def Let_def core_ok_sessions)

lemma completedState_simps [simp]:
  "pk_cookie (completedState g st) = pk_cookie st" "pk_inProgress (completedState g st) = pk_inProgress st"
  "pk_session (completedState g st) = pk_session st" "pk_retryCount (completedState g st) = pk_retryCount st"
  "pk_cancelled (completedState g st) = pk_cancelled st" "pk_gainedAuth (completedState g st) = g"
  by (simp_all add: completedState_def Let_def)

lemma completedAgent_linked:
  assumes "linked a" and "findState c a = Some st"
  shows "linked (completedAgent e c st g a)"
proof -
  have "linked (putState c (completedState g st) a)"
    by (rule linked_put [OF assms]) (simp_all add: linkedD [OF assms])
  then show ?thesis by (rule linked_same) (use assms in \<open>simp_all add: linked_def\<close>)
qed

lemma listener_ok_completed [wf_intros]:
  assumes "listener_ok a" shows "listener_ok (plSessionCompleted e n g a)"
proof (cases "findStateForSession n a")
  case (Some x)
  obtain c st where x: "x = (c, st)" by force
  note l = listener_okD(1) [OF assms]
  note f = findStateForSession_Some [OF Some [unfolded x] l]
  have "listener_ok (finishAuth e c (completedAgent e c st g a))"
    by (rule finishAuth_ok [OF completedAgent_linked [OF l f(1)], where st = "completedState g st"])
      (use listener_okD(2) [OF assms] f(1) in \<open>auto simp: waiting_def split: if_splits\<close>)
  then show ?thesis using Some x by (simp add: plSessionCompleted_eq)
qed (simp add: plSessionCompleted_def assms)

lemma completed_fault: "linked a \<Longrightarrow> a_fault (plSessionCompleted e n g a) = a_fault a"
  by (cases "findStateForSession n a")
    (auto simp: plSessionCompleted_eq dest!: findStateForSession_Some(1)
      intro!: finishAuth_fault [of _ "completedAgent e c st g a" for c st, THEN trans])

lemma markCancelled_effect:
  assumes "linked a" and st: "findState c a = Some st"
  shows "findState d (markCancelledAndFinish e c a) = (if d = c then None else findState d a)"
    and "sessionSource (markCancelledAndFinish e c a) = (sessionSource a)(c := None)"
    and "linked (markCancelledAndFinish e c a)"
    and "a_fault (markCancelledAndFinish e c a) = a_fault a"
    and "a_polkit (markCancelledAndFinish e c a) = a_polkit a @ [PkResultCompleted c]"
proof -
  let ?st = "st\<lparr>pk_cancelled := True\<rparr>" and ?b = "putState c (st\<lparr>pk_cancelled := True\<rparr>) a"
  note l = linkedD [OF assms]
  have b: "linked ?b" by (rule linked_put [OF assms]) (simp_all add: l)
  have f: "findState c ?b = Some ?st" by simp
  have n: "\<not> retries ?st" by (simp add: retries_def)
  have i: "pk_inProgress ?st" "0 < pk_session ?st" using l by simp_all
  note x = finishAuth_ends [OF f i(1) n i(2), where e = e]
  have eq: "markCancelledAndFinish e c a = finishAuth e c ?b" by (simp add: markCancelledAndFinish_def st)
  show "findState d (markCancelledAndFinish e c a) = (if d = c then None else findState d a)"
    "sessionSource (markCancelledAndFinish e c a) = (sessionSource a)(c := None)"
    "a_polkit (markCancelledAndFinish e c a) = a_polkit a @ [PkResultCompleted c]"
    unfolding eq by (simp_all add: x)
  show "linked (markCancelledAndFinish e c a)" unfolding eq by (rule finishAuth_linked [OF b f])
  show "a_fault (markCancelledAndFinish e c a) = a_fault a" unfolding eq by (simp add: finishAuth_fault [OF f])
qed

lemma listener_frames [simp, frame_simps]:
  "a_keyring (plSessionCompleted e n g a) = a_keyring a" "a_pinentry (plSessionCompleted e n g a) = a_pinentry a"
  "a_keyring (plSessionRequest e n t b a) = a_keyring a" "a_pinentry (plSessionRequest e n t b a) = a_pinentry a"
  "a_keyring (plSessionError e n t a) = a_keyring a" "a_pinentry (plSessionError e n t a) = a_pinentry a"
  "a_keyring (plSessionInfo e n t a) = a_keyring a" "a_pinentry (plSessionInfo e n t a) = a_pinentry a"
  "a_fault (plSessionRequest e n t b a) = a_fault a" "a_fault (plSessionError e n t a) = a_fault a"
  "a_fault (plSessionInfo e n t a) = a_fault a"
  "sessionSource (plSessionRequest e n t b a) = sessionSource a" "sessionSource (plSessionError e n t a) = sessionSource a"
  "sessionSource (plSessionInfo e n t a) = sessionSource a"
  "a_keyring (markCancelledAndFinish e c a) = a_keyring a"
  "a_pinentry (markCancelledAndFinish e c a) = a_pinentry a"
  "a_keyring (submitPassword c pw a) = a_keyring a" "a_pinentry (submitPassword c pw a) = a_pinentry a"
  "a_listener (submitPassword c pw a) = a_listener a" "a_fault (submitPassword c pw a) = a_fault a"
  "sessionSource (submitPassword c pw a) = sessionSource a"
  by (simp_all add: plSessionCompleted_eq plSessionRequest_def plSessionError_def plSessionInfo_def
      markCancelledAndFinish_def submitPassword_def split: option.split)

lemma cancelPending_frames [simp, frame_simps]:
  "a_keyring (cancelPending e c a) = a_keyring a" "a_pinentry (cancelPending e c a) = a_pinentry a"
  by (simp_all add: cancelPending_def Let_def split: option.split)

lemma core_ok_listener [wf_intros]:
  assumes "core_ok a"
  shows "core_ok (plSessionCompleted e n g a)" and "core_ok (plSessionRequest e n t b a)"
    and "core_ok (plSessionError e n t a)" and "core_ok (plSessionInfo e n t a)"
    and "core_ok (markCancelledAndFinish e c a)" and "core_ok (submitPassword c pw a)"
    and "core_ok (cancelPending e c a)"
  using assms
  by (simp_all add: plSessionCompleted_eq plSessionRequest_def plSessionError_def plSessionInfo_def
      markCancelledAndFinish_def submitPassword_def cancelPending_def Let_def core_ok_sessions split: option.split)

section \<open>Opening and cancelling\<close>

lemma onPolkitRequest_simps [simp]:
  "fst (onPolkitRequest e c m ic ai u dt a) \<longleftrightarrow> sessionSource a c = None"
  "sessionSource (snd (onPolkitRequest e c m ic ai u dt a)) =
     (if sessionSource a c = None then (sessionSource a)(c \<mapsto> Polkit) else sessionSource a)"
  "a_listener (snd (onPolkitRequest e c m ic ai u dt a)) = a_listener a"
  "a_keyring (snd (onPolkitRequest e c m ic ai u dt a)) = a_keyring a"
  "a_pinentry (snd (onPolkitRequest e c m ic ai u dt a)) = a_pinentry a"
  "a_fault (snd (onPolkitRequest e c m ic ai u dt a)) = a_fault a"
  "a_polkit (snd (onPolkitRequest e c m ic ai u dt a)) = a_polkit a"
  "core_ok a \<Longrightarrow> core_ok (snd (onPolkitRequest e c m ic ai u dt a))"
  by (simp_all add: onPolkitRequest_def core_ok_sessions)

lemma openable_fresh: "linked a \<Longrightarrow> sessionSource a c = None \<Longrightarrow> findState c a = None"
  using linkedD(6) [of a c] by (cases "findState c a") auto

definition newState ::
  "string \<Rightarrow> string \<Rightarrow> string \<Rightarrow> string \<Rightarrow> string \<Rightarrow> nat \<Rightarrow> pk_state" where
  "newState actionId message iconName cookie user session =
     \<lparr>pk_inProgress = True, pk_cancelled = False, pk_gainedAuth = False, pk_cookie = cookie,
      pk_message = message, pk_iconName = iconName, pk_actionId = actionId, pk_prompt = [],
      pk_errorText = [], pk_echoOn = False, pk_requestSent = False, pk_selectedUser = user,
      pk_session = session, pk_retryCount = 0\<rparr>"

text \<open>The three outcomes of a request of polkit.\<close>

definition openable :: "string \<Rightarrow> string list \<Rightarrow> agent \<Rightarrow> bool" where
  "openable cookie ids a \<longleftrightarrow> ids \<noteq> [] \<and> sessionSource a cookie = None"

lemma initiate_rejected:
  assumes "linked a" and "\<not> openable c ids a"
  shows "findState d (initiateAuthentication e ai m ic dt c ids a) = findState d a"
    and "pkSessions (initiateAuthentication e ai m ic dt c ids a) = pkSessions a"
    and "sessionSource (initiateAuthentication e ai m ic dt c ids a) = sessionSource a"
    and "nextPk a \<le> nextPk (initiateAuthentication e ai m ic dt c ids a)"
    and "states_wf (initiateAuthentication e ai m ic dt c ids a)"
    and "\<exists>t. a_polkit (initiateAuthentication e ai m ic dt c ids a) = a_polkit a @ [PkResultError c t, PkResultCompleted c]"
proof -
  have n: "pkSessions a (nextPk a) = None" "0 < nextPk a" "states_wf a"
    using assms(1) linked_session [OF assms(1), of "nextPk a"] linkedD(4) [OF assms(1)]
    by (cases "pkSessions a (nextPk a)"; fastforce simp: linked_def)+
  have f: "findState d (snd (onPolkitRequest e c m ic ai u dt b)) = findState d b"
      "pkSessions (snd (onPolkitRequest e c m ic ai u dt b)) = pkSessions b" for d u b
    by (simp_all add: findState_def pkSessions_def fun_eq_iff)
  have h: "hash_has (pl_cookieToState (a_listener a)) c \<longleftrightarrow> findState c a \<noteq> None"
    by (simp add: hash_has_def findState_def)
  show "findState d (initiateAuthentication e ai m ic dt c ids a) = findState d a"
    "sessionSource (initiateAuthentication e ai m ic dt c ids a) = sessionSource a"
    "nextPk a \<le> nextPk (initiateAuthentication e ai m ic dt c ids a)"
    "states_wf (initiateAuthentication e ai m ic dt c ids a)"
    "\<exists>t. a_polkit (initiateAuthentication e ai m ic dt c ids a) = a_polkit a @ [PkResultError c t, PkResultCompleted c]"
    using assms(2) n
    by (auto simp: initiateAuthentication_def openable_def Let_def case_prod_beta f h)
  show "pkSessions (initiateAuthentication e ai m ic dt c ids a) = pkSessions a"
    using assms(2) n by (auto simp: initiateAuthentication_def openable_def Let_def case_prod_beta f h fun_eq_iff)
qed

lemma initiate_opened:
  assumes "linked a" and "openable c ids a"
  shows "findState d (initiateAuthentication e ai m ic dt c ids a) =
      (if d = c then Some (newState ai m ic c (hd ids) (nextPk a)) else findState d a)"
    and "pkSessions (initiateAuthentication e ai m ic dt c ids a) = (pkSessions a)(nextPk a \<mapsto> c)"
    and "sessionSource (initiateAuthentication e ai m ic dt c ids a) = (sessionSource a)(c \<mapsto> Polkit)"
    and "nextPk (initiateAuthentication e ai m ic dt c ids a) = Suc (nextPk a)"
    and "states_wf (initiateAuthentication e ai m ic dt c ids a)"
    and "a_polkit (initiateAuthentication e ai m ic dt c ids a) = a_polkit a @ [PkInitiate (nextPk a)]"
proof -
  have "findState c a = None" "states_wf a"
    using assms openable_fresh [OF assms(1), of c] by (auto simp: linked_def openable_def)
  moreover have "findState d (snd (onPolkitRequest e c m ic ai u dt b)) = findState d b"
      "pkSessions (snd (onPolkitRequest e c m ic ai u dt b)) = pkSessions b" for d u b
    by (simp_all add: findState_def pkSessions_def fun_eq_iff)
  moreover have "\<not> hash_has (pl_cookieToState (a_listener a)) c \<longleftrightarrow> findState c a = None"
    by (simp add: hash_has_def findState_def)
  ultimately show "findState d (initiateAuthentication e ai m ic dt c ids a) =
      (if d = c then Some (newState ai m ic c (hd ids) (nextPk a)) else findState d a)"
    "pkSessions (initiateAuthentication e ai m ic dt c ids a) = (pkSessions a)(nextPk a \<mapsto> c)"
    "sessionSource (initiateAuthentication e ai m ic dt c ids a) = (sessionSource a)(c \<mapsto> Polkit)"
    "nextPk (initiateAuthentication e ai m ic dt c ids a) = Suc (nextPk a)"
    "states_wf (initiateAuthentication e ai m ic dt c ids a)"
    "a_polkit (initiateAuthentication e ai m ic dt c ids a) = a_polkit a @ [PkInitiate (nextPk a)]"
    using assms(2)
    by (simp_all add: initiateAuthentication_def openable_def Let_def case_prod_beta reattempt_def newState_def)
qed

lemma newState_simps [simp]:
  "pk_cookie (newState ai m ic c u n) = c" "pk_inProgress (newState ai m ic c u n)"
  "pk_session (newState ai m ic c u n) = n" "waiting (newState ai m ic c u n)"
  "pk_retryCount (newState ai m ic c u n) = 0"
  by (simp_all add: newState_def waiting_def MAX_AUTH_RETRIES_def)

lemma listener_ok_initiate [wf_intros]:
  assumes "listener_ok a" shows "listener_ok (initiateAuthentication e ai m ic dt c ids a)"
proof -
  note l = listener_okD(1) [OF assms]
  let ?b = "initiateAuthentication e ai m ic dt c ids a"
  show ?thesis
  proof (cases "openable c ids a")
    case True
    note o' = initiate_opened [OF l True, where e = e and ai = ai and m = m and ic = ic and dt = dt]
    have "findState c a = None" using True openable_fresh [OF l] by (simp add: openable_def)
    then have ne: "pkSessions a n \<noteq> Some c" for n using linked_session [OF l, of n c] by auto
    have n: "pkSessions a (nextPk a) = None"
      using linked_session [OF l, of "nextPk a"] linkedD(4) [OF l] by (cases "pkSessions a (nextPk a)") fastforce+
    have 1: "findState d ?b \<noteq> None \<longleftrightarrow> sessionSource ?b d = Some Polkit" for d
      using l by (simp add: o' linked_def)
    have 2: "pk_cookie st = d \<and> pk_inProgress st \<and> 0 < pk_session st \<and> pk_session st < nextPk ?b
        \<and> pkSessions ?b (pk_session st) = Some d" if "findState d ?b = Some st" for d st
    proof (cases "d = c")
      case True
      then show ?thesis using that l by (auto simp: o' linked_def)
    next
      case False
      with that have "findState d a = Some st" by (simp add: o')
      from linkedD [OF l this] show ?thesis by (simp add: o')
    qed
    have 3: "\<exists>st. findState d ?b = Some st \<and> pk_session st = k" if "pkSessions ?b k = Some d" for k d
      using that linked_session [OF l, of k d] ne [of k] by (auto simp: o' split: if_splits)
    have "linked ?b" unfolding linked_def using 1 2 3 o'(4,5) by auto
    then show ?thesis using listener_okD(2) [OF assms] by (auto simp: listener_ok_def o' split: if_splits)
  next
    case False
    note r = initiate_rejected [OF l False, where e = e and ai = ai and m = m and ic = ic and dt = dt]
    have "linked ?b"
      using l r(4,5) unfolding linked_def r(1,2,3) by (auto intro: less_le_trans)
    then show ?thesis using listener_okD(2) [OF assms] by (simp add: listener_ok_def r(1))
  qed
qed

lemma initiate_frames [simp, frame_simps]:
  "a_keyring (initiateAuthentication e ai m ic dt c ids a) = a_keyring a"
  "a_pinentry (initiateAuthentication e ai m ic dt c ids a) = a_pinentry a"
  "core_ok a \<Longrightarrow> core_ok (initiateAuthentication e ai m ic dt c ids a)"
  by (auto simp: initiateAuthentication_def Let_def case_prod_beta reattempt_def split: option.split)

lemma initiate_fault:
  "linked a \<Longrightarrow> a_fault (initiateAuthentication e ai m ic dt c ids a) = a_fault a"
proof -
  have "findState c (snd (onPolkitRequest e c m ic ai u dt b)) = findState c b" for u b
    by (simp add: findState_def)
  then show ?thesis
    by (simp add: initiateAuthentication_def Let_def case_prod_beta reattempt_def split: option.split)
qed

text \<open>The hazard of \<^verbatim>\<open>cancelPending\<close>: cancelling the last attempt deletes the state
  inside \<^verbatim>\<open>cancel()\<close>.\<close>

definition danglingCancel :: "env \<Rightarrow> pk_state \<Rightarrow> bool" where
  "danglingCancel e st \<longleftrightarrow> e_cancelEmitsCompleted e \<and> pk_retryCount st = 2"

lemma cancelPending_effect:
  assumes "listener_ok a" and st: "findState c a = Some st"
  shows "a_fault (cancelPending e c a) = (a_fault a \<or> danglingCancel e st)"
    and "sessionSource (cancelPending e c a) = (sessionSource a)(c := None)"
    and "findState d (cancelPending e c a) = (if d = c then None else findState d a)"
    and "linked (cancelPending e c a)"
proof -
  note l = listener_okD(1) [OF assms(1)]
  note f = linkedD [OF l st]
  have w: "waiting st" by (rule listener_okD(2) [OF assms(1) st])
  define b where "b = pkCall (PkCancel (pk_session st)) a"
  have b: "linked b" "findState c b = Some st" "a_fault b = a_fault a"
    by (rule linked_same [OF l]) (use l st in \<open>simp_all add: b_def linked_def\<close>)
  have bs: "sessionSource b = sessionSource a" "findState d b = findState d a" for d by (simp_all add: b_def)
  define b' where "b' = (if e_cancelEmitsCompleted e then plSessionCompleted e (pk_session st) False b else b)"
  have eq: "cancelPending e c a = markCancelledAndFinish e c b'"
    using st f by (simp add: cancelPending_def b'_def b_def Let_def)
  show "a_fault (cancelPending e c a) = (a_fault a \<or> danglingCancel e st)"
    and "sessionSource (cancelPending e c a) = (sessionSource a)(c := None)"
    and "findState d (cancelPending e c a) = (if d = c then None else findState d a)"
    and "linked (cancelPending e c a)"
  proof -
    have *: "a_fault (markCancelledAndFinish e c b') = (a_fault a \<or> danglingCancel e st)
      \<and> sessionSource (markCancelledAndFinish e c b') = (sessionSource a)(c := None)
      \<and> findState d (markCancelledAndFinish e c b') = (if d = c then None else findState d a)
      \<and> linked (markCancelledAndFinish e c b')" for d
    proof (cases "e_cancelEmitsCompleted e")
      case False
      then show ?thesis using markCancelled_effect [OF b(1,2), where e = e] b bs
        by (simp add: b'_def danglingCancel_def)
    next
      case True
      let ?x = "completedAgent e c st False b"
      have b'x: "b' = finishAuth e c ?x"
        using True b by (simp add: b'_def plSessionCompleted_eq findStateForSession_own)
      have x: "linked ?x" "findState c ?x = Some (completedState False st)"
        by (simp_all add: completedAgent_linked [OF b(1,2)])
      have xi: "pk_inProgress (completedState False st)" "0 < pk_session (completedState False st)"
        using f by simp_all
      have lx: "linked b'" unfolding b'x by (rule finishAuth_linked [OF x])
      have fault: "a_fault b' = a_fault a" unfolding b'x by (simp add: finishAuth_fault [OF x(2)] b)
      show ?thesis
      proof (cases "retries (completedState False st)")
        case r: True
        note y = finishAuth_retries [OF x(2) xi(1) r xi(2), where e = e, folded b'x]
        have "\<not> danglingCancel e st" using r by (simp add: danglingCancel_def retries_def MAX_AUTH_RETRIES_def)
        moreover have "findState c b' = Some (nextAttempt (nextPk ?x) (completedState False st))"
          by (simp add: y)
        note markCancelled_effect [OF lx this, where e = e]
        ultimately show ?thesis using y fault bs by auto
      next
        case r: False
        note y = finishAuth_ends [OF x(2) xi(1) r xi(2), where e = e, folded b'x]
        have dangling: "danglingCancel e st" using r w True by (simp add: danglingCancel_def retries_def waiting_def MAX_AUTH_RETRIES_def)
        have none: "findState c b' = None" by (simp add: y)
        have "linked (b'\<lparr>a_fault := True\<rparr>)"
          by (rule linked_same [OF lx]) (use lx in \<open>simp_all add: linked_def\<close>)
        then show ?thesis using y bs dangling none by (simp add: markCancelledAndFinish_def)
      qed
    qed
    show "a_fault (cancelPending e c a) = (a_fault a \<or> danglingCancel e st)"
      "sessionSource (cancelPending e c a) = (sessionSource a)(c := None)"
      "findState d (cancelPending e c a) = (if d = c then None else findState d a)"
      "linked (cancelPending e c a)"
      using * [of d] by (simp_all add: eq)
  qed
qed

lemma listener_ok_cancelPending [wf_intros]:
  assumes "listener_ok a" shows "listener_ok (cancelPending e c a)"
proof (cases "findState c a")
  case (Some st)
  note x = cancelPending_effect [OF assms Some, where e = e]
  show ?thesis using x(4) listener_okD(2) [OF assms] by (auto simp: listener_ok_def x(3) split: if_splits)
qed (simp add: cancelPending_def assms)

text \<open>Cancelling a list of distinct cookies with a state.\<close>

lemma cancelList:
  assumes "listener_ok a" and "distinct cs" and "\<forall>c \<in> set cs. findState c a \<noteq> None"
  shows "findState d (fold (markCancelledAndFinish e) cs a) = (if d \<in> set cs then None else findState d a)
    \<and> sessionSource (fold (markCancelledAndFinish e) cs a) =
        (\<lambda>d. if d \<in> set cs then None else sessionSource a d)
    \<and> listener_ok (fold (markCancelledAndFinish e) cs a)
    \<and> a_fault (fold (markCancelledAndFinish e) cs a) = a_fault a
    \<and> a_polkit (fold (markCancelledAndFinish e) cs a) = a_polkit a @ map PkResultCompleted cs"
  using assms
proof (induction cs arbitrary: a)
  case (Cons c cs)
  obtain st where st: "findState c a = Some st" using Cons.prems(3) by auto
  note l = listener_okD(1) [OF Cons.prems(1)]
  note m = markCancelled_effect [OF l st, where e = e]
  have ok: "listener_ok (markCancelledAndFinish e c a)"
    using m(3) listener_okD(2) [OF Cons.prems(1)] by (auto simp: listener_ok_def m(1) split: if_splits)
  have rest: "\<forall>d \<in> set cs. findState d (markCancelledAndFinish e c a) \<noteq> None" "distinct cs" "c \<notin> set cs"
    using Cons.prems(2,3) by (auto simp: m(1))
  show ?case using Cons.IH [OF ok rest(2,1)] rest(3) m by (auto simp: fun_eq_iff)
qed (auto simp: fun_eq_iff)

lemma cancelAuthentication_frames [simp, frame_simps]:
  "a_keyring (cancelAuthentication e a) = a_keyring a" "a_pinentry (cancelAuthentication e a) = a_pinentry a"
  "core_ok a \<Longrightarrow> core_ok (cancelAuthentication e a)"
proof -
  have "a_keyring (fold (markCancelledAndFinish e) cs a) = a_keyring a
      \<and> a_pinentry (fold (markCancelledAndFinish e) cs a) = a_pinentry a
      \<and> (core_ok a \<longrightarrow> core_ok (fold (markCancelledAndFinish e) cs a))" for cs
    by (induction cs arbitrary: a) (auto intro: core_ok_listener)
  then show "a_keyring (cancelAuthentication e a) = a_keyring a" "a_pinentry (cancelAuthentication e a) = a_pinentry a"
    "core_ok a \<Longrightarrow> core_ok (cancelAuthentication e a)"
    by (simp_all add: cancelAuthentication_def)
qed

lemma cancelAuthentication_effect:
  assumes "listener_ok a"
  shows "sessionSource (cancelAuthentication e a) =
      (\<lambda>c. if sessionSource a c = Some Polkit then None else sessionSource a c)"
    and "listener_ok (cancelAuthentication e a)" and "a_fault (cancelAuthentication e a) = a_fault a"
proof -
  let ?cs = "hash_keys (pl_cookieToState (a_listener a))"
  note l = listener_okD(1) [OF assms]
  have d: "distinct ?cs" using l by (simp add: linked_def hash_wf_def)
  have k: "c \<in> set ?cs \<longleftrightarrow> findState c a \<noteq> None" for c
    by (simp only: qhash.keys_find findState_def)
  have all: "\<forall>c \<in> set ?cs. findState c a \<noteq> None" using k by blast
  note x = cancelList [OF assms d all, where e = e]
  have p: "findState c a \<noteq> None \<longleftrightarrow> sessionSource a c = Some Polkit" for c
    using l by (simp add: linked_def)
  show "sessionSource (cancelAuthentication e a) =
      (\<lambda>c. if sessionSource a c = Some Polkit then None else sessionSource a c)"
    "listener_ok (cancelAuthentication e a)" "a_fault (cancelAuthentication e a) = a_fault a"
    using x k p by (auto simp: cancelAuthentication_def fun_eq_iff)
qed

section \<open>Properties\<close>

lemma listener_ok_init [simp]: "listener_ok (initAgent p d)"
  by (simp add: listener_ok_def linked_def initAgent_def findState_def pkSessions_def sessionSource_def storeGet_def)

definition failSteps :: "env \<Rightarrow> nat list \<Rightarrow> agent \<Rightarrow> agent" where
  "failSteps e ns a = fold (\<lambda>n. plSessionCompleted e n False) ns a"

lemma completed_current:
  assumes "linked a" and "findState c a = Some st"
  shows "plSessionCompleted e (pk_session st) g a = finishAuth e c (completedAgent e c st g a)"
  using findStateForSession_own [OF assms] by (simp add: plSessionCompleted_eq)

text \<open>One failed attempt, with attempts left and with none.\<close>

lemma fail_retry:
  assumes "listener_ok a" and st: "findState c a = Some st" and "pk_retryCount st < 2"
    and b_def: "b = plSessionCompleted e (pk_session st) False a"
  shows "\<exists>st'. findState c b = Some st' \<and> pk_session st' = nextPk a \<and> pk_retryCount st' = pk_retryCount st + 1"
    and "sessionSource b = sessionSource a" and "nextPk b = Suc (nextPk a)"
    and "a_polkit b = a_polkit a @ [PkInitiate (nextPk a)]" and "listener_ok b"
    and "pkSessions b (pk_session st) = None"
proof -
  note l = listener_okD(1) [OF assms(1)]
  let ?x = "completedAgent e c st False a"
  have b: "b = finishAuth e c ?x" unfolding b_def by (rule completed_current [OF l st])
  have x: "findState c ?x = Some (completedState False st)" by simp
  have i: "pk_inProgress (completedState False st)" "0 < pk_session (completedState False st)"
    "retries (completedState False st)"
    using linkedD [OF l st] listener_okD(2) [OF assms(1) st] assms(3)
    by (simp_all add: retries_def waiting_def MAX_AUTH_RETRIES_def)
  note y = finishAuth_retries [OF x i(1,3,2), where e = e, folded b]
  show "\<exists>st'. findState c b = Some st' \<and> pk_session st' = nextPk a \<and> pk_retryCount st' = pk_retryCount st + 1"
    by (simp add: y nextAttempt_def)
  show "sessionSource b = sessionSource a" "nextPk b = Suc (nextPk a)"
    "a_polkit b = a_polkit a @ [PkInitiate (nextPk a)]" "pkSessions b (pk_session st) = None"
    using linkedD(4) [OF l st] by (simp_all add: y)
  show "listener_ok b" unfolding b_def by (rule listener_ok_completed [OF assms(1)])
qed

lemma fail_last:
  assumes "listener_ok a" and st: "findState c a = Some st" and "pk_retryCount st = 2"
    and b_def: "b = plSessionCompleted e (pk_session st) False a"
  shows "findState c b = None" and "sessionSource b = (sessionSource a)(c := None)"
    and "a_polkit b = a_polkit a @ [PkResultCompleted c]"
proof -
  note l = listener_okD(1) [OF assms(1)]
  let ?x = "completedAgent e c st False a"
  have b: "b = finishAuth e c ?x" unfolding b_def by (rule completed_current [OF l st])
  have x: "findState c ?x = Some (completedState False st)" by simp
  have i: "pk_inProgress (completedState False st)" "0 < pk_session (completedState False st)"
    "\<not> retries (completedState False st)"
    using linkedD [OF l st] assms(3) by (simp_all add: retries_def MAX_AUTH_RETRIES_def)
  note y = finishAuth_ends [OF x i(1,3,2), where e = e, folded b]
  show "findState c b = None" "sessionSource b = (sessionSource a)(c := None)"
    "a_polkit b = a_polkit a @ [PkResultCompleted c]"
    by (simp_all add: y)
qed



text \<open>Cancelling a polkit session ends it whatever the number of attempts made, and closes no other
  session; the access through a deleted state happens exactly when polkit reports the cancellation
  of the last attempt before \<^verbatim>\<open>cancel()\<close> returns.\<close>

theorem cancel_pending_ends:
  assumes "listener_ok a" and "findState c a = Some st"
  shows "sessionSource (cancelPending e c a) = (sessionSource a)(c := None)
    \<and> findState c (cancelPending e c a) = None
    \<and> (a_fault (cancelPending e c a) \<longleftrightarrow> a_fault a \<or> danglingCancel e st)"
  using cancelPending_effect [OF assms, where e = e] by simp

definition example_opened :: agent where
  "example_opened = initiateAuthentication example_env ''act'' ''Authenticate'' [] [] ''k'' [''root''] (initAgent [] [])"

lemma example_opened_facts:
  "listener_ok example_opened"
  "findState ''k'' example_opened = Some (newState ''act'' ''Authenticate'' [] ''k'' ''root'' 1)"
proof -
  show "listener_ok example_opened"
    unfolding example_opened_def by (rule listener_ok_initiate) (rule listener_ok_init)
  have "openable ''k'' [''root''] (initAgent [] [])" by (simp add: openable_def)
  from initiate_opened(1) [OF listener_okD(1) [OF listener_ok_init] this]
  show "findState ''k'' example_opened = Some (newState ''act'' ''Authenticate'' [] ''k'' ''root'' 1)"
    by (simp add: example_opened_def) (simp add: initAgent_def)
qed

lemma example_failed_twice:
  obtains st where "findState ''k'' (failSteps example_env [1, 2] example_opened) = Some st"
    and "pk_retryCount st = 2" and "listener_ok (failSteps example_env [1, 2] example_opened)"
    and "\<not> a_fault (failSteps example_env [1, 2] example_opened)"
proof -
  note ok = example_opened_facts(1)
  define b1 where "b1 = plSessionCompleted example_env (Suc 0) False example_opened"
  note f1 = fail_retry [OF ok example_opened_facts(2), simplified, OF b1_def]
  have n: "nextPk example_opened = 2"
    using initiate_opened(4) [OF listener_okD(1) [OF listener_ok_init], of "''k''" "[''root'']" "[]" "[]"]
    by (simp add: openable_def example_opened_def) (simp add: initAgent_def)
  obtain s1 where s1: "findState ''k'' b1 = Some s1" "pk_session s1 = 2" "pk_retryCount s1 = 1"
    using f1(1) n by auto
  define b2 where "b2 = plSessionCompleted example_env 2 False b1"
  have k1: "pk_retryCount s1 < 2" using s1 by simp
  note f2 = fail_retry [OF f1(5) s1(1) k1, unfolded s1(2), OF b2_def]
  have fault: "\<not> a_fault b2"
    using completed_fault [OF listener_okD(1) [OF f1(5)]] completed_fault [OF listener_okD(1) [OF ok]]
      initiate_fault [OF listener_okD(1) [OF listener_ok_init]]
    by (simp add: b2_def b1_def example_opened_def)
  have eq: "failSteps example_env [1, 2] example_opened = b2" by (simp add: failSteps_def b2_def b1_def)
  show thesis using f2(1,5) s1(3) fault that unfolding eq by auto
qed

theorem cancel_pending_ends_witness:
  "a_fault (cancelPending example_env ''k'' (failSteps example_env [1, 2] example_opened))"
proof -
  obtain st where st: "findState ''k'' (failSteps example_env [1, 2] example_opened) = Some st"
      "pk_retryCount st = 2" "listener_ok (failSteps example_env [1, 2] example_opened)"
    by (rule example_failed_twice)
  from cancel_pending_ends [OF st(3,1), of example_env] st(2) show ?thesis
    by (simp add: danglingCancel_def example_env_def)
qed

text \<open>A successful completion of the current polkit session closes the session of its cookie and
  no other, reports to polkit once and leaves no state behind.\<close>

theorem polkit_success_closes:
  assumes "listener_ok a" and st: "findState c a = Some st"
  shows "sessionSource (plSessionCompleted e (pk_session st) True a) = (sessionSource a)(c := None)
    \<and> findState c (plSessionCompleted e (pk_session st) True a) = None
    \<and> a_polkit (plSessionCompleted e (pk_session st) True a) = a_polkit a @ [PkResultCompleted c]
    \<and> listener_ok (plSessionCompleted e (pk_session st) True a)"
proof -
  note l = listener_okD(1) [OF assms(1)]
  have x: "findState c (completedAgent e c st True a) = Some (completedState True st)" by simp
  have i: "pk_inProgress (completedState True st)" "0 < pk_session (completedState True st)"
    "\<not> retries (completedState True st)"
    using linkedD [OF l st] by (simp_all add: retries_def)
  show ?thesis
    using finishAuth_ends [OF x i(1,3,2), where e = e] listener_ok_completed [OF assms(1), of e "pk_session st" True]
    by (simp add: completed_current [OF l st])
qed

theorem polkit_success_closes_witness:
  "sessionSource (plSessionCompleted example_env 1 True example_opened) ''k'' = None
   \<and> listener_ok (plSessionCompleted example_env 1 True example_opened)"
  using polkit_success_closes [OF example_opened_facts, of example_env] by simp

text \<open>When polkit withdraws its requests, every polkit session ends and every other session
  stays.\<close>

theorem cancel_authentication_all:
  assumes "listener_ok a"
  shows "sessionSource (cancelAuthentication e a) =
      (\<lambda>c. if sessionSource a c = Some Polkit then None else sessionSource a c)
    \<and> a_fault (cancelAuthentication e a) = a_fault a"
  using cancelAuthentication_effect [OF assms] by simp

theorem cancel_authentication_all_witness:
  "sessionSource example_opened ''k'' = Some Polkit
   \<and> sessionSource (cancelAuthentication example_env example_opened) ''k'' = None"
proof -
  have "sessionSource example_opened ''k'' = Some Polkit"
    by (rule linkedD(6) [OF listener_okD(1) [OF example_opened_facts(1)] example_opened_facts(2)])
  with cancel_authentication_all [OF example_opened_facts(1), of example_env] show ?thesis by simp
qed

end
