(* ===== verification/Agent_Handlers.thy ===== *)
theory Agent_Handlers
  imports Pinentry_Flow Polkit_Listener
begin

text \<open>
  The message handlers of the daemon and its other events, the rest of
  \<^verbatim>\<open>src/core/Agent.cpp\<close>: what a client's line, a disconnect, a timer or a signal of polkit
  does to the whole state.  The file the bootstrap state is read from is a field of the
  environment, its lines if it could be opened.
\<close>

section \<open>ping, next, subscribe\<close>

definition bootstrapLine :: "int_parser \<Rightarrow> string \<Rightarrow> jobject \<Rightarrow> jobject" where
  "bootstrapLine toLongLong raw bootstrap =
     (let line = trimmed raw in
      if line = [] \<or> startsWith line ''#'' then bootstrap
      else
        let delimiter = length (takeWhile (\<lambda>c. c \<noteq> CHR ''='') line)
        in if delimiter = length line \<or> delimiter = 0 then bootstrap
           else
             let key = trimmed (take delimiter line); val = trimmed (drop (delimiter + 1) line)
             in if key = [] then bootstrap
                else if key = ''timestamp''
                then hash_put key (JInt (longLongOr0 toLongLong val)) bootstrap
                else hash_put key (JStr val) bootstrap)"

definition readBootstrapState :: "env \<Rightarrow> jobject" where
  "readBootstrapState env =
     (case e_bootstrapFile env of
        None \<Rightarrow> []
      | Some ls \<Rightarrow>
          (let bootstrap = fold (bootstrapLine (e_toLongLong env)) ls []
           in if e_conflictMode env \<noteq> [] then hash_put ''mode'' (JStr (e_conflictMode env)) bootstrap
              else bootstrap))"

definition handlePing :: "env \<Rightarrow> socket \<Rightarrow> jobject \<Rightarrow> agent \<Rightarrow> agent" where
  "handlePing env socket msg a =
     (let pong = [(''type'', JStr ''pong''), (''version'', JStr ''2.0''),
                  (''capabilities'', JArr [JStr ''polkit'', JStr ''keyring'', JStr ''pinentry'',
                                          JStr ''fingerprint'', JStr ''fido2''])];
          bootstrap = readBootstrapState env;
          pong = (if bootstrap \<noteq> [] then hash_put ''bootstrap'' (JObj bootstrap) pong else pong);
          pong = (if agentHasActive a
                  then (case activeProviderInfo (a_registry a) of
                          None \<Rightarrow> pong
                        | Some p \<Rightarrow> hash_put ''provider''
                            (JObj [(''id'', JStr (p_id p)), (''name'', JStr (p_name p)),
                                   (''kind'', JStr (p_kind p)), (''priority'', JInt (p_priority p))]) pong)
                  else pong)
      in sendJson env socket pong False a)"

definition handleNext :: "env \<Rightarrow> socket \<Rightarrow> jobject \<Rightarrow> agent \<Rightarrow> agent" where
  "handleNext env socket msg a =
     (if queueIsEmpty (a_queue a) then a\<lparr>a_queue := subscribeNext socket (a_queue a)\<rparr>
      else let (event, q) = takeNext (a_queue a) in sendJson env socket event False (a\<lparr>a_queue := q\<rparr>))"

definition handleSubscribe :: "env \<Rightarrow> socket \<Rightarrow> jobject \<Rightarrow> agent \<Rightarrow> agent" where
  "handleSubscribe env socket msg a =
     (let a = (if socket \<in> set (a_subscribers a) then a
               else a\<lparr>a_subscribers := a_subscribers a @ [socket]\<rparr>);
          isRegisteredProvider = registryContains socket (a_registry a);
          isActiveProvider = (isRegisteredProvider \<and> socket = activeProvider (a_registry a));
          canReceive = (\<not> isRegisteredProvider \<or> isActiveProvider);
          a = (if canReceive
               then fold (\<lambda>(cookie, session) a.
                      sendJson env socket (toUpdatedEvent session) False
                        (sendJson env socket (toCreatedEvent session) False a)) (a_store a) a
               else a);
          subscribedMsg = [(''type'', JStr ''subscribed''),
             (''sessionCount'', JInt (if canReceive then int (storeSize (a_store a)) else 0))]
             @ (if isRegisteredProvider then [(''active'', JBool isActiveProvider)] else [])
      in sendJson env socket subscribedMsg False a)"

section \<open>Requests\<close>

definition getPeerPid :: "env \<Rightarrow> socket \<Rightarrow> int" where
  "getPeerPid env socket = (if socket = nullptr then - 1 else e_peerPid env socket)"

definition handleKeyringRequest :: "env \<Rightarrow> socket \<Rightarrow> jobject \<Rightarrow> agent \<Rightarrow> agent" where
  "handleKeyringRequest env socket msg a = keyringHandleRequest env msg socket (getPeerPid env socket) a"

definition handlePinentryRequest :: "env \<Rightarrow> socket \<Rightarrow> jobject \<Rightarrow> agent \<Rightarrow> agent" where
  "handlePinentryRequest env socket msg a = pinentryHandleRequest env msg socket (getPeerPid env socket) a"

definition handlePinentryResult :: "env \<Rightarrow> socket \<Rightarrow> jobject \<Rightarrow> agent \<Rightarrow> agent" where
  "handlePinentryResult env socket msg a =
     (let (result, a) = pinentryHandleResult env msg (getPeerPid env socket) a
      in sendJson env socket result False a)"

section \<open>Providers\<close>

definition agentRegister :: "env \<Rightarrow> socket \<Rightarrow> jobject \<Rightarrow> agent \<Rightarrow> ui_provider \<times> agent" where
  "agentRegister env socket msg a =
     (let known = (case registryProvider socket (a_registry a) of Some p \<Rightarrow> p_id p \<noteq> [] | None \<Rightarrow> False);
          (uuid, a) = (if known then ([], a) else createUuid env a);
          (now, a) = readClock env a;
          (p, r) = registerProvider now uuid socket msg (a_registry a)
      in (p, a\<lparr>a_registry := r\<rparr>))"

definition handleUIRegister :: "env \<Rightarrow> socket \<Rightarrow> jobject \<Rightarrow> agent \<Rightarrow> agent" where
  "handleUIRegister env socket msg a =
     (let (p, a) = agentRegister env socket msg a;
          (changed, a) = agentRecompute env a;
          nowActive = (socket = activeProvider (a_registry a));
          a = sendJson env socket [(''type'', JStr ''ui.registered''), (''id'', JStr (p_id p)),
                (''active'', JBool nowActive), (''priority'', JInt (p_priority p))] False a
      in if changed \<or> nowActive then emitProviderStatus env a else a)"

definition notRegistered :: jobject where
  "notRegistered = errorMsg ''Provider not registered''"

definition handleUIHeartbeat :: "env \<Rightarrow> socket \<Rightarrow> jobject \<Rightarrow> agent \<Rightarrow> agent" where
  "handleUIHeartbeat env socket msg a =
     (if \<not> registryContains socket (a_registry a) then sendJson env socket notRegistered False a
      else
        let (now, a) = readClock env a;
            a = a\<lparr>a_registry := snd (heartbeat now socket (a_registry a))\<rparr>;
            a = recomputeAndAnnounce env a
        in sendJson env socket (okMsg @ [(''active'', JBool (socket = activeProvider (a_registry a)))]) False a)"

definition launchIfNeeded :: "env \<Rightarrow> string \<Rightarrow> agent \<Rightarrow> agent" where
  "launchIfNeeded env reason a =
     (if \<not> agentHasActive a \<and> \<not> storeEmpty (a_store a) then ensureFallbackUiRunning env reason a else a)"

definition handleUIUnregister :: "env \<Rightarrow> socket \<Rightarrow> jobject \<Rightarrow> agent \<Rightarrow> agent" where
  "handleUIUnregister env socket msg a =
     (let (found, r) = unregisterProvider socket (a_registry a)
      in if \<not> found then sendJson env socket notRegistered False a
         else launchIfNeeded env ''provider-unregistered''
                (sendJson env socket okMsg False (recomputeAndAnnounce env (a\<lparr>a_registry := r\<rparr>))))"

section \<open>Answers of the provider\<close>

definition notActiveProvider :: jobject where
  "notActiveProvider = errorMsg ''Not active UI provider''"

definition toOrigin :: "env \<Rightarrow> socket \<Rightarrow> jobject \<Rightarrow> bool \<Rightarrow> agent \<Rightarrow> agent" where
  "toOrigin env origSocket reply secureWipe a =
     (if origSocket \<noteq> nullptr then sendJson env origSocket reply secureWipe a else a)"

definition handleRespond :: "env \<Rightarrow> socket \<Rightarrow> jobject \<Rightarrow> agent \<Rightarrow> agent" where
  "handleRespond env socket msg a =
     (let cookie = toStr (jvalue msg ''id''); response = toStr (jvalue msg ''response'') in
      if \<not> isAuthorized socket (a_registry a) then sendJson env socket notActiveProvider False a
      else if keyringHasPending cookie a then
        let origSocket = keyringSocket cookie a;
            (reply, a) = keyringHandleResponse env cookie response a
        in sendJson env socket okMsg False (toOrigin env origSocket reply True a)
      else if hasPendingInput cookie a then
        let origSocket = pinentrySocket cookie a;
            (reply, a) = pinentryHandleResponse env cookie response a
        in if origSocket = nullptr \<or> toStr (jvalue reply ''type'') = ''error''
           then let message = toStr (jvalue reply ''message'')
                in sendJson env socket
                     (errorMsg (if message = [] then ''Invalid pinentry session state'' else message)) False a
           else sendJson env socket okMsg False (sendJson env origSocket reply True a)
      else if pinentryHasRequest cookie a
      then sendJson env socket (errorMsg ''Session is not accepting input'') False a
      else
        case agentGetSession cookie a of
          None \<Rightarrow> sendJson env socket (errorMsg ''Unknown session'') False a
        | Some session \<Rightarrow>
            if s_source session \<noteq> Polkit
            then sendJson env socket (errorMsg ''Session is not awaiting direct response'') False a
            else sendJson env socket okMsg False (submitPassword cookie response a))"

definition handleCancel :: "env \<Rightarrow> socket \<Rightarrow> jobject \<Rightarrow> agent \<Rightarrow> agent" where
  "handleCancel env socket msg a =
     (let cookie = toStr (jvalue msg ''id'') in
      if \<not> isAuthorized socket (a_registry a) then sendJson env socket notActiveProvider False a
      else if keyringHasPending cookie a then
        let origSocket = keyringSocket cookie a;
            (reply, a) = keyringHandleCancel env cookie a
        in sendJson env socket okMsg False (toOrigin env origSocket reply False a)
      else if pinentryHasRequest cookie a then
        let origSocket = pinentrySocket cookie a;
            (reply, a) = pinentryHandleCancel env cookie a
        in if toStr (jvalue reply ''type'') = ''error'' then sendJson env socket reply False a
           else sendJson env socket okMsg False (toOrigin env origSocket reply False a)
      else
        case agentGetSession cookie a of
          None \<Rightarrow> sendJson env socket (errorMsg ''Unknown session'') False a
        | Some session \<Rightarrow>
            if s_source session \<noteq> Polkit
            then sendJson env socket (errorMsg ''Session is not cancellable from this path'') False a
            else sendJson env socket okMsg False (cancelPending env cookie a))"

section \<open>Dispatch and the other events\<close>

definition agentRouter :: "env \<Rightarrow> agent message_router" where
  "agentRouter env =
     registerHandler ''session.cancel'' (handleCancel env)
    (registerHandler ''session.respond'' (handleRespond env)
    (registerHandler ''ui.unregister'' (handleUIUnregister env)
    (registerHandler ''ui.heartbeat'' (handleUIHeartbeat env)
    (registerHandler ''ui.register'' (handleUIRegister env)
    (registerHandler ''pinentry_result'' (handlePinentryResult env)
    (registerHandler ''pinentry_request'' (handlePinentryRequest env)
    (registerHandler ''keyring_request'' (handleKeyringRequest env)
    (registerHandler ''next'' (handleNext env)
    (registerHandler ''subscribe'' (handleSubscribe env)
    (registerHandler ''ping'' (handlePing env) []))))))))))"

definition handleMessage :: "env \<Rightarrow> socket \<Rightarrow> string \<Rightarrow> jobject \<Rightarrow> agent \<Rightarrow> agent" where
  "handleMessage env socket ty msg a =
     (let (handled, a) = dispatch (agentRouter env) socket ty msg a
      in if \<not> handled then sendJson env socket (errorMsg ''Unknown type'') False a else a)"

definition onClientDisconnected :: "env \<Rightarrow> socket \<Rightarrow> agent \<Rightarrow> agent" where
  "onClientDisconnected env socket a =
     (let a = a\<lparr>a_subscribers := removeOne socket (a_subscribers a)\<rparr>;
          (removed, r) = removeSocket socket (a_registry a);
          a = (if removed then recomputeAndAnnounce env (a\<lparr>a_registry := r\<rparr>) else a);
          a = a\<lparr>a_queue := removeWaiter socket (a_queue a)\<rparr>;
          a = keyringCleanupForSocket env socket a;
          a = pinentryCleanupForSocket env socket a
      in launchIfNeeded env ''provider-disconnected'' a)"

definition pruneStaleProviders :: "env \<Rightarrow> agent \<Rightarrow> agent" where
  "pruneStaleProviders env a =
     (let (now, a) = readClock env a;
          (changed, r) = pruneStale now (e_connected env) (a_registry a);
          a = a\<lparr>a_registry := r\<rparr>;
          a = (if changed then emitProviderStatus env a else a)
      in launchIfNeeded env ''provider-prune'' a)"

end
