(* ===== verification/Agent_Invariant.thy ===== *)
theory Agent_Invariant
  imports Agent_Handlers
begin

text \<open>
  The daemon as a transition system: one step is one event of its loop, handled in an arbitrary
  environment.  The invariant ties the tables of the three request sources to the session store;
  every reachable state satisfies it.
\<close>

section \<open>Steps\<close>

inductive agent_step :: "agent \<Rightarrow> agent \<Rightarrow> bool" where
  message: "socket \<noteq> nullptr \<Longrightarrow> agent_step a (handleMessage env socket ty msg a)"
| disconnect: "socket \<noteq> nullptr \<Longrightarrow> agent_step a (onClientDisconnected env socket a)"
| maintenance: "agent_step a (pruneStaleProviders env a)"
| resultTimer: "agent_step a (pinentryTimeout env cookie a)"
| polkitInitiate: "agent_step a (initiateAuthentication env actionId message iconName details cookie ids a)"
| polkitCancel: "agent_step a (cancelAuthentication env a)"
| polkitRequest: "agent_step a (plSessionRequest env session request echo a)"
| polkitCompleted: "agent_step a (plSessionCompleted env session gained a)"
| polkitError: "agent_step a (plSessionError env session txt a)"
| polkitInfo: "agent_step a (plSessionInfo env session txt a)"
| ipcError: "agent_step a (sendJson env socket (errorMsg txt) False a)"

inductive reachable :: "agent \<Rightarrow> bool" where
  start: "reachable (initAgent socketPath dirs)"
| step: "reachable a \<Longrightarrow> agent_step a b \<Longrightarrow> reachable b"

inductive_cases agent_stepE: "agent_step a b"

section \<open>The invariant\<close>

definition agent_ok :: "agent \<Rightarrow> bool" where
  "agent_ok a \<longleftrightarrow> core_ok a \<and> keyring_ok a \<and> pinentry_ok a \<and> listener_ok a"

lemma agent_okD:
  "agent_ok a \<Longrightarrow> core_ok a" "agent_ok a \<Longrightarrow> keyring_ok a" "agent_ok a \<Longrightarrow> pinentry_ok a"
  "agent_ok a \<Longrightarrow> listener_ok a"
  by (simp_all add: agent_ok_def)

lemma agent_ok_init: "agent_ok (initAgent p d)"
  using init_flows by (simp add: agent_ok_def core_ok_init keyring_ok_def)

text \<open>Operations that leave the request tables and the sessions alone.\<close>

lemma agent_ok_same:
  assumes "agent_ok a" and "core_ok b" and "sessionSource b = sessionSource a"
    and "a_keyring b = a_keyring a" and "a_pinentry b = a_pinentry a" and "a_listener b = a_listener a"
  shows "agent_ok b"
  using assms listener_ok_transfer [of a b] keyring_ok_transfer [of a b]
  by (simp add: agent_ok_def)

lemma agent_ok_basic [wf_intros]:
  assumes "agent_ok a"
  shows "agent_ok (sendJson e s j w a)" and "agent_ok (emitProviderStatus e a)"
    and "agent_ok (recomputeAndAnnounce e a)" and "agent_ok (snd (agentRecompute e a))"
    and "agent_ok (ensureFallbackUiRunning e t a)" and "agent_ok (snd (readClock e a))"
    and "agent_ok (a\<lparr>a_subscribers := ss\<rparr>)" and "agent_ok (toOrigin e s j w a)"
proof -
  note c = agent_okD(1) [OF assms]
  show "agent_ok (sendJson e s j w a)" by (rule agent_ok_same [OF assms]) (simp_all add: core_ok_send c)
  then show "agent_ok (toOrigin e s j w a)" using assms by (simp add: toOrigin_def)
  show "agent_ok (emitProviderStatus e a)" by (rule agent_ok_same [OF assms]) (simp_all add: core_ok_send c)
  show "agent_ok (recomputeAndAnnounce e a)" "agent_ok (snd (agentRecompute e a))"
    by (rule agent_ok_same [OF assms]; simp add: core_ok_recompute c)+
  show "agent_ok (ensureFallbackUiRunning e t a)"
    by (rule agent_ok_same [OF assms]) (simp_all add: core_ok_ensure c)
  show "agent_ok (snd (readClock e a))"
    by (rule agent_ok_same [OF assms]) (simp_all add: c readClock_def)
  show "agent_ok (a\<lparr>a_subscribers := ss\<rparr>)" by (rule agent_ok_same [OF assms]) (simp_all add: c)
qed

lemma agent_ok_launch [wf_intros]: "agent_ok a \<Longrightarrow> agent_ok (launchIfNeeded e t a)"
  by (simp add: launchIfNeeded_def agent_ok_basic)

lemma agent_ok_queue:
  "agent_ok a \<Longrightarrow> queue_ok q \<Longrightarrow> agent_ok (a\<lparr>a_queue := q\<rparr>)"
  by (rule agent_ok_same) (auto simp: agent_ok_def core_ok_def)

lemma agent_ok_registry:
  "agent_ok a \<Longrightarrow> registry_ok r \<Longrightarrow> agent_ok (a\<lparr>a_registry := r\<rparr>)"
  by (rule agent_ok_same) (auto simp: agent_ok_def core_ok_def)

lemma agent_ok_queue_ok: "agent_ok a \<Longrightarrow> queue_ok (a_queue a)"
  by (simp add: agent_ok_def core_ok_def)

lemma agent_ok_registry_ok: "agent_ok a \<Longrightarrow> registry_ok (a_registry a)"
  by (simp add: agent_ok_def core_ok_def)

text \<open>The registry may lose its active provider for the moment between an unregistration and the
  selection of the next one.\<close>

lemma agent_ok_announce_wf:
  assumes "agent_ok a" and "registry_wf r"
  shows "agent_ok (recomputeAndAnnounce e (a\<lparr>a_registry := r\<rparr>))"
proof (rule agent_ok_same [OF assms(1)])
  show "core_ok (recomputeAndAnnounce e (a\<lparr>a_registry := r\<rparr>))"
    using agent_okD(1) [OF assms(1)] recompute_registry_ok [OF assms(2)]
    by (simp add: core_ok_def agentRecompute_registry)
qed simp_all

section \<open>Request handlers\<close>

lemma keyring_request_others:
  assumes "agent_ok a" shows "agent_ok (keyringHandleRequest e m s p a)"
proof -
  let ?b = "keyringHandleRequest e m s p a" and ?c = "requestCookie e m a"
  note eff = keyringRequest_effect(2) [of ?c e m a s p, OF refl]
  have "listener_ok ?b" by (rule listener_ok_transfer [OF agent_okD(4) [OF assms]]) (auto simp: eff)
  moreover have "pinentry_ok ?b"
    using flows_ok_transfer [OF agent_okD(3) [OF assms], of "sessionSource ?b"] by (auto simp: eff)
  ultimately show ?thesis using assms by (simp add: agent_ok_def core_ok_keyring keyring_ok_request)
qed

text \<open>Closing a session of one source leaves the tables of the other two as they should be.\<close>

lemma close_others:
  assumes "agent_ok a" and "sessionSource b = (sessionSource a)(c := None)"
  shows "sessionSource a c \<noteq> Some Keyring \<Longrightarrow> a_keyring b = a_keyring a \<Longrightarrow> keyring_ok b"
    and "sessionSource a c \<noteq> Some Pinentry \<Longrightarrow> a_pinentry b = a_pinentry a \<Longrightarrow> pinentry_ok b"
    and "sessionSource a c \<noteq> Some Polkit \<Longrightarrow> a_listener b = a_listener a \<Longrightarrow> listener_ok b"
proof -
  show "keyring_ok b" if "sessionSource a c \<noteq> Some Keyring" "a_keyring b = a_keyring a"
    by (rule keyring_ok_transfer [OF agent_okD(2) [OF assms(1)] that(2)]) (use that(1) in \<open>auto simp: assms(2)\<close>)
  show "pinentry_ok b" if "sessionSource a c \<noteq> Some Pinentry" "a_pinentry b = a_pinentry a"
    using flows_ok_transfer [OF agent_okD(3) [OF assms(1)], of "sessionSource b"] that by (auto simp: assms(2))
  show "listener_ok b" if "sessionSource a c \<noteq> Some Polkit" "a_listener b = a_listener a"
    by (rule listener_ok_transfer [OF agent_okD(4) [OF assms(1)] that(2)]) (use that(1) in \<open>auto simp: assms(2)\<close>)
qed

lemma keyring_pending_source:
  assumes "agent_ok a" and "keyringHasPending c a"
  shows "sessionSource a c = Some Keyring"
  using assms by (auto simp: agent_ok_def keyring_ok_def keyringHasPending_def hash_has_def)

lemma agent_ok_keyring_answer:
  assumes "agent_ok a"
  shows "agent_ok (snd (keyringHandleResponse e c r a))" and "agent_ok (snd (keyringHandleCancel e c a))"
proof -
  have "agent_ok (snd (keyringHandleResponse e c r a)) \<and> agent_ok (snd (keyringHandleCancel e c a))"
  proof (cases "keyringHasPending c a")
    case True
    note src = keyring_pending_source [OF assms True]
    note eff = keyringAnswer_effect [OF True]
    show ?thesis
      using close_others(2,3) [OF assms eff(3), where e1 = e and r1 = r] close_others(2,3) [OF assms eff(6), where e1 = e] src
        keyring_ok_answer [OF agent_okD(2) [OF assms]] core_ok_keyring [OF agent_okD(1) [OF assms]]
      by (simp add: agent_ok_def)
  next
    case False
    then show ?thesis using assms
      by (simp add: keyringHandleResponse_def keyringHandleCancel_def keyringHasPending_def hash_has_def)
  qed
  then show "agent_ok (snd (keyringHandleResponse e c r a))" and "agent_ok (snd (keyringHandleCancel e c a))"
    by simp_all
qed

lemma agent_ok_closeFlow:
  assumes "agent_ok a" shows "agent_ok (closeFlow e c r err a)"
proof (cases "sessionSource a c = Some Pinentry")
  case True
  then have "sessionSource (closeFlow e c r err a) = (sessionSource a)(c := None)" by (simp add: closeFlow_effect)
  from close_others(1,3) [OF assms this] True show ?thesis
    using pinentry_ok_closeFlow [OF agent_okD(3) [OF assms]] core_ok_closeFlow [OF agent_okD(1) [OF assms]]
    by (simp add: agent_ok_def)
next
  case False
  then have s: "sessionSource (closeFlow e c r err a) = sessionSource a" by (simp add: closeFlow_effect)
  show ?thesis
    using assms pinentry_ok_closeFlow [OF agent_okD(3) [OF assms], of e c r err] core_ok_closeFlow [OF agent_okD(1) [OF assms]]
      keyring_ok_transfer [of a "closeFlow e c r err a"] listener_ok_transfer [of a "closeFlow e c r err a"]
    by (simp add: agent_ok_def s)
qed

lemma agent_ok_pinentry_request:
  assumes "agent_ok a" shows "agent_ok (pinentryHandleRequest e m s p a)"
proof -
  let ?b = "pinentryHandleRequest e m s p a"
  have src: "sessionSource ?b d = sessionSource a d \<or> (sessionSource a d = None \<and> sessionSource ?b d = Some Pinentry)" for d
    using pinentryRequest_effect(1) [OF _ refl refl, of e m p a s]
    by (cases "accepted e m p a") (auto simp: pinentryRequest_rejected)
  have k: "sessionSource ?b d = Some Keyring" if "sessionSource a d = Some Keyring" for d
    using src [of d] that by auto
  have l: "sessionSource ?b d = Some Polkit \<longleftrightarrow> sessionSource a d = Some Polkit" for d
    using src [of d] by auto
  have "keyring_ok ?b" by (rule keyring_ok_transfer [OF agent_okD(2) [OF assms]]) (simp_all add: k)
  moreover have "listener_ok ?b" by (rule listener_ok_transfer [OF agent_okD(4) [OF assms]]) (simp_all add: l)
  ultimately show ?thesis
    using assms by (simp add: agent_ok_def pinentry_ok_request core_ok_pinentryRequest)
qed

lemma agent_ok_pinentry_ops:
  assumes "agent_ok a"
  shows "agent_ok (snd (pinentryHandleResponse e c r a))" and "agent_ok (snd (pinentryHandleCancel e c a))"
    and "agent_ok (snd (pinentryHandleResult e m p a))" and "agent_ok (pinentryTimeout e c a)"
    and "agent_ok (pinentryCleanupForSocket e s a)"
proof -
  let ?b = "snd (pinentryHandleResponse e c r a)"
  show "agent_ok ?b"
    using assms pinentry_ok_response [OF agent_okD(3) [OF assms], of e c r] core_ok_pinentry(1) [OF agent_okD(1) [OF assms]]
      keyring_ok_transfer [of a ?b] listener_ok_transfer [of a ?b]
    by (simp add: agent_ok_def)
  show "agent_ok (snd (pinentryHandleCancel e c a))" "agent_ok (pinentryTimeout e c a)"
    using assms by (simp_all add: pinentryHandleCancel_def pinentryTimeout_def agent_ok_closeFlow)
  show "agent_ok (pinentryCleanupForSocket e s a)"
    unfolding pinentryCleanupForSocket_def Let_def
    by (rule fold_closeFlow [where Q = agent_ok]) (auto intro: agent_ok_closeFlow assms)
  let ?r = "snd (pinentryHandleResult e m p a)" and ?c = "toStr (jvalue m ''id'')"
  have src: "sessionSource ?r = sessionSource a
      \<or> (sessionSource a ?c = Some Pinentry \<and> sessionSource ?r = (sessionSource a)(?c := None))"
    by (auto simp: pinentryHandleResult_def Let_def closeFlow_effect)
  then have "keyring_ok ?r" "listener_ok ?r"
    using close_others(1,3) [OF assms, of ?r ?c] keyring_ok_transfer [of a ?r] listener_ok_transfer [of a ?r]
      agent_okD [OF assms] by auto
  then show "agent_ok ?r"
    using pinentry_ok_result [OF agent_okD(3) [OF assms]] core_ok_pinentry(2) [OF agent_okD(1) [OF assms]]
    by (simp add: agent_ok_def)
qed

text \<open>The listener only touches polkit sessions.\<close>

lemma agent_ok_listener:
  assumes "agent_ok a" and "listener_ok b" and "core_ok b" and "a_keyring b = a_keyring a" and "a_pinentry b = a_pinentry a"
    and "\<And>c. sessionSource b c = sessionSource a c
      \<or> (sessionSource a c \<in> {None, Some Polkit} \<and> sessionSource b c \<in> {None, Some Polkit})"
  shows "agent_ok b"
proof -
  have k: "sessionSource b c = Some Keyring" if "sessionSource a c = Some Keyring" for c
    using assms(6) [of c] that by auto
  have p: "sessionSource b c = Some Pinentry \<longleftrightarrow> sessionSource a c = Some Pinentry" for c
    using assms(6) [of c] by auto
  show ?thesis
    using assms(1-5) keyring_ok_transfer [of a b] flows_ok_transfer [OF _ p, where pm = "a_pinentry a"] k
    by (simp add: agent_ok_def)
qed

lemma agent_ok_polkit_events:
  assumes "agent_ok a"
  shows "agent_ok (initiateAuthentication e ai m ic dt c ids a)" and "agent_ok (cancelAuthentication e a)"
    and "agent_ok (plSessionRequest e n t b a)" and "agent_ok (plSessionCompleted e n g a)"
    and "agent_ok (plSessionError e n t a)" and "agent_ok (plSessionInfo e n t a)"
    and "agent_ok (cancelPending e c a)" and "agent_ok (submitPassword c t a)"
proof -
  note o' = agent_okD [OF assms]
  note l = listener_okD(1) [OF o'(4)]
  show "agent_ok (initiateAuthentication e ai m ic dt c ids a)"
  proof (rule agent_ok_listener [OF assms listener_ok_initiate [OF o'(4)]])
    fix d
    show "sessionSource (initiateAuthentication e ai m ic dt c ids a) d = sessionSource a d
        \<or> (sessionSource a d \<in> {None, Some Polkit} \<and>
           sessionSource (initiateAuthentication e ai m ic dt c ids a) d \<in> {None, Some Polkit})"
      using initiate_rejected(3) [OF l, of c ids e ai m ic dt] initiate_opened(3) [OF l, of c ids e ai m ic dt]
      by (cases "openable c ids a") (auto simp: openable_def)
  qed (simp_all add: o')
  show "agent_ok (cancelAuthentication e a)"
    by (rule agent_ok_listener [OF assms cancelAuthentication_effect(2) [OF o'(4)]])
      (auto simp: o' cancelAuthentication_effect(1) [OF o'(4)])
  show "agent_ok (plSessionRequest e n t b a)" "agent_ok (plSessionError e n t a)" "agent_ok (plSessionInfo e n t a)"
    by (rule agent_ok_listener [OF assms]; simp add: o' listener_ok_updates core_ok_listener)+
  show "agent_ok (plSessionCompleted e n g a)"
  proof (rule agent_ok_listener [OF assms listener_ok_completed [OF o'(4)]])
    fix d
    show "sessionSource (plSessionCompleted e n g a) d = sessionSource a d
        \<or> (sessionSource a d \<in> {None, Some Polkit} \<and> sessionSource (plSessionCompleted e n g a) d \<in> {None, Some Polkit})"
    proof (cases "findStateForSession n a")
      case (Some x)
      obtain c st where x: "x = (c, st)" by force
      note f = findStateForSession_Some [OF Some [unfolded x] l]
      note fl = linkedD [OF l f(1)]
      have i: "findState c (completedAgent e c st g a) = Some (completedState g st)"
        "pk_inProgress (completedState g st)" "0 < pk_session (completedState g st)"
        using fl by simp_all
      show ?thesis
        using finishAuth_ends(3) [OF i(1,2) _ i(3), of e] finishAuth_retries(3) [OF i(1,2) _ i(3), of e] fl Some x
        by (cases "retries (completedState g st)") (auto simp: plSessionCompleted_eq)
    qed (simp add: plSessionCompleted_eq)
  qed (simp_all add: o' core_ok_listener)
  show "agent_ok (cancelPending e c a)"
  proof (cases "findState c a")
    case (Some st)
    note x = cancelPending_effect [OF o'(4) Some, where e = e]
    show ?thesis
      by (rule agent_ok_listener [OF assms listener_ok_cancelPending [OF o'(4)]])
        (auto simp: o' core_ok_listener x(2) linkedD(6) [OF l Some])
  qed (simp add: cancelPending_def assms)
  show "agent_ok (submitPassword c t a)"
    by (rule agent_ok_same [OF assms]) (simp_all add: o' core_ok_listener)
qed

section \<open>Message handlers\<close>

lemma agent_ok_queries:
  assumes "agent_ok a"
  shows "agent_ok (handlePing e s m a)" and "agent_ok (handleNext e s m a)" and "agent_ok (handleSubscribe e s m a)"
proof -
  show "agent_ok (handlePing e s m a)" using assms by (simp add: handlePing_def Let_def agent_ok_basic)
  note q = agent_ok_queue_ok [OF assms]
  show "agent_ok (handleNext e s m a)"
    using assms queue_ok_takeNext [OF q] queue_ok_subscribeNext [OF q]
    by (auto simp: handleNext_def case_prod_beta queueIsEmpty_def intro!: agent_ok_basic agent_ok_queue)
  have f: "agent_ok (fold (\<lambda>(c, x) a. sendJson e s (toUpdatedEvent x) False (sendJson e s (toCreatedEvent x) False a)) xs b)"
    if "agent_ok b" for xs b
    using that by (induction xs arbitrary: b) (auto simp: agent_ok_basic)
  have i: "agent_ok x \<Longrightarrow> agent_ok y \<Longrightarrow> agent_ok (if b then x else y)" for b x y by simp
  show "agent_ok (handleSubscribe e s m a)"
    unfolding handleSubscribe_def Let_def by (intro agent_ok_basic(1,7) i f assms)
qed

lemma agent_ok_providers:
  assumes "agent_ok a" and "s \<noteq> nullptr"
  shows "agent_ok (handleUIRegister e s m a)" and "agent_ok (handleUIHeartbeat e s m a)"
    and "agent_ok (handleUIUnregister e s m a)" and "agent_ok (pruneStaleProviders e a)"
proof -
  note r = agent_ok_registry_ok [OF assms(1)]
  note w = registry_ok_wf [OF r]
  have u: "agent_ok (snd (createUuid e b))" if "agent_ok b" for b
    by (rule agent_ok_same [OF that]) (simp_all add: createUuid_def agent_okD [OF that])
  have "agent_ok (snd (agentRegister e s m a))"
  proof -
    have "agent_ok (b\<lparr>a_registry := snd (registerProvider now i s m (a_registry a))\<rparr>)" if "agent_ok b" for b now i
      by (intro agent_ok_registry registry_ok_register_keeps r that assms(2))
    moreover have "a_registry (snd (createUuid e a)) = a_registry a" by (simp add: createUuid_def)
    ultimately show ?thesis using assms(1) u [OF assms(1)]
      by (simp add: agentRegister_def Let_def case_prod_beta agent_ok_basic)
  qed
  then show "agent_ok (handleUIRegister e s m a)"
    by (simp add: handleUIRegister_def Let_def case_prod_beta agent_ok_basic)
  have "registry_ok (snd (heartbeat now s r'))" if "registry_ok r'" for now r'
    using that by (auto simp: heartbeat_def registry_ok_def hash_has_def split: option.splits)
  then show "agent_ok (handleUIHeartbeat e s m a)"
    using assms(1)
    by (simp add: handleUIHeartbeat_def Let_def case_prod_beta agent_ok_basic agent_ok_registry agent_ok_registry_ok)
  show "agent_ok (handleUIUnregister e s m a)"
    using assms(1) registry_wf_ops(3) [OF w, of s]
    by (simp add: handleUIUnregister_def Let_def case_prod_beta agent_ok_basic agent_ok_launch agent_ok_announce_wf)
  have "agent_ok (pruneStaleProviders e a)"
    using assms(1) recompute_registry_ok [OF w]
    by (simp add: pruneStaleProviders_def pruneStale_def Let_def case_prod_beta agent_ok_basic agent_ok_launch
        agent_ok_registry)
  then show "agent_ok (pruneStaleProviders e a)" .
qed

lemma agent_ok_answers:
  assumes "agent_ok a"
  shows "agent_ok (handleRespond e s m a)" and "agent_ok (handleCancel e s m a)"
  using assms
  by (simp_all add: handleRespond_def handleCancel_def Let_def case_prod_beta agent_ok_basic agent_ok_keyring_answer
      agent_ok_pinentry_ops agent_ok_polkit_events split: option.split)

lemma agent_ok_requests:
  assumes "agent_ok a"
  shows "agent_ok (handleKeyringRequest e s m a)" and "agent_ok (handlePinentryRequest e s m a)"
    and "agent_ok (handlePinentryResult e s m a)"
  using assms
  by (simp_all add: handleKeyringRequest_def handlePinentryRequest_def handlePinentryResult_def case_prod_beta
      agent_ok_basic keyring_request_others agent_ok_pinentry_request agent_ok_pinentry_ops)

text \<open>The router in closed form: one handler per message type.\<close>

lemma handleMessage_eq:
  "handleMessage e s ty m a =
     (if ty = ''session.cancel'' then handleCancel e s m a
      else if ty = ''session.respond'' then handleRespond e s m a
      else if ty = ''ui.unregister'' then handleUIUnregister e s m a
      else if ty = ''ui.heartbeat'' then handleUIHeartbeat e s m a
      else if ty = ''ui.register'' then handleUIRegister e s m a
      else if ty = ''pinentry_result'' then handlePinentryResult e s m a
      else if ty = ''pinentry_request'' then handlePinentryRequest e s m a
      else if ty = ''keyring_request'' then handleKeyringRequest e s m a
      else if ty = ''next'' then handleNext e s m a
      else if ty = ''subscribe'' then handleSubscribe e s m a
      else if ty = ''ping'' then handlePing e s m a
      else sendJson e s (errorMsg ''Unknown type'') False a)"
  unfolding handleMessage_def agentRouter_def dispatch_registered
  by (simp add: dispatch_def split: if_split)

lemma agent_ok_message:
  assumes "agent_ok a" and "s \<noteq> nullptr" shows "agent_ok (handleMessage e s ty m a)"
  unfolding handleMessage_eq
  using agent_ok_queries [OF assms(1)] agent_ok_providers [OF assms] agent_ok_answers [OF assms(1)]
    agent_ok_requests [OF assms(1)] agent_ok_basic(1) [OF assms(1)]
  by (simp split: if_split)

lemma agent_ok_disconnect:
  assumes "agent_ok a" shows "agent_ok (onClientDisconnected e s a)"
proof -
  note w = registry_ok_wf [OF agent_ok_registry_ok [OF assms]]
  define a1 where "a1 = a\<lparr>a_subscribers := removeOne s (a_subscribers a)\<rparr>"
  define a2 where "a2 = (if fst (removeSocket s (a_registry a1))
     then recomputeAndAnnounce e (a1\<lparr>a_registry := snd (removeSocket s (a_registry a1))\<rparr>) else a1)"
  define a3 where "a3 = a2\<lparr>a_queue := removeWaiter s (a_queue a2)\<rparr>"
  have 1: "agent_ok a1" unfolding a1_def by (rule agent_ok_basic(7) [OF assms])
  have 2: "agent_ok a2"
    using agent_ok_announce_wf [OF 1 registry_wf_ops(4) [OF w]] 1 by (simp add: a2_def a1_def)
  have 3: "agent_ok a3"
    unfolding a3_def by (rule agent_ok_queue [OF 2]) (rule queue_ok_removeWaiter [OF agent_ok_queue_ok [OF 2]])
  have 4: "agent_ok (keyringCleanupForSocket e s a3)"
  proof -
    let ?b = "keyringCleanupForSocket e s a3"
    note k = agent_okD(2) [OF 3]
    have src: "sessionSource ?b c = sessionSource a3 c \<or> (sessionSource a3 c = Some Keyring \<and> sessionSource ?b c = None)" for c
      using keyringCleanup_find(2) [OF k, of e s c] k by (auto simp: keyring_ok_def split: option.splits)
    have p: "sessionSource ?b c = Some Pinentry \<longleftrightarrow> sessionSource a3 c = Some Pinentry"
      "sessionSource ?b c = Some Polkit \<longleftrightarrow> sessionSource a3 c = Some Polkit" for c
      using src [of c] by auto
    have "listener_ok ?b" by (rule listener_ok_transfer [OF agent_okD(4) [OF 3]]) (simp_all add: p)
    moreover have "pinentry_ok ?b"
      using flows_ok_transfer [OF agent_okD(3) [OF 3] p(1)] by simp
    ultimately show ?thesis using 3 by (simp add: agent_ok_def keyring_ok_cleanup core_ok_keyring)
  qed
  have eq: "onClientDisconnected e s a =
      launchIfNeeded e ''provider-disconnected'' (pinentryCleanupForSocket e s (keyringCleanupForSocket e s a3))"
    by (simp add: onClientDisconnected_def a3_def a2_def a1_def Let_def case_prod_beta)
  show ?thesis unfolding eq by (intro agent_ok_launch agent_ok_pinentry_ops 4)
qed

section \<open>Reachable states\<close>

lemma agent_ok_step:
  assumes "agent_ok a" and "agent_step a b" shows "agent_ok b"
  using assms(2)
proof (cases rule: agent_step.cases)
  case (maintenance env)
  then show ?thesis using agent_ok_providers(4) [OF assms(1), of 1] by simp
qed (simp_all add: assms(1) agent_ok_message agent_ok_disconnect agent_ok_pinentry_ops agent_ok_polkit_events
    agent_ok_basic)

lemma reachable_ok: "reachable a \<Longrightarrow> agent_ok a"
  by (induction rule: reachable.induct) (auto intro: agent_ok_init agent_ok_step)


definition example_run :: agent where
  "example_run = handleMessage example_env 9 ''keyring_request'' example_keyring_msg
     (handleMessage example_env 4 ''pinentry_request'' example_pinentry_msg (initAgent [] []))"

lemma example_run_reachable: "reachable example_run"
proof -
  have 1: "reachable (handleMessage example_env 4 ''pinentry_request'' example_pinentry_msg (initAgent [] []))"
    by (rule reachable.step [OF reachable.start]) (rule agent_step.message, simp)
  show ?thesis unfolding example_run_def by (rule reachable.step [OF 1]) (rule agent_step.message, simp)
qed


end
