(* ===== verification/Agent_Closure.thy ===== *)
theory Agent_Closure
  imports Agent_Invariant
begin

text \<open>
  What every operation of the daemon keeps, once its primitives keep it: the interface
  \<open>agent_closed\<close> lists the primitive effects of a step (a change of the request tables, a
  message without a password, creation, update and end of a session, the announcement of
  providers, the launch of a fallback UI), and its lemmas carry any such property through the
  managers, the polkit listener and the message handlers.  The events of the daemon are a datatype
  here, so that a statement can say which event caused an effect.
\<close>

section \<open>Harmless messages\<close>

definition hasPassword :: "jobject \<Rightarrow> bool" where
  "hasPassword j \<longleftrightarrow> jcontains j ''password''"

abbreviation plain :: "jobject \<Rightarrow> bool" where
  "plain j \<equiv> \<not> isSessionEventForProviderRouting j"

text \<open>Neither a session event nor a password.\<close>

definition harmless :: "jobject \<Rightarrow> bool" where
  "harmless j \<longleftrightarrow> plain j \<and> \<not> hasPassword j"

lemma no_password [simp]:
  "\<not> hasPassword (toCreatedEvent s)" "\<not> hasPassword (toUpdatedEvent s)" "\<not> hasPassword (toClosedEvent s)"
  by (auto simp: hasPassword_def toCreatedEvent_def toUpdatedEvent_def toClosedEvent_def addStr_def hash_has_def
      Let_def split: option.splits)

lemma session_event_kinds [simp]:
  "isSessionEventForProviderRouting (toCreatedEvent x)" "isSessionEventForProviderRouting (toUpdatedEvent x)"
  "isSessionEventForProviderRouting (toClosedEvent x)"
  by (simp_all add: isSessionEventForProviderRouting_def)

lemma harmless_typed:
  "jvalue j ''type'' = Some (JStr ty) \<Longrightarrow> \<not> startsWith ty ''session.'' \<Longrightarrow> \<not> jcontains j ''password'' \<Longrightarrow> harmless j"
  by (simp add: harmless_def hasPassword_def isSessionEventForProviderRouting_def)

lemma harmless_replies [simp]:
  "harmless (errorMsg m)" "harmless okMsg" "harmless (providerStatus r)" "harmless (keyringReplyCancelled c)"
  "harmless (pinentryCancelled c)" "harmless notRegistered" "harmless notActiveProvider"
  "harmless (okMsg @ [(''active'', JBool b)])"
  "harmless [(''type'', JStr ''ui.registered''), (''id'', x), (''active'', y), (''priority'', z)]"
  by (auto intro!: harmless_typed simp: errorMsg_def okMsg_def providerStatus_def keyringReplyCancelled_def
      pinentryCancelled_def notRegistered_def notActiveProvider_def startsWith_def hash_has_def split: option.split)

lemma harmless_plain: "harmless j \<Longrightarrow> plain j"
  by (simp add: harmless_def)

lemmas plain_replies [simp] = harmless_replies [THEN harmless_plain]

text \<open>Of these, the ordinary replies say nothing about who the active provider is either.\<close>

definition ordinary :: "jobject \<Rightarrow> bool" where
  "ordinary j \<longleftrightarrow> harmless j \<and> toStr (jvalue j ''type'') \<notin> {''ui.registered'', ''ui.active'', ''subscribed''}"

lemma ordinary_replies [simp]:
  "ordinary (errorMsg m)" "ordinary okMsg" "ordinary (keyringReplyCancelled c)" "ordinary (pinentryCancelled c)"
  "ordinary notRegistered" "ordinary notActiveProvider" "ordinary (okMsg @ [(''active'', JBool b)])"
  using harmless_replies
  by (simp_all add: ordinary_def errorMsg_def okMsg_def keyringReplyCancelled_def pinentryCancelled_def
      notRegistered_def notActiveProvider_def)

lemma ordinary_manager_replies [simp]:
  "ordinary (fst (keyringHandleCancel e c a))" "ordinary (fst (pinentryHandleCancel e c a))"
  "ordinary (fst (pinentryHandleResult e m p a))"
  by (simp_all add: keyringHandleCancel_def pinentryHandleCancel_def pinentryHandleResult_def Let_def
      split: option.split)

lemma ordinary_typed:
  "jvalue j ''type'' = Some (JStr ty) \<Longrightarrow> \<not> startsWith ty ''session.'' \<Longrightarrow> \<not> jcontains j ''password'' \<Longrightarrow>
   ty \<notin> {''ui.registered'', ''ui.active'', ''subscribed''} \<Longrightarrow> ordinary j"
  by (simp add: ordinary_def harmless_typed)

lemma ordinary_put:
  "ordinary j \<Longrightarrow> k \<noteq> ''type'' \<Longrightarrow> k \<noteq> ''password'' \<Longrightarrow> ordinary (hash_put k x j)"
  by (simp add: ordinary_def harmless_def hasPassword_def isSessionEventForProviderRouting_def)

section \<open>The interface\<close>

locale agent_closed =
  fixes e :: env and Q :: "agent \<Rightarrow> bool"
  assumes fields: "Q a \<Longrightarrow> Q (a\<lparr>a_keyring := k, a_pinentry := pm, a_listener := l, a_uuids := n, a_polkit := pc,
      a_fault := b\<rparr>)"
    and sent: "Q a \<Longrightarrow> ordinary j \<Longrightarrow> Q (a\<lparr>a_sent := a_sent a @ [(t, j, w)]\<rparr>)"
    and created: "Q a \<Longrightarrow> Q (snd (agentCreateSession e i src c a))"
    and prompted: "Q a \<Longrightarrow> Q (updateSessionPrompt e i x ec cl a)"
    and retried: "Q a \<Longrightarrow> Q (updateSessionPrompt e i x ec cl (updateSessionPinentryRetry i cur mx a))"
    and failed: "Q a \<Longrightarrow> Q (updateSessionError e i x a)"
    and informed: "Q a \<Longrightarrow> Q (onSessionInfo e i x a)"
    and closed: "Q a \<Longrightarrow> Q (closeSession e i r a)"
    and completed: "Q a \<Longrightarrow> Q (onSessionComplete e i ok a)"
    and announced: "Q a \<Longrightarrow> Q (recomputeAndAnnounce e a)"
    and launched: "Q a \<Longrightarrow> Q (ensureFallbackUiRunning e x a)"
begin

lemma tables:
  assumes "Q a"
  shows "Q (a\<lparr>a_keyring := k\<rparr>)" "Q (a\<lparr>a_pinentry := pm\<rparr>)" "Q (a\<lparr>a_listener := l\<rparr>)" "Q (a\<lparr>a_uuids := n\<rparr>)"
    "Q (a\<lparr>a_polkit := pc\<rparr>)" "Q (a\<lparr>a_fault := b\<rparr>)"
  using fields [OF assms, where k = "k" and pm = "a_pinentry a" and l = "a_listener a" and n = "a_uuids a" and pc = "a_polkit a" and b = "a_fault a"]
    fields [OF assms, where k = "a_keyring a" and pm = "pm" and l = "a_listener a" and n = "a_uuids a" and pc = "a_polkit a" and b = "a_fault a"]
    fields [OF assms, where k = "a_keyring a" and pm = "a_pinentry a" and l = "l" and n = "a_uuids a" and pc = "a_polkit a" and b = "a_fault a"]
    fields [OF assms, where k = "a_keyring a" and pm = "a_pinentry a" and l = "a_listener a" and n = "n" and pc = "a_polkit a" and b = "a_fault a"]
    fields [OF assms, where k = "a_keyring a" and pm = "a_pinentry a" and l = "a_listener a" and n = "a_uuids a" and pc = "pc" and b = "a_fault a"]
    fields [OF assms, where k = "a_keyring a" and pm = "a_pinentry a" and l = "a_listener a" and n = "a_uuids a" and pc = "a_polkit a" and b = "b"]
  by simp_all

lemma sends: "Q a \<Longrightarrow> ordinary j \<Longrightarrow> Q (sendJson e' t j w a)" "Q a \<Longrightarrow> ordinary j \<Longrightarrow> Q (toOrigin e' t j w a)"
  using sent by (simp_all add: sendJson_def toOrigin_def)

lemma callbacks:
  "Q a \<Longrightarrow> Q (onSessionRequest e i x ec a)" "Q a \<Longrightarrow> Q (onSessionRetry e i x a)"
  using prompted failed by (simp_all add: update_ops_defs)

lemma launchIfNeeded: "Q a \<Longrightarrow> Q (launchIfNeeded e x a)"
  by (simp add: launchIfNeeded_def launched)

lemma requests:
  assumes "Q a"
  shows "Q (snd (cookieOrUuid e' c a))" and "Q (collisionReply e' t a)" and "Q (pmUpd f a)"
    and "Q (closeFlow e c r err a)" and "Q (pinentryShowPrompt e c rq a)"
    and "Q (pinentryShowPrompt e c rq (updateSessionPinentryRetry c x y a))"
    and "Q (snd (pinentryAdmit c rq p a))"
proof -
  have pm: "Q (pmUpd f b)" if "Q b" for f b using that by (simp add: pmUpd_def tables)
  show "Q (snd (cookieOrUuid e' c a))" using assms by (simp add: cookieOrUuid_def createUuid_def tables)
  show "Q (collisionReply e' t a)" using assms by (simp add: collisionReply_def sent)
  show "Q (closeFlow e c r err a)"
    using assms by (simp add: closeFlow_def closeFlowSession_def pm closed failed split: option.split)
  show "Q (pinentryShowPrompt e c rq a)" "Q (pinentryShowPrompt e c rq (updateSessionPinentryRetry c x y a))"
    using assms by (simp_all add: pinentryShowPrompt_def Let_def pm prompted retried failed)
  show "Q (snd (pinentryAdmit c rq p a))"
    using assms by (simp add: pinentryAdmit_def Let_def case_prod_beta pm tables)
qed (use assms in \<open>simp add: pmUpd_def tables\<close>)

lemma managers:
  assumes "Q a"
  shows "Q (keyringHandleRequest e m t p a)" and "Q (snd (keyringHandleResponse e c r a))"
    and "Q (snd (keyringHandleCancel e c a))" and "Q (keyringCleanupForSocket e t a)"
    and "Q (pinentryHandleRequest e m t p a)" and "Q (snd (pinentryHandleResponse e c r a))"
    and "Q (snd (pinentryHandleResult e m p a))" and "Q (snd (pinentryHandleCancel e c a))"
    and "Q (pinentryCleanupForSocket e t a)" and "Q (pinentryTimeout e c a)"
proof -
  note rules = created prompted failed closed tables requests
  show "Q (keyringHandleRequest e m t p a)" "Q (snd (keyringHandleResponse e c r a))"
    "Q (snd (keyringHandleCancel e c a))"
    using assms by (simp_all add: keyringHandleRequest_def keyringHandleResponse_def keyringHandleCancel_def
        Let_def case_prod_beta rules split: option.split)
  have "Q (keyringCleanupLoop e t xs a)" for xs
    using assms by (induction xs arbitrary: a) (auto simp: rules)
  then show "Q (keyringCleanupForSocket e t a)" by (simp add: keyringCleanupForSocket_def)
  show "Q (pinentryHandleRequest e m t p a)"
    using assms by (simp add: pinentryHandleRequest_def Let_def case_prod_beta rules)
  show "Q (snd (pinentryHandleResponse e c r a))" "Q (snd (pinentryHandleResult e m p a))"
    "Q (snd (pinentryHandleCancel e c a))" "Q (pinentryTimeout e c a)"
    using assms by (simp_all add: pinentryHandleResponse_def pinentryHandleResult_def pinentryHandleCancel_def
        pinentryTimeout_def Let_def rules split: option.split)
  show "Q (pinentryCleanupForSocket e t a)"
    unfolding pinentryCleanupForSocket_def Let_def
    by (rule fold_closeFlow [where Q = Q]) (auto intro: rules assms)
qed

lemma listener:
  assumes "Q a"
  shows "Q (initiateAuthentication e ai m ic dt c ids a)" and "Q (cancelAuthentication e a)"
    and "Q (plSessionRequest e n x b a)" and "Q (plSessionCompleted e n g a)"
    and "Q (plSessionError e n x a)" and "Q (plSessionInfo e n x a)"
    and "Q (cancelPending e c a)" and "Q (submitPassword c x a)"
proof -
  have prims: "Q b \<Longrightarrow> Q (putState d st b)" "Q b \<Longrightarrow> Q (removeState d b)" "Q b \<Longrightarrow> Q (dropPkSession k b)"
    "Q b \<Longrightarrow> Q (pkCall pc b)" "Q b \<Longrightarrow> Q (snd (newPkSession d b))" for b d st k pc
    by (simp_all add: putState_def removeState_def dropPkSession_def pkCall_def newPkSession_def Let_def tables)
  have re: "Q b \<Longrightarrow> Q (reattempt d b)" for b d
    by (simp add: reattempt_def prims tables split: option.split)
  have cl: "Q b \<Longrightarrow> Q (finishCleanup e d st b)" for b d st
    by (simp add: finishCleanup_def Let_def prims completed)
  have fin: "Q b \<Longrightarrow> Q (finishAuth e d b)" for b d
    by (simp add: finishAuth_def Let_def case_prod_beta prims re cl callbacks tables split: option.split)
  have comp: "Q (plSessionCompleted e k g' b)" if "Q b" for b k g'
    using that by (simp add: plSessionCompleted_def Let_def prims fin callbacks split: option.split)
  have mark: "Q b \<Longrightarrow> Q (markCancelledAndFinish e d b)" for b d
    by (simp add: markCancelledAndFinish_def prims fin tables split: option.split)
  show "Q (plSessionCompleted e n g a)" by (rule comp [OF assms])
  show "Q (initiateAuthentication e ai m ic dt c ids a)"
    using assms by (simp add: initiateAuthentication_def onPolkitRequest_def Let_def case_prod_beta prims re created)
  have "Q (fold (markCancelledAndFinish e) cs b)" if "Q b" for cs b
    using that by (induction cs arbitrary: b) (auto intro: mark)
  then show "Q (cancelAuthentication e a)" using assms by (simp add: cancelAuthentication_def)
  show "Q (plSessionRequest e n x b a)" "Q (plSessionError e n x a)" "Q (plSessionInfo e n x a)"
    "Q (submitPassword c x a)"
    using assms by (simp_all add: plSessionRequest_def plSessionError_def plSessionInfo_def submitPassword_def
        prims callbacks informed split: option.split)
  show "Q (cancelPending e c a)"
    using assms by (simp add: cancelPending_def Let_def prims comp mark split: option.split)
qed

lemma pruneStale: assumes "Q a" shows "Q (pruneStaleProviders e a)"
proof -
  have "pruneStaleProviders e a = launchIfNeeded e ''provider-prune'' (recomputeAndAnnounce e a)"
    by (simp add: pruneStaleProviders_def pruneStale_def recomputeAndAnnounce_def agentRecompute_def Let_def
        case_prod_beta)
  then show ?thesis using assms by (simp add: launchIfNeeded announced)
qed

lemma ping: assumes "Q a" shows "Q (handlePing e t m a)"
  unfolding handlePing_def Let_def
  by (intro sends assms)
     (auto intro!: ordinary_put ordinary_typed simp: startsWith_def hash_has_def split: option.split)

text \<open>The handlers that send no password and no session event of their own.\<close>

lemma handlers:
  assumes "Q a"
  shows "Q (handleKeyringRequest e t m a)" and "Q (handlePinentryRequest e t m a)"
    and "Q (handlePinentryResult e t m a)" and "Q (handleCancel e t m a)"
  using assms
  by (simp_all add: handleKeyringRequest_def handlePinentryRequest_def handlePinentryResult_def handleCancel_def
      Let_def case_prod_beta managers listener sends split: option.split)

text \<open>An answer keeps the property if the one message with the password does.\<close>

lemma respond:
  assumes "Q a"
    and "\<And>b c r. Q b \<Longrightarrow> isAuthorized t (a_registry a) \<Longrightarrow> c = toStr (jvalue m ''id'') \<Longrightarrow>
      r = toStr (jvalue m ''response'') \<Longrightarrow> keyringHasPending c a \<Longrightarrow>
      Q (sendJson e (keyringSocket c a) (keyringReplyOk c r) True b)"
    and "\<And>b c r rq. Q b \<Longrightarrow> isAuthorized t (a_registry a) \<Longrightarrow> c = toStr (jvalue m ''id'') \<Longrightarrow>
      r = toStr (jvalue m ''response'') \<Longrightarrow> \<not> keyringHasPending c a \<Longrightarrow>
      hash_find (pm_pending (a_pinentry a)) c = Some rq \<Longrightarrow>
      Q (sendJson e (pr_socket rq) (pinentryReply rq c r) True b)"
  shows "Q (handleRespond e t m a)"
proof -
  let ?c = "toStr (jvalue m ''id'')" and ?r = "toStr (jvalue m ''response'')"
  have k: "Q (toOrigin e (keyringSocket ?c a) (fst (keyringHandleResponse e ?c ?r a)) True
      (snd (keyringHandleResponse e ?c ?r a)))"
    if "isAuthorized t (a_registry a)" "keyringHasPending ?c a"
    using assms(2) [OF managers(2) [OF assms(1)] that(1) refl refl that(2)] keyringAnswer_effect(1) [OF that(2)]
      managers(2) [OF assms(1)] by (simp add: toOrigin_def)
  have p: "Q (sendJson e (pinentrySocket ?c a) (fst (pinentryHandleResponse e ?c ?r a)) True
      (snd (pinentryHandleResponse e ?c ?r a)))"
    if au: "isAuthorized t (a_registry a)" and nk: "\<not> keyringHasPending ?c a" and pi: "hasPendingInput ?c a"
  proof -
    obtain rq where rq: "hash_find (pm_pending (a_pinentry a)) ?c = Some rq"
      using pi by (auto simp: hasPendingInput_def hash_has_def)
    have "fst (pinentryHandleResponse e ?c ?r a) = pinentryReply rq ?c ?r" "pinentrySocket ?c a = pr_socket rq"
      using rq by (simp_all add: pinentryHandleResponse_def pinentrySocket_def)
    then show ?thesis using assms(3) [OF managers(6) [OF assms(1)] au refl refl nk rq] by simp
  qed
  show ?thesis
    using assms(1) k p managers(6) [OF assms(1)]
    by (simp add: handleRespond_def Let_def case_prod_beta sends listener split: option.split)
qed

end

section \<open>The events of the daemon\<close>

text \<open>One event of the Qt loop, with what it carries; \<open>perform\<close> is the handler it reaches.\<close>

datatype happening =
    Message socket string jobject
  | Disconnect socket
  | Maintenance
  | ResultTimer string
  | PolkitInitiate string string string "(string, string) hash" string "string list"
  | PolkitCancel
  | PolkitRequest nat string bool
  | PolkitCompleted nat bool
  | PolkitError nat string
  | PolkitInfo nat string
  | IpcError socket string

fun perform :: "env \<Rightarrow> happening \<Rightarrow> agent \<Rightarrow> agent" where
  "perform env (Message socket ty msg) a = handleMessage env socket ty msg a"
| "perform env (Disconnect socket) a = onClientDisconnected env socket a"
| "perform env Maintenance a = pruneStaleProviders env a"
| "perform env (ResultTimer cookie) a = pinentryTimeout env cookie a"
| "perform env (PolkitInitiate actionId message iconName details cookie ids) a =
     initiateAuthentication env actionId message iconName details cookie ids a"
| "perform env PolkitCancel a = cancelAuthentication env a"
| "perform env (PolkitRequest session request echo) a = plSessionRequest env session request echo a"
| "perform env (PolkitCompleted session gained) a = plSessionCompleted env session gained a"
| "perform env (PolkitError session err) a = plSessionError env session err a"
| "perform env (PolkitInfo session info) a = plSessionInfo env session info a"
| "perform env (IpcError socket err) a = sendJson env socket (errorMsg err) False a"

fun legal :: "happening \<Rightarrow> bool" where
  "legal (Message socket ty msg) \<longleftrightarrow> socket \<noteq> nullptr"
| "legal (Disconnect socket) \<longleftrightarrow> socket \<noteq> nullptr"
| "legal ev \<longleftrightarrow> True"

lemma perform_step: "legal ev \<Longrightarrow> agent_step a (perform env ev a)"
  by (cases ev) (simp_all add: agent_step.intros)

lemma agent_step_perform: "agent_step a b \<longleftrightarrow> (\<exists>env ev. legal ev \<and> b = perform env ev a)"
proof
  assume "agent_step a b"
  then show "\<exists>env ev. legal ev \<and> b = perform env ev a"
    by (cases rule: agent_step.cases) (metis legal.simps perform.simps)+
qed (auto intro: perform_step)

end
