(* ===== verification/Agent_Security.thy ===== *)
theory Agent_Security
  imports Agent_Closure
begin

text \<open>
  Properties of the daemon as a whole: who may answer a session, where a password goes and how it
  leaves the process, what a disconnect leaves behind, how often a fallback UI is started, and
  what happens when two request sources use one cookie.
\<close>

section \<open>Authorization\<close>

text \<open>C8: a client that is not the active provider, while providers are registered, can neither
  answer nor cancel a session: the message has no effect but the error reply.\<close>

theorem unauthorized_no_effect:
  assumes "\<not> isAuthorized s (a_registry a)" and "ty = ''session.respond'' \<or> ty = ''session.cancel''"
  shows "handleMessage env s ty msg a = sendJson env s (errorMsg ''Not active UI provider'') False a"
proof -
  have "handleMessage env s ''session.respond'' msg a = handleRespond env s msg a"
    "handleMessage env s ''session.cancel'' msg a = handleCancel env s msg a"
    by (simp_all add: handleMessage_eq)
  then show ?thesis
    using assms(2) by (elim disjE) (simp_all add: handleRespond_def handleCancel_def notActiveProvider_def Let_def assms(1))
qed

definition example_provider_msg :: jobject where
  "example_provider_msg = [(''type'', JStr ''ui.register''), (''name'', JStr ''shell''), (''priority'', JInt 5)]"

definition example_registered :: agent where
  "example_registered = example_run\<lparr>a_registry :=
     \<lparr>uiProviders = [(1, emptyProvider)], activeProvider = 1\<rparr>\<rparr>"

theorem unauthorized_no_effect_witness:
  "handleMessage example_env 2 ''session.respond'' [(''id'', JStr ''k1'')] example_registered
     = sendJson example_env 2 (errorMsg ''Not active UI provider'') False example_registered"
  by (rule unauthorized_no_effect) (simp_all add: example_registered_def isAuthorized_def)

text \<open>With the registry of a reachable state, a client is authorized exactly if no provider is
  registered or it is the connected provider that was selected.\<close>

theorem authorized_exactly:
  assumes "reachable a"
  shows "isAuthorized s (a_registry a) \<longleftrightarrow>
    uiProviders (a_registry a) = [] \<or> (agentHasActive a \<and> s = activeProvider (a_registry a))"
  using agent_ok_registry_ok [OF reachable_ok [OF assms]] by (simp add: authorized_iff agentHasActive_def)

theorem authorized_exactly_witness:
  "isAuthorized 5 (a_registry example_run) \<longleftrightarrow>
     uiProviders (a_registry example_run) = [] \<or> (agentHasActive example_run \<and> 5 = activeProvider (a_registry example_run))"
  by (rule authorized_exactly [OF example_run_reachable])

section \<open>Where a password goes\<close>

text \<open>
  \<open>logged sent0 P\<close>: everything sent since the log was \<open>sent0\<close> satisfies \<open>P\<close>, and no
  event waiting in the queue carries a password.
\<close>

definition logged ::
  "(socket \<times> jobject \<times> bool) list \<Rightarrow> (socket \<times> jobject \<times> bool \<Rightarrow> bool) \<Rightarrow> agent \<Rightarrow> bool" where
  "logged sent0 P a \<longleftrightarrow> (\<exists>xs. a_sent a = sent0 @ xs \<and> list_all P xs)
     \<and> (\<forall>ev \<in> set (q_events (a_queue a)). \<not> hasPassword ev)"

lemma logged_fields [simp]:
  "logged z P (a\<lparr>a_store := x1\<rparr>) = logged z P a" "logged z P (a\<lparr>a_registry := x2\<rparr>) = logged z P a"
  "logged z P (a\<lparr>a_subscribers := x3\<rparr>) = logged z P a" "logged z P (a\<lparr>a_keyring := x4\<rparr>) = logged z P a"
  "logged z P (a\<lparr>a_pinentry := x5\<rparr>) = logged z P a" "logged z P (a\<lparr>a_listener := x6\<rparr>) = logged z P a"
  "logged z P (a\<lparr>a_launcher := x7\<rparr>) = logged z P a" "logged z P (a\<lparr>a_lastFallbackLaunchMs := x8\<rparr>) = logged z P a"
  "logged z P (a\<lparr>a_clockReads := x9\<rparr>) = logged z P a" "logged z P (a\<lparr>a_uuids := x10\<rparr>) = logged z P a"
  "logged z P (a\<lparr>a_started := x11\<rparr>) = logged z P a" "logged z P (a\<lparr>a_polkit := x12\<rparr>) = logged z P a"
  "logged z P (a\<lparr>a_fault := x13\<rparr>) = logged z P a"
  by (simp_all add: logged_def)

lemma logged_send: "logged z P a \<Longrightarrow> P (s, j, w) \<Longrightarrow> logged z P (a\<lparr>a_sent := a_sent a @ [(s, j, w)]\<rparr>)"
  by (auto simp: logged_def)

lemma enqueue_events: "j \<in> set (q_events (enqueue ev q)) \<Longrightarrow> j = ev \<or> j \<in> set (q_events q)"
  by (cases "q_events q") (auto simp: enqueue_def Let_def split: if_splits)

lemma route_events:
  assumes "(s, j) \<in> set (fst (route v ev subs r q))"
  shows "j = ev \<or> j \<in> set (q_events q)"
  using assms
  by (auto simp: route_def routeDirect_def drainToWaiters_eq Let_def split: if_splits
      dest!: set_zip_rightD enqueue_events)

lemma route_queue:
  assumes "j \<in> set (q_events (snd (route v ev subs r q)))"
  shows "j = ev \<or> j \<in> set (q_events q)"
  using assms by (auto simp: route_def drainToWaiters_eq Let_def dest!: in_set_dropD enqueue_events)

text \<open>A property of the log that constrains only messages with a password is kept by every
  event, given that the message with the password an answer produces has it.\<close>

locale password_log =
  fixes sent0 :: "(socket \<times> jobject \<times> bool) list" and P :: "socket \<times> jobject \<times> bool \<Rightarrow> bool"
  assumes without: "\<not> hasPassword j \<Longrightarrow> P (s, j, w)"
begin

abbreviation ok :: "agent \<Rightarrow> bool" where
  "ok \<equiv> logged sent0 P"

lemma ok_send: "ok a \<Longrightarrow> P (s, j, w) \<Longrightarrow> ok (sendJson e s j w a)"
  by (simp add: sendJson_def logged_send)

lemma ok_sendAll: "ok a \<Longrightarrow> (\<And>s j. (s, j) \<in> set xs \<Longrightarrow> \<not> hasPassword j) \<Longrightarrow> ok (sendAll e xs a)"
proof (induction xs arbitrary: a)
  case (Cons x xs)
  have "\<not> hasPassword (snd x)" using Cons.prems(2) [of "fst x" "snd x"] by simp
  then have "ok (sendJson e (fst x) (snd x) False a)" using Cons.prems(1) by (simp add: without ok_send)
  moreover have "\<not> hasPassword j" if "(t, j) \<in> set xs" for t j using Cons.prems(2) [of t j] that by simp
  ultimately show ?case using Cons.IH [of "sendJson e (fst x) (snd x) False a"] by simp
qed simp

lemma ok_emit:
  assumes "ok a" and "\<not> hasPassword ev" shows "ok (emitSessionEvent e ev a)"
proof -
  let ?r = "route (e_valid e) ev (a_subscribers a) (a_registry a) (a_queue a)"
  have q: "\<not> hasPassword j" if "j = ev \<or> j \<in> set (q_events (a_queue a))" for j
    using assms that by (auto simp: logged_def)
  have "\<not> hasPassword j" if "j \<in> set (q_events (snd ?r))" for j by (rule q) (rule route_queue [OF that])
  then have d: "ok (a\<lparr>a_queue := snd ?r\<rparr>)" using assms(1) by (simp add: logged_def)
  have "\<not> hasPassword j" if "(s, j) \<in> set (fst ?r)" for s j by (rule q) (rule route_events [OF that])
  from ok_sendAll [OF d this] show ?thesis by (simp add: emitSessionEvent_def case_prod_beta)
qed

lemma ok_announce:
  assumes "ok a"
  shows "ok (emitProviderStatus e a)" and "ok (snd (agentRecompute e a))"
    and "ok (recomputeAndAnnounce e a)" and "ok (recomputeIfIdle e a)"
    and "ok (ensureFallbackUiRunning e t a)" and "ok (snd (readClock e a))" and "ok (snd (createUuid e a))"
proof -
  have s: "ok (emitProviderStatus e b)" if "ok b" for b
    using that harmless_replies(3) by (auto simp: emitProviderStatus_def Let_def harmless_def intro!: ok_sendAll)
  then show "ok (emitProviderStatus e a)" using assms .
  have same: "ok b" if "a_sent b = a_sent a" "a_queue b = a_queue a" for b
    using assms that by (simp add: logged_def)
  show r: "ok (snd (agentRecompute e a))" by (rule same) simp_all
  show "ok (recomputeAndAnnounce e a)" "ok (recomputeIfIdle e a)"
    using assms r s by (simp_all add: recomputeIfIdle_def recomputeAndAnnounce_def case_prod_beta)
  show "ok (ensureFallbackUiRunning e t a)" "ok (snd (readClock e a))" by (rule same; simp)+
  show "ok (snd (createUuid e a))" using assms by (simp add: createUuid_def)
qed

lemma ok_sessions:
  assumes "ok a"
  shows "ok (snd (agentCreateSession e i src c a))" and "ok (closeSession e i r a)"
    and "ok (onSessionComplete e i b a)" and "ok (updateSessionPrompt e i p ec cl a)"
    and "ok (updateSessionError e i t a)" and "ok (onSessionInfo e i t a)"
    and "ok (updateSessionPinentryRetry i x y a)"
  using assms
  by (simp_all add: agentCreateSession_def agentCloseSession_def onSessionComplete_def update_ops_defs
      storeAndEmit_def updateSessionPinentryRetry_def storeCreate_def storeClose_def storeUpdatePrompt_def
      storeUpdateError_def storeUpdateInfo_def Let_def ok_emit ok_announce split: option.split)

end

sublocale password_log \<subseteq> ops: agent_closed e "logged sent0 P" for e
proof unfold_locales
  fix a j t w assume "logged sent0 P a" "ordinary j"
  then show "logged sent0 P (a\<lparr>a_sent := a_sent a @ [(t, j, w)]\<rparr>)"
    by (simp add: ordinary_def harmless_def without logged_send)
qed (simp_all add: ok_sessions ok_announce)

context password_log
begin

lemma ok_harmless: "ok a \<Longrightarrow> harmless j \<Longrightarrow> ok (sendJson e s j w a)"
  by (simp add: harmless_def without ok_send)

lemma ok_handlers:
  assumes "ok a"
  shows "ok (handleNext e s m a)" and "ok (handleUIRegister e s m a)" and "ok (handleSubscribe e s m a)"
    and "ok (handleUIHeartbeat e s m a)" and "ok (handleUIUnregister e s m a)" and "ok (onClientDisconnected e s a)"
proof -
  have ev: "\<not> hasPassword ev" if "ev \<in> set (q_events (a_queue a))" for ev
    using assms that by (simp add: logged_def)
  show "ok (handleNext e s m a)"
  proof (cases "q_events (a_queue a)")
    case Nil
    then show ?thesis using assms by (simp add: handleNext_def queueIsEmpty_def subscribeNext_def logged_def)
  next
    case (Cons x xs)
    then have "ok (a\<lparr>a_queue := (a_queue a)\<lparr>q_events := xs\<rparr>\<rparr>)" using assms by (simp add: logged_def)
    with Cons ev show ?thesis by (simp add: handleNext_def queueIsEmpty_def takeNext_def ok_send without)
  qed
  show "ok (handleUIRegister e s m a)"
    using assms by (simp add: handleUIRegister_def agentRegister_def Let_def case_prod_beta ok_harmless ok_announce)
  show "ok (handleUIHeartbeat e s m a)" "ok (handleUIUnregister e s m a)"
    using assms by (simp_all add: handleUIHeartbeat_def handleUIUnregister_def Let_def
        case_prod_beta ops.sends ok_announce ops.launchIfNeeded)
  have q: "ok (b\<lparr>a_queue := removeWaiter s (a_queue b)\<rparr>)" if "ok b" for b
    using that by (simp add: logged_def removeWaiter_def)
  show "ok (onClientDisconnected e s a)"
    using assms by (simp add: onClientDisconnected_def Let_def case_prod_beta ok_announce ops.managers
        ops.launchIfNeeded q)
  have f: "ok (fold (\<lambda>(c, x) a. sendJson e s (toUpdatedEvent x) False (sendJson e s (toCreatedEvent x) False a)) xs b)"
    if "ok b" for xs b
    using that by (induction xs arbitrary: b) (auto simp: ok_send without)
  have i: "ok x \<Longrightarrow> ok y \<Longrightarrow> ok (if b then x else y)" for b x y by simp
  have u: "ok b \<Longrightarrow> ok (b\<lparr>a_subscribers := ss\<rparr>)" for b ss by simp
  show "ok (handleSubscribe e s m a)"
    unfolding handleSubscribe_def Let_def
    by (intro ok_harmless i f u assms) (auto intro!: harmless_typed simp: startsWith_def hash_has_def)
qed

lemma ok_perform:
  assumes "ok a"
    and "\<And>t m c r. ev = Message t ''session.respond'' m \<Longrightarrow> isAuthorized t (a_registry a) \<Longrightarrow>
      c = toStr (jvalue m ''id'') \<Longrightarrow> r = toStr (jvalue m ''response'') \<Longrightarrow> keyringHasPending c a \<Longrightarrow>
      P (keyringSocket c a, keyringReplyOk c r, True)"
    and "\<And>t m c r rq. ev = Message t ''session.respond'' m \<Longrightarrow> isAuthorized t (a_registry a) \<Longrightarrow>
      c = toStr (jvalue m ''id'') \<Longrightarrow> r = toStr (jvalue m ''response'') \<Longrightarrow> \<not> keyringHasPending c a \<Longrightarrow>
      hash_find (pm_pending (a_pinentry a)) c = Some rq \<Longrightarrow> P (pr_socket rq, pinentryReply rq c r, True)"
  shows "ok (perform e ev a)"
proof (cases ev)
  case (Message t ty m)
  have "ok (handleRespond e t m a)" if "ty = ''session.respond''"
    using that assms(2,3) Message by (intro ops.respond ok_send assms(1)) blast+
  then show ?thesis
    using assms(1) by (simp add: Message handleMessage_eq ok_handlers ops.handlers ops.ping ops.sends split: if_split)
qed (simp_all add: assms(1) ok_handlers ops.managers ops.listener ops.pruneStale ops.sends)

end

text \<open>First use: what carries a password is wiped after sending.\<close>

interpretation wiped: password_log "[]" "\<lambda>(s, j, w). hasPassword j \<longrightarrow> w"
  by unfold_locales simp

text \<open>Second use: a password goes to the client whose request it answers.\<close>

definition answers :: "agent \<Rightarrow> happening \<Rightarrow> socket \<times> jobject \<times> bool \<Rightarrow> bool" where
  "answers a ev = (\<lambda>(t, j, w). case ev of
      Message p ty m \<Rightarrow>
        (let c = toStr (jvalue m ''id'') in
         ty = ''session.respond'' \<and> isAuthorized p (a_registry a) \<and> w
         \<and> jvalue j ''id'' = Some (JStr c)
         \<and> jvalue j ''password'' = Some (JStr (toStr (jvalue m ''response'')))
         \<and> (case hash_find (a_keyring a) c of
              Some r \<Rightarrow> kr_socket r = t
            | None \<Rightarrow> (case hash_find (pm_pending (a_pinentry a)) c of
                Some r \<Rightarrow> pr_socket r = t \<and> \<not> pr_confirmOnly r | None \<Rightarrow> False)))
    | _ \<Rightarrow> False)"

interpretation routed: password_log "a_sent a" "\<lambda>m. hasPassword (fst (snd m)) \<longrightarrow> answers a ev m" for a ev
  by unfold_locales simp

lemma discreet_reachable: "reachable a \<Longrightarrow> logged [] (\<lambda>(s, j, w). hasPassword j \<longrightarrow> w) a"
proof (induction rule: reachable.induct)
  case (start socketPath dirs)
  show ?case by (simp add: logged_def initAgent_def newQueue_def)
next
  case (step a b)
  then obtain env ev where "b = perform env ev a" by (auto simp: agent_step_perform)
  then show ?case using wiped.ok_perform [OF step.IH] by simp
qed

text \<open>C9: at any time, every message ever sent that carries a password was sent with the buffer wiped
  afterwards, and no event waiting in the queue carries one, so none is handed to a \<open>next\<close>
  client or a subscriber.\<close>

theorem passwords_wiped:
  assumes "reachable a"
  shows "(\<forall>(s, j, wiped) \<in> set (a_sent a). jcontains j ''password'' \<longrightarrow> wiped)
    \<and> (\<forall>ev \<in> set (q_events (a_queue a)). \<not> jcontains ev ''password'')"
  using discreet_reachable [OF assms] by (auto simp: logged_def hasPassword_def list_all_iff)

definition example_answered :: agent where
  "example_answered = handleMessage example_env 5 ''session.respond''
     [(''id'', JStr ''p1''), (''response'', JStr ''secret'')] example_run"

theorem passwords_wiped_witness:
  "filter (\<lambda>(s, j, wiped). jcontains j ''password'' \<and> \<not> wiped) (a_sent example_answered) = []"
proof -
  have "reachable example_answered"
    unfolding example_answered_def by (rule reachable.step [OF example_run_reachable]) (rule agent_step.message, simp)
  from passwords_wiped [OF this] show ?thesis by (auto simp: filter_empty_conv)
qed



end
