(* ===== verification/Ipc_Server.thy ===== *)
theory Ipc_Server
  imports Agent_Security
begin

text \<open>
  The line protocol between the daemon and its clients: \<^verbatim>\<open>core/ipc/IpcServer.cpp\<close> (one
  buffer per socket, one JSON object per line) and the client's half in
  \<^verbatim>\<open>common/IpcClient.cpp\<close>.  Bytes are characters.  The JSON parser and printer are Qt's,
  hence parameters.  The message handler is a value, as in the code; its state is an argument, so
  that the server is verified once for every handler and then composed with the agent.
\<close>

section \<open>State\<close>

definition MAX_MESSAGE_SIZE :: nat where "MAX_MESSAGE_SIZE = 64 * 1024"

text \<open>The bytes behind a pointer after \<^verbatim>\<open>secureZero\<close>, which overwrites the first \<open>n\<close> of them.\<close>

fun secureZero :: "nat \<Rightarrow> string \<Rightarrow> string" where
  "secureZero (Suc n) (b # bytes) = CHR 0x00 # secureZero n bytes"
| "secureZero n bytes = bytes"

lemma secureZero_eq: "secureZero n bytes = replicate (min n (length bytes)) (CHR 0x00) @ drop n bytes"
  by (induction n bytes rule: secureZero.induct) auto

lemma secureZero_all: "secureZero (length bytes) bytes = replicate (length bytes) (CHR 0x00)"
  by (simp add: secureZero_eq)

definition newline :: char where "newline = CHR 0x0A"

type_synonym 'a message_handler = "socket \<Rightarrow> string \<Rightarrow> jobject \<Rightarrow> 'a \<Rightarrow> 'a"

text \<open>\<open>is_closing\<close> holds the sockets on which \<^verbatim>\<open>disconnectFromServer\<close> has been called and
  whose \<^verbatim>\<open>disconnected\<close> signal is still to come.\<close>

record 'a ipc_server =
  is_listening :: bool
  is_handler :: "'a message_handler option"
  is_buffers :: "(socket, string) hash"
  is_closing :: "socket list"

definition newServer :: "'a ipc_server" where
  "newServer = \<lparr>is_listening = False, is_handler = None, is_buffers = [], is_closing = []\<rparr>"

section \<open>Start and stop\<close>

text \<open>The files that exist and whether \<^verbatim>\<open>listen\<close> succeeds come from outside; the result is
  that of \<^verbatim>\<open>start\<close>, the server and the files left.\<close>

definition ipcStart :: "(string \<Rightarrow> bool) \<Rightarrow> string \<Rightarrow> string list \<Rightarrow> 'a ipc_server \<Rightarrow> bool \<times> 'a ipc_server \<times> string list" where
  "ipcStart listens path files srv =
     (if is_listening srv then (False, srv, files)
      else let files = (if path \<in> set files then removeAll path files else files)
           in if \<not> listens path then (False, srv, files)
              else (True, srv\<lparr>is_listening := True\<rparr>, files))"

definition ipcStop :: "'a ipc_server \<Rightarrow> 'a ipc_server" where
  "ipcStop srv =
     (if \<not> is_listening srv then srv
      else srv\<lparr>is_closing := is_closing srv @ hash_keys (is_buffers srv), is_buffers := [],
               is_listening := False\<rparr>)"

definition setMessageHandler :: "'a message_handler \<Rightarrow> 'a ipc_server \<Rightarrow> 'a ipc_server" where
  "setMessageHandler h srv = srv\<lparr>is_handler := Some h\<rparr>"

section \<open>Connections and lines\<close>

text \<open>The pending connections; \<^verbatim>\<open>nextPendingConnection\<close> may return null.\<close>

fun onNewConnection :: "socket list \<Rightarrow> 'a ipc_server \<Rightarrow> 'a ipc_server" where
  "onNewConnection [] srv = srv"
| "onNewConnection (socket # pending) srv =
     (if socket = nullptr then onNewConnection pending srv
      else onNewConnection pending (srv\<lparr>is_buffers := hash_put socket [] (is_buffers srv)\<rparr>))"

definition onDisconnected :: "socket \<Rightarrow> 'a ipc_server \<Rightarrow> 'a ipc_server" where
  "onDisconnected socket srv =
     (if socket = nullptr then srv
      else srv\<lparr>is_buffers := hash_del socket (is_buffers srv),
               is_closing := removeAll socket (is_closing srv)\<rparr>)"

text \<open>\<^verbatim>\<open>QByteArray::trimmed\<close> strips ASCII white space.\<close>

definition trimmedBytes :: "string \<Rightarrow> string" where
  "trimmedBytes s = rev (dropWhile isBlank (rev (dropWhile isBlank s)))"

text \<open>The \<^verbatim>\<open>type\<close> of a parsed line, or the text of the error reply.\<close>

definition lineMessage :: "(string \<Rightarrow> string + json) \<Rightarrow> string \<Rightarrow> string + (string \<times> jobject)" where
  "lineMessage fromJson line =
     (case fromJson line of
        Inr (JObj obj) \<Rightarrow>
          (let ty = toStr (jvalue obj ''type'')
           in if ty = [] then Inl ''Missing type field'' else Inr (ty, obj))
      | _ \<Rightarrow> Inl ''Invalid JSON'')"

definition handleLine :: "(string \<Rightarrow> string + json) \<Rightarrow> (socket \<Rightarrow> jobject \<Rightarrow> 'a \<Rightarrow> 'a)
    \<Rightarrow> 'a message_handler option \<Rightarrow> socket \<Rightarrow> string \<Rightarrow> 'a \<Rightarrow> 'a" where
  "handleLine fromJson reply h socket line st =
     (case h of
        None \<Rightarrow> st
      | Some handler \<Rightarrow>
          (case lineMessage fromJson line of
             Inl err \<Rightarrow> reply socket (errorMsg err) st
           | Inr (ty, obj) \<Rightarrow> handler socket ty obj st))"

text \<open>\<^verbatim>\<open>indexOf('\n')\<close>, \<^verbatim>\<open>left\<close> and \<^verbatim>\<open>remove\<close>: the first complete line and
  what follows it.\<close>

fun takeLine :: "string \<Rightarrow> (string \<times> string) option" where
  "takeLine [] = None"
| "takeLine (c # buffer) =
     (if c = newline then Some ([], buffer)
      else map_option (\<lambda>(line, rest). (c # line, rest)) (takeLine buffer))"

lemma takeLine_eq: "takeLine b = Some (l, r) \<longleftrightarrow> newline \<notin> set l \<and> b = l @ newline # r"
proof (induction b arbitrary: l r)
  case (Cons c b)
  then show ?case by (cases l) auto
qed simp

lemma takeLine_None: "takeLine b = None \<longleftrightarrow> newline \<notin> set b"
  by (induction b) auto

function processLines :: "(string \<Rightarrow> 'a \<Rightarrow> 'a) \<Rightarrow> string \<Rightarrow> 'a \<Rightarrow> string \<times> 'a" where
  "processLines f buffer st =
     (case takeLine buffer of
        None \<Rightarrow> (buffer, st)
      | Some (l, rest) \<Rightarrow>
          (let line = trimmedBytes l
           in processLines f rest (if line = [] then st else f line st)))"
  by auto
termination by (relation "measure (\<lambda>(f, buffer, st). length buffer)") (auto simp: takeLine_eq)

declare processLines.simps [simp del]

text \<open>The reader's slot.  The buffer stays in the table when the client is thrown out.\<close>

definition onReadyRead :: "(string \<Rightarrow> string + json) \<Rightarrow> (socket \<Rightarrow> jobject \<Rightarrow> 'a \<Rightarrow> 'a) \<Rightarrow> socket \<Rightarrow> string
    \<Rightarrow> 'a ipc_server \<times> 'a \<Rightarrow> 'a ipc_server \<times> 'a" where
  "onReadyRead fromJson reply socket bytes s =
     (let (srv, st) = s in
      if socket = nullptr then (srv, st)
      else let buffer = (case hash_find (is_buffers srv) socket of None \<Rightarrow> [] | Some b \<Rightarrow> b) @ bytes
           in if length buffer > MAX_MESSAGE_SIZE
              then (srv\<lparr>is_buffers := hash_put socket buffer (is_buffers srv),
                        is_closing := is_closing srv @ [socket]\<rparr>, st)
              else let (rest, st) = processLines (handleLine fromJson reply (is_handler srv) socket) buffer st
                   in (srv\<lparr>is_buffers := hash_put socket rest (is_buffers srv)\<rparr>, st))"

section \<open>The client\<close>

text \<open>What \<^verbatim>\<open>sendRequest\<close> meets: whether the socket connects and the request is written, and the
  outcome of each \<^verbatim>\<open>waitForReadyRead\<close>, the bytes that came or \<open>None\<close> when it timed out (also the
  end of the list).\<close>

fun awaitLine :: "string \<Rightarrow> string option list \<Rightarrow> string option" where
  "awaitLine buffer waits =
     (case takeLine buffer of
        Some (line, _) \<Rightarrow> Some line
      | None \<Rightarrow> (case waits of Some bytes # waits' \<Rightarrow> awaitLine (buffer @ bytes) waits' | _ \<Rightarrow> None))"

declare awaitLine.simps [simp del]

definition requestBytes :: "(jobject \<Rightarrow> string) \<Rightarrow> jobject \<Rightarrow> string" where
  "requestBytes toJson json = toJson json @ [newline]"

definition parseReply :: "(string \<Rightarrow> string + json) \<Rightarrow> string \<Rightarrow> jobject option" where
  "parseReply fromJson replyLine =
     (if replyLine = [] then None
      else case fromJson replyLine of Inr (JObj obj) \<Rightarrow> Some obj | _ \<Rightarrow> None)"

definition sendRequest :: "(string \<Rightarrow> string + json) \<Rightarrow> bool \<Rightarrow> bool \<Rightarrow> string option list \<Rightarrow> jobject option" where
  "sendRequest fromJson connects writes waits =
     (if \<not> connects then None
      else if \<not> writes then None
      else case waits of
             Some bytes # waits' \<Rightarrow>
               (case awaitLine bytes waits' of
                  None \<Rightarrow> None
                | Some line \<Rightarrow> parseReply fromJson (trimmedBytes line))
           | _ \<Rightarrow> None)"

definition pingRequest :: jobject where
  "pingRequest = [(''type'', JStr ''ping'')]"

definition clientPing :: "(string \<Rightarrow> string + json) \<Rightarrow> bool \<Rightarrow> bool \<Rightarrow> string option list \<Rightarrow> bool" where
  "clientPing fromJson connects writes waits =
     (case sendRequest fromJson connects writes waits of
        None \<Rightarrow> False
      | Some response \<Rightarrow> toStr (jvalue response ''type'') = ''pong'')"

section \<open>Lines of a stream\<close>

text \<open>The abstract protocol: a byte stream is a list of lines, the last one still open.\<close>

definition streamLines :: "string \<Rightarrow> string list" where
  "streamLines s = filter (\<lambda>l. l \<noteq> []) (map trimmedBytes (butlast (splitOn newline s)))"

definition streamRest :: "string \<Rightarrow> string" where
  "streamRest s = last (splitOn newline s)"

lemma splitOn_append: "splitOn c (xs @ c # ys) = splitOn c xs @ splitOn c ys"
proof (induction xs)
  case (Cons x xs)
  then show ?case by (cases "splitOn c xs") auto
qed simp

lemma stream_line:
  assumes "newline \<notin> set l"
  shows "streamLines (l @ newline # r) = (if trimmedBytes l = [] then [] else [trimmedBytes l]) @ streamLines r"
    and "streamRest (l @ newline # r) = streamRest r"
  using assms by (simp_all add: streamLines_def streamRest_def splitOn_append splitOn_none butlast_append)

lemma stream_open:
  assumes "newline \<notin> set s" shows "streamLines s = []" and "streamRest s = s"
  using assms by (simp_all add: streamLines_def streamRest_def splitOn_none)

lemma streamRest_open: "newline \<notin> set (streamRest s)"
  unfolding streamRest_def by (rule splitOn_parts [of _ _ s]) simp

lemma streamRest_length: "length (streamRest s) \<le> length s"
proof (induction "length s" arbitrary: s rule: less_induct)
  case less
  show ?case
  proof (cases "takeLine s")
    case None then show ?thesis by (simp add: takeLine_None stream_open)
  next
    case (Some lr)
    obtain l r where "lr = (l, r)" by force
    with Some have "newline \<notin> set l" "s = l @ newline # r" by (simp_all add: takeLine_eq)
    then show ?thesis using less [of r] by (simp add: stream_line)
  qed
qed

text \<open>A stream may be cut anywhere.\<close>

lemma splitOn_cut: "splitOn c (s @ t) = butlast (splitOn c s) @ splitOn c (last (splitOn c s) @ t)"
proof (induction s)
  case (Cons x s)
  then show ?case by (cases "splitOn c s"; cases "tl (splitOn c s)") auto
qed simp

lemma stream_append:
  "streamLines (s @ t) = streamLines s @ streamLines (streamRest s @ t)"
  "streamRest (s @ t) = streamRest (streamRest s @ t)"
  by (simp_all add: streamLines_def streamRest_def splitOn_cut [of newline s t] butlast_append)

lemma processLines_stream: "processLines f buffer st = (streamRest buffer, fold f (streamLines buffer) st)"
proof (induction f buffer st rule: processLines.induct)
  case (1 f buffer st)
  show ?case
  proof (cases "takeLine buffer")
    case None
    then have "newline \<notin> set buffer" by (simp add: takeLine_None)
    with None show ?thesis by (simp add: processLines.simps stream_open)
  next
    case (Some lr)
    obtain l r where lr: "lr = (l, r)" by force
    with Some have "newline \<notin> set l" "buffer = l @ newline # r" by (simp_all add: takeLine_eq)
    moreover note 1 [OF Some lr [symmetric] refl]
    ultimately show ?thesis using Some lr by (simp add: processLines.simps stream_line Let_def)
  qed
qed

section \<open>Buffers\<close>

text \<open>Between two events every buffer is one open line of bounded length, unless its client is being
  thrown out.\<close>

definition server_ok :: "'a ipc_server \<Rightarrow> bool" where
  "server_ok srv \<longleftrightarrow>
     hash_wf (is_buffers srv) \<and>
     (\<forall>s b. hash_find (is_buffers srv) s = Some b \<and> s \<notin> set (is_closing srv)
        \<longrightarrow> newline \<notin> set b \<and> length b \<le> MAX_MESSAGE_SIZE) \<and>
     hash_find (is_buffers srv) nullptr = None"

definition bufferOf :: "'a ipc_server \<Rightarrow> socket \<Rightarrow> string" where
  "bufferOf srv socket = (case hash_find (is_buffers srv) socket of None \<Rightarrow> [] | Some b \<Rightarrow> b)"

lemma onReadyRead_eq:
  "onReadyRead fromJson reply socket bytes (srv, st) =
     (if socket = nullptr then (srv, st)
      else let buffer = bufferOf srv socket @ bytes
           in if length buffer > MAX_MESSAGE_SIZE
              then (srv\<lparr>is_buffers := hash_put socket buffer (is_buffers srv),
                        is_closing := is_closing srv @ [socket]\<rparr>, st)
              else (srv\<lparr>is_buffers := hash_put socket (streamRest buffer) (is_buffers srv)\<rparr>,
                    fold (handleLine fromJson reply (is_handler srv) socket) (streamLines buffer) st))"
  by (simp add: onReadyRead_def bufferOf_def processLines_stream Let_def)

lemma onReadyRead_fields [simp]:
  "is_handler (fst (onReadyRead fromJson reply socket bytes s)) = is_handler (fst s)"
  "is_listening (fst (onReadyRead fromJson reply socket bytes s)) = is_listening (fst s)"
  by (cases s; simp add: onReadyRead_eq Let_def)+

lemma server_ok_new: "server_ok newServer"
  by (simp add: server_ok_def newServer_def)

lemma server_ok_put:
  assumes "server_ok srv" and "socket \<noteq> nullptr" and "newline \<notin> set b" and "length b \<le> MAX_MESSAGE_SIZE"
  shows "server_ok (srv\<lparr>is_buffers := hash_put socket b (is_buffers srv)\<rparr>)"
  using assms by (simp add: server_ok_def qhash.wf_ins split: if_split)

lemma server_ok_close:
  assumes "server_ok srv" and "socket \<noteq> nullptr"
  shows "server_ok (srv\<lparr>is_buffers := hash_put socket b (is_buffers srv), is_closing := is_closing srv @ [socket]\<rparr>)"
  using assms by (simp add: server_ok_def qhash.wf_ins split: if_split)

lemma server_ok_connection: "server_ok srv \<Longrightarrow> server_ok (onNewConnection pending srv)"
  by (induction pending arbitrary: srv) (simp_all add: server_ok_put)

lemma server_ok_read:
  assumes "server_ok srv" shows "server_ok (fst (onReadyRead fromJson reply socket bytes (srv, st)))"
proof -
  let ?b = "bufferOf srv socket @ bytes"
  have "length (streamRest ?b) \<le> length ?b" by (rule streamRest_length)
  then show ?thesis
    using assms server_ok_put [OF assms _ streamRest_open [of ?b], of socket] server_ok_close [OF assms, of socket ?b]
    by (simp add: onReadyRead_eq Let_def not_less)
qed

lemma server_ok_disconnected: "server_ok srv \<Longrightarrow> server_ok (onDisconnected socket srv)"
  by (auto simp: server_ok_def onDisconnected_def)

lemma server_ok_lifecycle:
  "server_ok srv \<Longrightarrow> server_ok (ipcStop srv)"
  "server_ok srv \<Longrightarrow> server_ok (setMessageHandler h srv)"
  "server_ok srv \<Longrightarrow> server_ok (fst (snd (ipcStart listens path files srv)))"
  by (auto simp: server_ok_def ipcStop_def setMessageHandler_def ipcStart_def Let_def)

section \<open>Framing\<close>

definition reads :: "(string \<Rightarrow> string + json) \<Rightarrow> (socket \<Rightarrow> jobject \<Rightarrow> 'a \<Rightarrow> 'a) \<Rightarrow> socket \<Rightarrow> string list
    \<Rightarrow> 'a ipc_server \<times> 'a \<Rightarrow> 'a ipc_server \<times> 'a" where
  "reads fromJson reply socket chunks s = fold (onReadyRead fromJson reply socket) chunks s"

text \<open>No read of these chunks, starting with the open line \<open>rest\<close>, exceeds the limit.\<close>

fun withinLimit :: "string \<Rightarrow> string list \<Rightarrow> bool" where
  "withinLimit rest [] \<longleftrightarrow> True"
| "withinLimit rest (c # cs) \<longleftrightarrow>
     length (rest @ c) \<le> MAX_MESSAGE_SIZE \<and> withinLimit (streamRest (rest @ c)) cs"

lemma reads_stream:
  assumes "socket \<noteq> nullptr" and "withinLimit (bufferOf srv socket) chunks"
    and "newline \<notin> set (bufferOf srv socket)"
  shows "bufferOf (fst (reads fromJson reply socket chunks (srv, st))) socket = streamRest (bufferOf srv socket @ concat chunks)
    \<and> is_closing (fst (reads fromJson reply socket chunks (srv, st))) = is_closing srv
    \<and> snd (reads fromJson reply socket chunks (srv, st))
      = fold (handleLine fromJson reply (is_handler srv) socket) (streamLines (bufferOf srv socket @ concat chunks)) st"
  using assms(2,3)
proof (induction chunks arbitrary: srv st)
  case Nil
  then show ?case by (simp add: reads_def stream_open)
next
  case (Cons c cs)
  let ?b = "bufferOf srv socket @ c"
  let ?srv = "srv\<lparr>is_buffers := hash_put socket (streamRest ?b) (is_buffers srv)\<rparr>"
  let ?st = "fold (handleLine fromJson reply (is_handler srv) socket) (streamLines ?b) st"
  have step: "reads fromJson reply socket (c # cs) (srv, st) = reads fromJson reply socket cs (?srv, ?st)"
    using assms(1) Cons.prems(1) by (simp add: reads_def onReadyRead_eq Let_def)
  have b: "bufferOf ?srv socket = streamRest ?b" by (simp add: bufferOf_def)
  note IH = Cons.IH [of ?srv ?st, unfolded b]
  show ?case
    using IH Cons.prems(1) streamRest_open [of ?b] stream_append(1) [of ?b "concat cs"] stream_append(2) [of ?b "concat cs"]
    unfolding step by simp
qed

text \<open>C32: how the kernel cuts a client's bytes into reads does not matter: as long as no read exceeds
  the limit, the handler is called, in order, once for every complete non-blank line of the whole
  stream, the buffer holds the open rest, and the client is not disconnected.\<close>

theorem ipc_chunking:
  assumes "socket \<noteq> nullptr" and "withinLimit [] chunks" and "bufferOf srv socket = []"
  shows "bufferOf (fst (reads fromJson reply socket chunks (srv, st))) socket = streamRest (concat chunks)
    \<and> is_closing (fst (reads fromJson reply socket chunks (srv, st))) = is_closing srv
    \<and> snd (reads fromJson reply socket chunks (srv, st))
      = fold (handleLine fromJson reply (is_handler srv) socket) (streamLines (concat chunks)) st"
  using reads_stream [OF assms(1), of srv chunks] assms(2,3) by simp

text \<open>A server whose handler keeps a log of message types.\<close>

definition logServer :: "(socket \<times> string) list ipc_server" where
  "logServer = onNewConnection [0, 7] (setMessageHandler (\<lambda>s ty msg log. log @ [(s, ty)]) newServer)"

definition logReply :: "socket \<Rightarrow> jobject \<Rightarrow> (socket \<times> string) list \<Rightarrow> (socket \<times> string) list" where
  "logReply s j out = out @ [(s, toStr (jvalue j ''message''))]"

lemma logServer_simps [simp]:
  "is_handler logServer = Some (\<lambda>s ty msg log. log @ [(s, ty)])" "bufferOf logServer 7 = []"
  "is_closing logServer = []"
  by (simp_all add: logServer_def setMessageHandler_def newServer_def bufferOf_def)

lemma ex_bytes [simp]:
  "streamLines [CHR ''p'', newline, CHR '' '', newline, CHR ''q'', newline, CHR ''r''] = [''p'', ''q'']"
  "streamRest [CHR ''p'', newline, CHR '' '', newline, CHR ''q'', newline, CHR ''r''] = ''r''"
  "streamRest ''p'' = ''p''" "streamRest [CHR ''p'', newline, CHR '' '', newline, CHR ''q''] = ''q''"
  "streamRest [CHR ''q'', newline] = []" "streamRest ''r'' = ''r''"
  by code_simp+

theorem ipc_chunking_witness:
  "bufferOf (fst (reads (\<lambda>l. Inr (JObj [(''type'', JStr l)])) logReply 7
      [''p'', [newline, CHR '' '', newline, CHR ''q''], [newline], ''r''] (logServer, []))) 7 = ''r''
   \<and> snd (reads (\<lambda>l. Inr (JObj [(''type'', JStr l)])) logReply 7
      [''p'', [newline, CHR '' '', newline, CHR ''q''], [newline], ''r''] (logServer, [])) = [(7, ''p''), (7, ''q'')]"
proof -
  have "withinLimit [] [''p'', [newline, CHR '' '', newline, CHR ''q''], [newline], ''r'']"
    by (simp add: MAX_MESSAGE_SIZE_def)
  from ipc_chunking [OF _ this, of 7 logServer "\<lambda>l. Inr (JObj [(''type'', JStr l)])" logReply "[]"]
  show ?thesis by (simp add: handleLine_def lineMessage_def Let_def)
qed

text \<open>Clients that send short lines are never thrown out.\<close>

lemma withinLimit_short:
  assumes "newline \<notin> set rest"
    and "\<And>c. c \<in> set chunks \<Longrightarrow> length c \<le> k"
    and "\<And>l. l \<in> set (splitOn newline (rest @ concat chunks)) \<Longrightarrow> length l + k \<le> MAX_MESSAGE_SIZE"
  shows "withinLimit rest chunks"
  using assms
proof (induction chunks arbitrary: rest)
  case (Cons c cs)
  let ?t = "c @ concat cs"
  have open_first: "splitOn newline (rest @ ?t) = (rest @ hd (splitOn newline ?t)) # tl (splitOn newline ?t)"
    using Cons.prems(1)
  proof (induction rest)
    case Nil then show ?case by (cases "splitOn newline ?t") simp_all
  qed auto
  have "length (rest @ hd (splitOn newline ?t)) + k \<le> MAX_MESSAGE_SIZE"
    using Cons.prems(3) [of "rest @ hd (splitOn newline ?t)"] open_first by simp
  moreover have "length c \<le> k" using Cons.prems(2) by simp
  ultimately have "length (rest @ c) \<le> MAX_MESSAGE_SIZE" by simp
  moreover have "withinLimit (streamRest (rest @ c)) cs"
  proof (rule Cons.IH)
    show "newline \<notin> set (streamRest (rest @ c))" by (rule streamRest_open)
    show "length d \<le> k" if "d \<in> set cs" for d using Cons.prems(2) that by simp
    show "length l + k \<le> MAX_MESSAGE_SIZE" if "l \<in> set (splitOn newline (streamRest (rest @ c) @ concat cs))" for l
      using Cons.prems(3) [of l] that splitOn_cut [of newline "rest @ c" "concat cs"] by (simp add: streamRest_def)
  qed
  ultimately show ?case by simp
qed simp

text \<open>A client all of whose lines leave room for one more read within the limit is never
  disconnected: every read is accepted, wherever it cuts the lines.\<close>

theorem ipc_short_lines_kept:
  assumes "\<And>c. c \<in> set chunks \<Longrightarrow> length c \<le> k"
    and "\<And>l. l \<in> set (splitOn newline (concat chunks)) \<Longrightarrow> length l + k \<le> MAX_MESSAGE_SIZE"
  shows "withinLimit [] chunks"
  by (rule withinLimit_short [of "[]" chunks k]) (simp_all add: assms)

theorem ipc_short_lines_kept_witness:
  "withinLimit [] [[CHR ''p'', newline], [CHR ''q''], [newline]]"
proof -
  have l: "splitOn newline (concat [[CHR ''p'', newline], [CHR ''q''], [newline]]) = [''p'', ''q'', []]" by code_simp
  show ?thesis
  proof (rule ipc_short_lines_kept [where k = 2])
    fix w assume "w \<in> set (splitOn newline (concat [[CHR ''p'', newline], [CHR ''q''], [newline]]))"
    then have "length w \<le> 1" unfolding l by auto
    then show "length w + 2 \<le> MAX_MESSAGE_SIZE" by (simp add: MAX_MESSAGE_SIZE_def)
  qed auto
qed

text \<open>The limit is checked against the unread bytes, not against a message: 64 KiB and one
  byte of blank lines get a client thrown out when they come in one read, although each message is
  empty, and are accepted when they come in two.\<close>

theorem ipc_limit_counts_unread_bytes:
  fixes reply :: "socket \<Rightarrow> jobject \<Rightarrow> 'a \<Rightarrow> 'a"
  shows "is_closing (fst (onReadyRead fromJson reply 5 (replicate (Suc MAX_MESSAGE_SIZE) newline) (newServer, st))) = [5]
    \<and> is_closing (fst (reads fromJson reply 5 [replicate MAX_MESSAGE_SIZE newline, [newline]] (newServer, st))) = []"
proof -
  have r: "streamRest (replicate n newline) = []" for n
    by (induction n) (simp_all add: streamRest_def)
  have b: "bufferOf (newServer :: 'a ipc_server) 5 = []" by (simp add: bufferOf_def newServer_def)
  have w: "withinLimit [] [replicate MAX_MESSAGE_SIZE newline, [newline]]"
    by (simp add: r MAX_MESSAGE_SIZE_def)
  have "is_closing (fst (reads fromJson reply 5 [replicate MAX_MESSAGE_SIZE newline, [newline]] (newServer, st))) = []"
    using reads_stream [of 5 newServer "[replicate MAX_MESSAGE_SIZE newline, [newline]]" fromJson reply st] w
    by (simp only: b) (simp add: newServer_def)
  then show ?thesis by (simp add: onReadyRead_eq b Let_def newServer_def)
qed

section \<open>Requests on the wire\<close>

text \<open>What the code relies on of \<^verbatim>\<open>QJsonDocument\<close>: compact output is one line between braces
  (control characters inside strings are escaped) and parses back to the object.\<close>

definition json_codec :: "(string \<Rightarrow> string + json) \<Rightarrow> (jobject \<Rightarrow> string) \<Rightarrow> jobject \<Rightarrow> bool" where
  "json_codec fromJson toJson j \<longleftrightarrow>
     fromJson (toJson j) = Inr (JObj j) \<and> newline \<notin> set (toJson j) \<and>
     (\<exists>body. toJson j = CHR 0x7B # body @ [CHR 0x7D])"

lemma brace_not_blank [simp]: "\<not> isBlank (CHR 0x7B)" "\<not> isBlank (CHR 0x7D)"
  by code_simp+

lemma trimmed_json:
  assumes "json_codec fromJson toJson j"
  shows "trimmedBytes (toJson j) = toJson j" and "toJson j \<noteq> []"
  using assms by (auto simp: json_codec_def trimmedBytes_def)

lemma request_lines:
  assumes "json_codec fromJson toJson j"
  shows "streamLines (requestBytes toJson j) = [toJson j]" and "streamRest (requestBytes toJson j) = []"
proof -
  have "newline \<notin> set (toJson j)" using assms by (simp add: json_codec_def)
  note l = stream_line [OF this, of "[]"]
  show "streamLines (requestBytes toJson j) = [toJson j]" "streamRest (requestBytes toJson j) = []"
    using trimmed_json [OF assms] by (simp_all add: requestBytes_def l stream_open)
qed

lemma request_delivered:
  assumes "json_codec fromJson toJson req" and "toStr (jvalue req ''type'') = ty" and "ty \<noteq> []"
    and "concat chunks = requestBytes toJson req" and "length (concat chunks) \<le> MAX_MESSAGE_SIZE"
    and "socket \<noteq> nullptr" and "bufferOf srv socket = []" and "is_handler srv = Some h"
  shows "snd (reads fromJson reply socket chunks (srv, st)) = h socket ty req st
    \<and> bufferOf (fst (reads fromJson reply socket chunks (srv, st))) socket = []
    \<and> is_closing (fst (reads fromJson reply socket chunks (srv, st))) = is_closing srv"
proof -
  have "withinLimit rest cs" if "length (rest @ concat cs) \<le> MAX_MESSAGE_SIZE" for rest cs
    using that
  proof (induction cs arbitrary: rest)
    case (Cons c cs)
    then show ?case using Cons.IH [of "streamRest (rest @ c)"] streamRest_length [of "rest @ c"] by simp
  qed simp
  then have "withinLimit (bufferOf srv socket) chunks" using assms(5,7) by simp
  from reads_stream [OF assms(6) this, of fromJson reply st]
  show ?thesis
    using assms(1-4,7,8)
    by (simp add: request_lines handleLine_def lineMessage_def json_codec_def)
qed

text \<open>A request a client writes reaches the handler exactly once, with its type and its object,
  however its bytes are cut into reads, and leaves the buffer empty for the next one.\<close>

theorem ipc_request_delivered:
  assumes "json_codec fromJson toJson req" and "toStr (jvalue req ''type'') = ty" and "ty \<noteq> []"
    and "concat chunks = requestBytes toJson req" and "length (concat chunks) \<le> MAX_MESSAGE_SIZE"
    and "socket \<noteq> nullptr" and "bufferOf srv socket = []" and "is_handler srv = Some h"
  shows "snd (reads fromJson reply socket chunks (srv, st)) = h socket ty req st
    \<and> bufferOf (fst (reads fromJson reply socket chunks (srv, st))) socket = []
    \<and> is_closing (fst (reads fromJson reply socket chunks (srv, st))) = is_closing srv"
  using request_delivered [OF assms] by blast

definition example_print :: "jobject \<Rightarrow> string" where
  "example_print j = (if j = pingRequest then ''{ping}''
     else if toStr (jvalue j ''type'') = ''pong'' then ''{pong}'' else ''{}'')"

definition example_parse :: "string \<Rightarrow> string + json" where
  "example_parse s = (if s = ''{ping}'' then Inr (JObj pingRequest) else Inl ''bad'')"

lemma example_codec: "json_codec example_parse example_print pingRequest"
proof -
  have "newline \<notin> set ''{ping}''" by code_simp
  then show ?thesis by (simp add: json_codec_def example_parse_def example_print_def)
qed

theorem ipc_request_delivered_witness:
  "snd (reads example_parse logReply 7 [''{pi'', ''ng'', [CHR 0x7D, newline]] (logServer, [])) = [(7, ''ping'')]"
  using ipc_request_delivered [OF example_codec, of "''ping''" "[''{pi'', ''ng'', [CHR 0x7D, newline]]" 7 logServer
      "\<lambda>s ty msg log. log @ [(s, ty)]" logReply "[]"]
  by (simp add: pingRequest_def requestBytes_def example_print_def MAX_MESSAGE_SIZE_def)

end
