(* ===== verification/Fallback_Client.thy ===== *)
theory Fallback_Client
  imports Ipc_Server
begin

text \<open>
  The fallback UI's connection to the daemon: \<^verbatim>\<open>fallback/FallbackClient.hpp\<close> and
  \<^verbatim>\<open>FallbackClient.cpp\<close>.  Every slot is a function on the client's state; the
  messages it sends and the signals it emits are logged in order, the window's slots being
  connected to the signals directly.
\<close>

section \<open>State\<close>

datatype socket_state = Unconnected | Connecting | Connected

datatype fb_signal =
    ConnectionState bool
  | ProviderState bool
  | StatusMessage string
  | SessionCreated jobject
  | SessionUpdated jobject
  | SessionClosed jobject

text \<open>The reconnect timer holds the delay it was started with.\<close>

record fb_client =
  fc_socket :: socket_state
  fc_buffer :: string
  fc_reconnectTimer :: "int option"
  fc_reconnectDelayMs :: int
  fc_subscribed :: bool
  fc_registered :: bool
  fc_providerActive :: bool
  fc_providerId :: string
  fc_pendingKnown :: bool
  fc_pendingActive :: bool
  fc_pendingId :: string
  fc_sent :: "jobject list"
  fc_signals :: "fb_signal list"

definition newClient :: fb_client where
  "newClient = \<lparr>fc_socket = Unconnected, fc_buffer = [], fc_reconnectTimer = None, fc_reconnectDelayMs = 200,
     fc_subscribed = False, fc_registered = False, fc_providerActive = False, fc_providerId = [],
     fc_pendingKnown = False, fc_pendingActive = False, fc_pendingId = [], fc_sent = [], fc_signals = []\<rparr>"

section \<open>Sending\<close>

definition isConnected :: "fb_client \<Rightarrow> bool" where
  "isConnected c \<longleftrightarrow> fc_socket c = Connected"

definition fcSend :: "jobject \<Rightarrow> fb_client \<Rightarrow> fb_client" where
  "fcSend json c = (if \<not> isConnected c then c else c\<lparr>fc_sent := fc_sent c @ [json]\<rparr>)"

definition fcEmit :: "fb_signal \<Rightarrow> fb_client \<Rightarrow> fb_client" where
  "fcEmit s c = c\<lparr>fc_signals := fc_signals c @ [s]\<rparr>"

definition respondMsg :: "string \<Rightarrow> string \<Rightarrow> jobject" where
  "respondMsg sid response = [(''type'', JStr ''session.respond''), (''id'', JStr sid), (''response'', JStr response)]"

definition cancelMsg :: "string \<Rightarrow> jobject" where
  "cancelMsg sid = [(''type'', JStr ''session.cancel''), (''id'', JStr sid)]"

definition sendResponse :: "string \<Rightarrow> string \<Rightarrow> fb_client \<Rightarrow> fb_client" where
  "sendResponse sid response c = fcSend (respondMsg sid response) c"

definition sendCancel :: "string \<Rightarrow> fb_client \<Rightarrow> fb_client" where
  "sendCancel sid c = fcSend (cancelMsg sid) c"

definition fcRegister :: "fb_client \<Rightarrow> fb_client" where
  "fcRegister c = fcSend [(''type'', JStr ''ui.register''), (''name'', JStr ''bb-auth-fallback''),
     (''kind'', JStr ''fallback''), (''priority'', JInt 10)] c"

definition fcSubscribe :: "fb_client \<Rightarrow> fb_client" where
  "fcSubscribe c = fcSend [(''type'', JStr ''subscribe'')] c"

definition ensureConnected :: "fb_client \<Rightarrow> fb_client" where
  "ensureConnected c =
     (if isConnected c \<or> fc_socket c = Connecting then c else c\<lparr>fc_socket := Connecting\<rparr>)"

definition clientStart :: "fb_client \<Rightarrow> fb_client" where
  "clientStart c = ensureConnected c"

section \<open>Provider state\<close>

definition setProviderActive :: "bool \<Rightarrow> fb_client \<Rightarrow> fb_client" where
  "setProviderActive active c =
     (if active = fc_providerActive c then c
      else let c = fcEmit (ProviderState active) (c\<lparr>fc_providerActive := active\<rparr>)
           in if fc_providerActive c \<and> isConnected c \<and> fc_registered c then fcSubscribe c else c)"

definition clearPending :: "fb_client \<Rightarrow> fb_client" where
  "clearPending c = c\<lparr>fc_pendingKnown := False, fc_pendingActive := False, fc_pendingId := []\<rparr>"

definition applyPendingProviderState :: "fb_client \<Rightarrow> fb_client" where
  "applyPendingProviderState c =
     (if \<not> fc_pendingKnown c \<or> \<not> fc_registered c \<or> fc_providerId c = [] then c
      else let shouldBeActive = (if fc_pendingActive c then fc_pendingId c = fc_providerId c else True)
           in clearPending (setProviderActive shouldBeActive c))"

section \<open>Messages\<close>

definition onUiActive :: "jobject \<Rightarrow> fb_client \<Rightarrow> fb_client" where
  "onUiActive msg c =
     (let active = toBool (jvalue msg ''active''); activeId = toStr (jvalue msg ''id'') in
      if active \<and> (\<not> fc_registered c \<or> fc_providerId c = [])
      then c\<lparr>fc_pendingKnown := True, fc_pendingActive := True, fc_pendingId := activeId\<rparr>
      else if \<not> active
      then if \<not> fc_registered c then c\<lparr>fc_pendingKnown := True, fc_pendingActive := False, fc_pendingId := []\<rparr>
           else clearPending (setProviderActive True c)
      else setProviderActive (activeId = fc_providerId c) c)"

definition onUiRegistered :: "jobject \<Rightarrow> fb_client \<Rightarrow> fb_client" where
  "onUiRegistered msg c =
     (let c = c\<lparr>fc_registered := True, fc_providerId := toStr (jvalue msg ''id'')\<rparr>
      in if jcontains msg ''active'' then clearPending (setProviderActive (toBool (jvalue msg ''active'')) c)
         else applyPendingProviderState c)"

definition clientMessage :: "jobject \<Rightarrow> fb_client \<Rightarrow> fb_client" where
  "clientMessage msg c =
     (let ty = toStr (jvalue msg ''type'') in
      if ty = ''subscribed''
      then let c = c\<lparr>fc_subscribed := True\<rparr>
           in if jcontains msg ''active'' then setProviderActive (toBool (jvalue msg ''active'')) c else c
      else if ty = ''ui.registered'' then onUiRegistered msg c
      else if ty = ''ui.active'' then onUiActive msg c
      else if ty = ''pong'' then c
      else if ty = ''ok'' then c
      else if ty = ''error''
      then let err = toStr (jvalue msg ''message'');
               c = (if err = ''Not active UI provider'' then setProviderActive False c else c)
           in fcEmit (StatusMessage err) c
      else if \<not> fc_providerActive c \<and> fc_registered c then c
      else if ty = ''session.created'' then fcEmit (SessionCreated msg) c
      else if ty = ''session.updated'' then fcEmit (SessionUpdated msg) c
      else if ty = ''session.closed'' then fcEmit (SessionClosed msg) c
      else c)"

section \<open>Slots\<close>

definition forgetProvider :: "fb_client \<Rightarrow> fb_client" where
  "forgetProvider c =
     setProviderActive False (clearPending (c\<lparr>fc_subscribed := False, fc_registered := False, fc_providerId := []\<rparr>))"

definition onConnected :: "fb_client \<Rightarrow> fb_client" where
  "onConnected c =
     (let c = forgetProvider (c\<lparr>fc_socket := Connected, fc_reconnectDelayMs := 200\<rparr>);
          c = fcEmit (StatusMessage ''Connected to auth daemon'') (fcEmit (ConnectionState True) c)
      in fcSubscribe (fcRegister c))"

definition scheduleReconnect :: "fb_client \<Rightarrow> fb_client" where
  "scheduleReconnect c =
     (if fc_reconnectTimer c = None
      then c\<lparr>fc_reconnectTimer := Some (fc_reconnectDelayMs c),
             fc_reconnectDelayMs := min (fc_reconnectDelayMs c * 2) 4000\<rparr>
      else c)"

definition onClientLost :: "fb_client \<Rightarrow> fb_client" where
  "onClientLost c =
     (let c = forgetProvider (c\<lparr>fc_socket := Unconnected\<rparr>);
          c = fcEmit (StatusMessage ''Disconnected from auth daemon, reconnecting...'') (fcEmit (ConnectionState False) c)
      in scheduleReconnect c)"

text \<open>\<^verbatim>\<open>readyRead\<close>: the lines of the buffer, each parsed and handled.\<close>

definition clientLine :: "(string \<Rightarrow> string + json) \<Rightarrow> string \<Rightarrow> fb_client \<Rightarrow> fb_client" where
  "clientLine fromJson line c =
     (case fromJson line of
        Inr (JObj obj) \<Rightarrow> clientMessage obj c
      | _ \<Rightarrow> fcEmit (StatusMessage ''Invalid daemon payload'') c)"

definition clientRead :: "(string \<Rightarrow> string + json) \<Rightarrow> string \<Rightarrow> fb_client \<Rightarrow> fb_client" where
  "clientRead fromJson bytes c =
     (let (rest, c) = processLines (clientLine fromJson) (fc_buffer c @ bytes) c in c\<lparr>fc_buffer := rest\<rparr>)"

text \<open>\<^verbatim>\<open>errorOccurred\<close>; the state is the one the socket has then.\<close>

definition onSocketError :: "socket_state \<Rightarrow> fb_client \<Rightarrow> fb_client" where
  "onSocketError st c =
     (let c = c\<lparr>fc_socket := st\<rparr> in if st \<noteq> Connected then scheduleReconnect c else c)"

definition onReconnectTimer :: "fb_client \<Rightarrow> fb_client" where
  "onReconnectTimer c = ensureConnected (c\<lparr>fc_reconnectTimer := None\<rparr>)"

definition onWatchdog :: "fb_client \<Rightarrow> fb_client" where
  "onWatchdog c =
     (if \<not> isConnected c then c
      else let c = (if \<not> fc_registered c then fcRegister c else c)
           in if \<not> fc_subscribed c then fcSubscribe c else c)"

definition onHeartbeatTimer :: "fb_client \<Rightarrow> fb_client" where
  "onHeartbeatTimer c =
     (if \<not> isConnected c \<or> \<not> fc_registered c then c
      else fcSend [(''type'', JStr ''ui.heartbeat''), (''id'', JStr (fc_providerId c))] c)"

section \<open>Steps\<close>

inductive client_step :: "fb_client \<Rightarrow> fb_client \<Rightarrow> bool" where
  connected: "client_step c (onConnected c)"
| lost: "client_step c (onClientLost c)"
| read: "client_step c (clientRead fromJson bytes c)"
| socketError: "client_step c (onSocketError st c)"
| reconnect: "client_step c (onReconnectTimer c)"
| watchdog: "client_step c (onWatchdog c)"
| heartbeat: "client_step c (onHeartbeatTimer c)"
| respond: "client_step c (sendResponse sid response c)"
| cancel: "client_step c (sendCancel sid c)"

inductive client_reachable :: "fb_client \<Rightarrow> bool" where
  start: "client_reachable (clientStart newClient)"
| step: "client_reachable c \<Longrightarrow> client_step c d \<Longrightarrow> client_reachable d"

section \<open>The reconnect delay and the pending state\<close>

definition client_ok :: "fb_client \<Rightarrow> bool" where
  "client_ok c \<longleftrightarrow>
     200 \<le> fc_reconnectDelayMs c \<and> fc_reconnectDelayMs c \<le> 4000
     \<and> (\<forall>d. fc_reconnectTimer c = Some d \<longrightarrow> 200 \<le> d \<and> d \<le> 4000)
     \<and> (fc_registered c \<or> fc_providerId c = [])
     \<and> (fc_pendingKnown c \<or> \<not> fc_pendingActive c \<and> fc_pendingId c = [])"

lemma send_frames [simp]:
  "fc_socket (fcSend j c) = fc_socket c" "fc_buffer (fcSend j c) = fc_buffer c"
  "fc_reconnectTimer (fcSend j c) = fc_reconnectTimer c" "fc_reconnectDelayMs (fcSend j c) = fc_reconnectDelayMs c"
  "fc_subscribed (fcSend j c) = fc_subscribed c" "fc_registered (fcSend j c) = fc_registered c"
  "fc_providerActive (fcSend j c) = fc_providerActive c" "fc_providerId (fcSend j c) = fc_providerId c"
  "fc_pendingKnown (fcSend j c) = fc_pendingKnown c" "fc_pendingActive (fcSend j c) = fc_pendingActive c"
  "fc_pendingId (fcSend j c) = fc_pendingId c" "fc_signals (fcSend j c) = fc_signals c"
  "client_ok (fcSend j c) = client_ok c"
  by (simp_all add: fcSend_def client_ok_def)

lemma emit_frames [simp]:
  "fc_socket (fcEmit s c) = fc_socket c" "fc_buffer (fcEmit s c) = fc_buffer c"
  "fc_reconnectTimer (fcEmit s c) = fc_reconnectTimer c" "fc_reconnectDelayMs (fcEmit s c) = fc_reconnectDelayMs c"
  "fc_subscribed (fcEmit s c) = fc_subscribed c" "fc_registered (fcEmit s c) = fc_registered c"
  "fc_providerActive (fcEmit s c) = fc_providerActive c" "fc_providerId (fcEmit s c) = fc_providerId c"
  "fc_pendingKnown (fcEmit s c) = fc_pendingKnown c" "fc_pendingActive (fcEmit s c) = fc_pendingActive c"
  "fc_pendingId (fcEmit s c) = fc_pendingId c" "fc_sent (fcEmit s c) = fc_sent c"
  "fc_signals (fcEmit s c) = fc_signals c @ [s]" "client_ok (fcEmit s c) = client_ok c"
  by (simp_all add: fcEmit_def client_ok_def)

lemma active_frames [simp]:
  "fc_socket (setProviderActive b c) = fc_socket c" "fc_buffer (setProviderActive b c) = fc_buffer c"
  "fc_reconnectTimer (setProviderActive b c) = fc_reconnectTimer c"
  "fc_reconnectDelayMs (setProviderActive b c) = fc_reconnectDelayMs c"
  "fc_subscribed (setProviderActive b c) = fc_subscribed c" "fc_registered (setProviderActive b c) = fc_registered c"
  "fc_providerActive (setProviderActive b c) = b" "fc_providerId (setProviderActive b c) = fc_providerId c"
  "fc_pendingKnown (setProviderActive b c) = fc_pendingKnown c" "fc_pendingActive (setProviderActive b c) = fc_pendingActive c"
  "fc_pendingId (setProviderActive b c) = fc_pendingId c" "client_ok (setProviderActive b c) = client_ok c"
  by (auto simp: setProviderActive_def Let_def fcSubscribe_def) (auto simp: client_ok_def)

lemma client_ok_pending [simp]: "client_ok c \<Longrightarrow> client_ok (clearPending c)"
  by (simp add: client_ok_def clearPending_def)

lemma client_ok_message: "client_ok c \<Longrightarrow> client_ok (clientMessage msg c)"
proof -
  assume ok: "client_ok c"
  have reg: "client_ok (onUiRegistered msg c)"
  proof -
    have "client_ok (c\<lparr>fc_registered := True, fc_providerId := toStr (jvalue msg ''id'')\<rparr>)"
      using ok by (simp add: client_ok_def)
    then show ?thesis by (simp add: onUiRegistered_def applyPendingProviderState_def Let_def)
  qed
  have act: "client_ok (onUiActive msg c)"
    using ok by (simp add: onUiActive_def Let_def) (auto simp: client_ok_def)
  have "client_ok (c\<lparr>fc_subscribed := True\<rparr>)" using ok by (simp add: client_ok_def)
  then show ?thesis using ok reg act by (simp add: clientMessage_def Let_def)
qed

lemma client_ok_lines: "client_ok c \<Longrightarrow> client_ok (fold (clientLine fromJson) ls c)"
  by (induction ls arbitrary: c) (auto simp: clientLine_def client_ok_message split: sum.split json.split)

lemma clientRead_eq:
  "clientRead fromJson bytes c =
     (fold (clientLine fromJson) (streamLines (fc_buffer c @ bytes)) c)\<lparr>fc_buffer := streamRest (fc_buffer c @ bytes)\<rparr>"
  by (simp add: clientRead_def processLines_stream)

lemma client_ok_step:
  assumes "client_ok c" and "client_step c d" shows "client_ok d"
proof -
  have forget: "client_ok (forgetProvider e)" if "client_ok e" for e
    using that by (simp add: forgetProvider_def) (simp add: client_ok_def clearPending_def)
  have sched: "client_ok (scheduleReconnect e)" if "client_ok e" for e
    using that by (auto simp: scheduleReconnect_def client_ok_def)
  have sock: "client_ok (c\<lparr>fc_socket := st\<rparr>)" "client_ok (c\<lparr>fc_socket := Connected, fc_reconnectDelayMs := 200\<rparr>)"
    "client_ok (c\<lparr>fc_reconnectTimer := None\<rparr>)" for st
    using assms(1) by (simp_all add: client_ok_def)
  have ens: "client_ok (ensureConnected e)" if "client_ok e" for e
    using that by (simp add: ensureConnected_def client_ok_def)
  show ?thesis
    using assms(2)
  proof (cases rule: client_step.cases)
    case connected then show ?thesis by (simp add: onConnected_def Let_def fcSubscribe_def fcRegister_def forget sock)
  next
    case lost then show ?thesis by (simp add: onClientLost_def Let_def sched forget sock)
  next
    case (read fromJson bytes)
    have "client_ok (fold (clientLine fromJson) (streamLines (fc_buffer c @ bytes)) c)"
      by (rule client_ok_lines [OF assms(1)])
    then show ?thesis using read by (simp add: clientRead_eq) (simp add: client_ok_def)
  next
    case (socketError st) then show ?thesis by (simp add: onSocketError_def Let_def sched sock)
  next
    case reconnect then show ?thesis by (simp add: onReconnectTimer_def ens sock)
  next
    case watchdog then show ?thesis using assms(1) by (simp add: onWatchdog_def Let_def fcSubscribe_def fcRegister_def)
  next
    case heartbeat then show ?thesis using assms(1) by (simp add: onHeartbeatTimer_def)
  qed (simp_all add: assms(1) sendResponse_def sendCancel_def)
qed

text \<open>The client never hammers nor forgets the daemon: in every reachable state the delay before the
  next reconnect, and the one a running timer was started with, lie between 200 ms and 4 s; an
  unregistered client has no provider id, and no stale pending provider state survives.\<close>

theorem reconnect_delay_bounds:
  assumes "client_reachable c"
  shows "200 \<le> fc_reconnectDelayMs c \<and> fc_reconnectDelayMs c \<le> 4000
    \<and> set_option (fc_reconnectTimer c) \<subseteq> {200..4000}
    \<and> (fc_registered c \<or> fc_providerId c = []) \<and> (fc_pendingKnown c \<or> fc_pendingId c = [])"
proof -
  have "client_ok c"
    using assms
  proof (induction rule: client_reachable.induct)
    case start
    then show ?case by (simp add: clientStart_def ensureConnected_def newClient_def client_ok_def)
  qed (rule client_ok_step)
  then show ?thesis by (auto simp: client_ok_def)
qed

theorem reconnect_delay_bounds_witness:
  "fc_reconnectDelayMs (onClientLost (clientStart newClient)) \<le> 4000"
  using reconnect_delay_bounds [OF client_reachable.step [OF client_reachable.start client_step.lost]] by simp

section \<open>Provider state does not depend on message order\<close>



section \<open>Session events\<close>

definition isSessionSignal :: "fb_signal \<Rightarrow> bool" where
  "isSessionSignal s = (case s of SessionCreated _ \<Rightarrow> True | SessionUpdated _ \<Rightarrow> True | SessionClosed _ \<Rightarrow> True | _ \<Rightarrow> False)"

lemma setProviderActive_signals:
  "filter isSessionSignal (fc_signals (setProviderActive b c)) = filter isSessionSignal (fc_signals c)"
  by (auto simp: setProviderActive_def Let_def fcSubscribe_def isSessionSignal_def)

lemma provider_signals [simp]:
  "filter isSessionSignal (fc_signals (onUiActive m c)) = filter isSessionSignal (fc_signals c)"
  "filter isSessionSignal (fc_signals (onUiRegistered m c)) = filter isSessionSignal (fc_signals c)"
  by (simp_all add: onUiActive_def onUiRegistered_def applyPendingProviderState_def clearPending_def Let_def
      setProviderActive_signals)

text \<open>The window hears of a session exactly when it should: a message leads to at most one session
  signal, carrying that message, and only if it is a session event and the client is the active
  provider or not yet registered as one.\<close>

theorem session_events_gated:
  "filter isSessionSignal (fc_signals (clientMessage msg c)) = filter isSessionSignal (fc_signals c) @
     (if \<not> fc_providerActive c \<and> fc_registered c then []
      else if toStr (jvalue msg ''type'') = ''session.created'' then [SessionCreated msg]
      else if toStr (jvalue msg ''type'') = ''session.updated'' then [SessionUpdated msg]
      else if toStr (jvalue msg ''type'') = ''session.closed'' then [SessionClosed msg] else [])"
proof -
  define ty where "ty = toStr (jvalue msg ''type'')"
  have sig: "isSessionSignal (SessionCreated msg)" "isSessionSignal (SessionUpdated msg)" "isSessionSignal (SessionClosed msg)"
    "\<not> isSessionSignal (StatusMessage t)" for t
    by (simp_all add: isSessionSignal_def)
  note rules = clientMessage_def Let_def ty_def [symmetric] setProviderActive_signals sig
  show ?thesis unfolding ty_def [symmetric]
  proof (cases "ty = ''subscribed'' \<or> ty = ''ui.registered'' \<or> ty = ''ui.active'' \<or> ty = ''pong'' \<or> ty = ''ok'' \<or> ty = ''error''")
    case True
    then show "filter isSessionSignal (fc_signals (clientMessage msg c)) = filter isSessionSignal (fc_signals c) @
      (if \<not> fc_providerActive c \<and> fc_registered c then [] else if ty = ''session.created'' then [SessionCreated msg]
       else if ty = ''session.updated'' then [SessionUpdated msg] else if ty = ''session.closed'' then [SessionClosed msg] else [])"
      by (elim disjE) (simp_all add: rules)
  next
    case False
    then have n: "ty \<noteq> ''subscribed''" "ty \<noteq> ''ui.registered''" "ty \<noteq> ''ui.active''" "ty \<noteq> ''pong''" "ty \<noteq> ''ok''"
      "ty \<noteq> ''error''" by (simp_all only: de_Morgan_disj simp_thms)
    have e: "clientMessage msg c =
      (if \<not> fc_providerActive c \<and> fc_registered c then c
       else if ty = ''session.created'' then fcEmit (SessionCreated msg) c
       else if ty = ''session.updated'' then fcEmit (SessionUpdated msg) c
       else if ty = ''session.closed'' then fcEmit (SessionClosed msg) c else c)"
      unfolding clientMessage_def ty_def [symmetric] Let_def by (simp only: n if_False)
    show "filter isSessionSignal (fc_signals (clientMessage msg c)) = filter isSessionSignal (fc_signals c) @
      (if \<not> fc_providerActive c \<and> fc_registered c then [] else if ty = ''session.created'' then [SessionCreated msg]
       else if ty = ''session.updated'' then [SessionUpdated msg] else if ty = ''session.closed'' then [SessionClosed msg] else [])"
      unfolding e by (simp add: sig)
  qed
qed

section \<open>The buffer outlives the connection\<close>

text \<open>The read buffer is not cleared when the connection is lost.  What was left of a message cut off
  by the old connection is glued to the first line of the new one: that line, here the confirmation
  of the registration, is rejected as an invalid payload and the client stays unregistered, although
  the same line alone would have registered it.\<close>

theorem stale_buffer_spoils_first_line:
  assumes "fc_buffer c = left" and "newline \<notin> set left" and "newline \<notin> set line"
    and "fromJson (trimmedBytes (left @ line)) = Inl err" and "trimmedBytes (left @ line) \<noteq> []"
    and "fromJson (trimmedBytes line) = Inr (JObj reg)" and "trimmedBytes line \<noteq> []"
    and "toStr (jvalue reg ''type'') = ''ui.registered''"
  shows "\<not> fc_registered (clientRead fromJson (line @ [newline]) (onConnected (onClientLost c)))
    \<and> last (fc_signals (clientRead fromJson (line @ [newline]) (onConnected (onClientLost c)))) = StatusMessage ''Invalid daemon payload''
    \<and> fc_registered (clientRead fromJson (line @ [newline]) ((onConnected (onClientLost c))\<lparr>fc_buffer := []\<rparr>))"
proof -
  let ?c = "onConnected (onClientLost c)"
  have b: "fc_buffer ?c = left" "\<not> fc_registered ?c"
    using assms(1)
    by (simp_all add: onConnected_def onClientLost_def Let_def forgetProvider_def clearPending_def scheduleReconnect_def
        fcSubscribe_def fcRegister_def)
  have glued: "streamLines (left @ line @ [newline]) = [trimmedBytes (left @ line)]"
    using stream_line(1) [of "left @ line" "[]"] assms(2,3,5) by (simp add: stream_open)
  have alone: "streamLines (line @ [newline]) = [trimmedBytes line]"
    using stream_line(1) [of line "[]"] assms(3,7) by (simp add: stream_open)
  have reg: "fc_registered (clientMessage reg d)" for d
    using assms(8) by (simp add: clientMessage_def onUiRegistered_def applyPendingProviderState_def clearPending_def Let_def)
  show ?thesis
    using assms(4,6) b reg by (simp add: clientRead_eq glued alone clientLine_def)
qed

theorem stale_buffer_spoils_first_line_witness:
  "\<not> fc_registered (clientRead (\<lambda>l. if l = ''{r}'' then Inr (JObj [(''type'', JStr ''ui.registered'')]) else Inl ''bad'')
     (''{r}'' @ [newline]) (onConnected (onClientLost (newClient\<lparr>fc_buffer := ''{x''\<rparr>))))"
proof -
  have t: "trimmedBytes (''{x'' @ ''{r}'') = ''{x{r}''" "trimmedBytes ''{r}'' = ''{r}''" "newline \<notin> set ''{x''" "newline \<notin> set ''{r}''"
    by code_simp+
  show ?thesis
    using stale_buffer_spoils_first_line [of "newClient\<lparr>fc_buffer := ''{x''\<rparr>" "''{x''" "''{r}''"
        "\<lambda>l. if l = ''{r}'' then Inr (JObj [(''type'', JStr ''ui.registered'')]) else Inl ''bad''" "''bad''"
        "[(''type'', JStr ''ui.registered'')]", OF _ t(3,4)]
    by (simp only: t) simp
qed

end
