(* ===== verification/Fallback_Window.thy ===== *)
theory Fallback_Window
  imports Prompt_Model Fallback_Client
begin

text \<open>
  The fallback prompt window as a state machine: \<^verbatim>\<open>fallback/FallbackWindow.hpp\<close> and
  \<^verbatim>\<open>FallbackWindow.cpp\<close>.  A slot or an event handler is a function on the window's
  state; the widgets are the values they show.  A label that is empty is hidden, so its text is its
  visibility.  Focus, fonts and colours are left out; of the geometry the sizes computed by
  \<^verbatim>\<open>ensureContentFits\<close> are modelled.
\<close>

section \<open>Collapsed details\<close>

fun collapseLoop :: "nat \<Rightarrow> int \<Rightarrow> string list \<Rightarrow> string list \<Rightarrow> int \<Rightarrow> string list \<times> bool" where
  "collapseLoop maxLines maxChars [] acc used = (acc, False)"
| "collapseLoop maxLines maxChars (line # ls) acc used =
     (if length acc \<ge> maxLines then (acc, True)
      else if used + int (length line) > maxChars
      then let remaining = max 0 (maxChars - used);
               clipped = (if remaining > 0 then trimmed (leftStr remaining line) else [])
           in (if clipped \<noteq> [] then acc @ [clipped] else acc, True)
      else collapseLoop maxLines maxChars ls (acc @ [line]) (used + int (length line)))"

definition collapseDetailText :: "string \<Rightarrow> nat \<Rightarrow> int \<Rightarrow> string \<times> bool" where
  "collapseDetailText text maxLines maxChars =
     (let normalizedText = normalizeDetailText text in
      if normalizedText = [] then ([], False)
      else let lines = splitOn nl normalizedText;
               (collapsedLines, truncated) = collapseLoop maxLines maxChars lines [] 0;
               truncated = (truncated \<or> length lines > length collapsedLines);
               collapsed = joinWith [nl] collapsedLines
           in (if truncated \<and> collapsed \<noteq> [] \<and> \<not> endsWith collapsed ''...'' then collapsed @ ''...'' else collapsed, truncated))"

section \<open>State\<close>

datatype pending_action = NoAction | Submit | Cancel

text \<open>The single shots that close the window after a session has ended.\<close>

datatype closer = CloseAny | CloseIf string

text \<open>What the window asks of the client.\<close>

datatype ui_request = UiRespond string string | UiCancel string

record fb_window =
  fw_session :: string
  fw_source :: string
  fw_context :: jobject
  fw_confirmOnly :: bool
  fw_allowEmpty :: bool
  fw_busy :: bool
  fw_pending :: pending_action
  fw_actionTimer :: bool
  fw_idleTimer :: bool
  fw_visible :: bool
  fw_intent :: prompt_intent
  fw_title :: string
  fw_summary :: string
  fw_requestor :: string
  fw_fullContext :: string
  fw_collapsedContext :: string
  fw_expandable :: bool
  fw_expanded :: bool
  fw_contextText :: string
  fw_toggleText :: string
  fw_prompt :: string
  fw_placeholder :: string
  fw_submitText :: string
  fw_error :: string
  fw_status :: string
  fw_input :: string
  fw_revealed :: bool
  fw_submitEnabled :: bool
  fw_cancelEnabled :: bool
  fw_inputEnabled :: bool
  fw_closers :: "closer list"
  fw_requests :: "ui_request list"

definition newWindow :: fb_window where
  "newWindow = \<lparr>fw_session = [], fw_source = [], fw_context = [], fw_confirmOnly = False, fw_allowEmpty = False,
     fw_busy = False, fw_pending = NoAction, fw_actionTimer = False, fw_idleTimer = False, fw_visible = False,
     fw_intent = Generic, fw_title = ''Authentication Required'', fw_summary = [], fw_requestor = [],
     fw_fullContext = [], fw_collapsedContext = [], fw_expandable = False, fw_expanded = False, fw_contextText = [],
     fw_toggleText = [], fw_prompt = ''Password:'', fw_placeholder = ''Enter password'', fw_submitText = ''Authenticate'',
     fw_error = [], fw_status = [], fw_input = [], fw_revealed = False, fw_submitEnabled = True, fw_cancelEnabled = True,
     fw_inputEnabled = True, fw_closers = [], fw_requests = []\<rparr>"

section \<open>Small operations\<close>

definition setBusy :: "bool \<Rightarrow> fb_window \<Rightarrow> fb_window" where
  "setBusy busy w =
     (let w = w\<lparr>fw_busy := busy\<rparr>;
          cancelInFlight = (fw_busy w \<and> fw_pending w = Cancel)
      in w\<lparr>fw_submitEnabled := \<not> fw_busy w, fw_cancelEnabled := (fw_session w \<noteq> [] \<and> \<not> cancelInFlight),
           fw_inputEnabled := \<not> fw_busy w\<rparr>)"

definition startPendingAction :: "pending_action \<Rightarrow> fb_window \<Rightarrow> fb_window" where
  "startPendingAction action w = w\<lparr>fw_pending := action, fw_actionTimer := True\<rparr>"

definition clearPendingAction :: "fb_window \<Rightarrow> fb_window" where
  "clearPendingAction w = w\<lparr>fw_pending := NoAction, fw_actionTimer := False\<rparr>"

definition setErrorText :: "string \<Rightarrow> fb_window \<Rightarrow> fb_window" where
  "setErrorText txt w = w\<lparr>fw_error := txt\<rparr>"

definition setStatusText :: "string \<Rightarrow> fb_window \<Rightarrow> fb_window" where
  "setStatusText txt w = w\<lparr>fw_status := txt\<rparr>"

definition setDetailsExpanded :: "bool \<Rightarrow> fb_window \<Rightarrow> fb_window" where
  "setDetailsExpanded expanded w =
     (let w = w\<lparr>fw_expanded := (expanded \<and> fw_expandable w)\<rparr> in
      if fw_fullContext w = [] then w\<lparr>fw_contextText := [], fw_toggleText := []\<rparr>
      else w\<lparr>fw_contextText := (if fw_expanded w \<or> \<not> fw_expandable w then fw_fullContext w else fw_collapsedContext w),
             fw_toggleText := (if fw_expandable w then if fw_expanded w then ''Show less'' else ''Show more'' else [])\<rparr>)"

definition setDetailsText :: "string \<Rightarrow> fb_window \<Rightarrow> fb_window" where
  "setDetailsText txt w =
     (let w = w\<lparr>fw_fullContext := normalizeDetailText txt\<rparr> in
      if fw_fullContext w = []
      then w\<lparr>fw_collapsedContext := [], fw_expandable := False, fw_expanded := False, fw_contextText := [], fw_toggleText := []\<rparr>
      else let collapsed = collapseDetailText (fw_fullContext w) 3 220
           in setDetailsExpanded False (w\<lparr>fw_collapsedContext := fst collapsed, fw_expandable := snd collapsed\<rparr>))"

definition clearSession :: "fb_window \<Rightarrow> fb_window" where
  "clearSession w =
     (let w = clearPendingAction w;
          w = w\<lparr>fw_session := [], fw_source := [], fw_context := [], fw_confirmOnly := False, fw_intent := Generic,
                fw_allowEmpty := False, fw_title := ''Authentication Required'', fw_summary := [], fw_requestor := []\<rparr>;
          w = setStatusText [] (setErrorText [] (setDetailsText [] w))
      in setBusy False (w\<lparr>fw_input := []\<rparr>))"

definition hideWindow :: "fb_window \<Rightarrow> fb_window" where
  "hideWindow w = w\<lparr>fw_visible := False\<rparr>"

definition startIdleExitTimer :: "fb_window \<Rightarrow> fb_window" where
  "startIdleExitTimer w = (if fw_session w = [] \<and> \<not> fw_visible w then w\<lparr>fw_idleTimer := True\<rparr> else w)"

definition stopIdleExitTimer :: "fb_window \<Rightarrow> fb_window" where
  "stopIdleExitTimer w = w\<lparr>fw_idleTimer := False\<rparr>"

text \<open>The recurring \<^verbatim>\<open>clearSession(); hide(); startIdleExitTimer();\<close>.\<close>

definition dismiss :: "fb_window \<Rightarrow> fb_window" where
  "dismiss w = startIdleExitTimer (hideWindow (clearSession w))"

definition ask :: "ui_request \<Rightarrow> fb_window \<Rightarrow> fb_window" where
  "ask r w = w\<lparr>fw_requests := fw_requests w @ [r]\<rparr>"

section \<open>Buttons\<close>

text \<open>\<open>isConn\<close> is what the client's \<^verbatim>\<open>isConnected\<close> returns.\<close>

definition handleCancelRequest :: "bool \<Rightarrow> fb_window \<Rightarrow> fb_window" where
  "handleCancelRequest isConn w =
     (if fw_session w = [] then startIdleExitTimer (hideWindow w)
      else if fw_busy w \<and> fw_pending w = Cancel then w
      else if fw_busy w \<and> \<not> isConn then dismiss w
      else let w = setStatusText ''Cancelling...'' (setErrorText [] w);
               w = setBusy True (startPendingAction Cancel w)
           in ask (UiCancel (fw_session w)) w)"

definition submitClicked :: "fb_window \<Rightarrow> fb_window" where
  "submitClicked w =
     (if fw_session w = [] then w
      else if \<not> fw_confirmOnly w \<and> \<not> fw_allowEmpty w \<and> fw_input w = []
      then setErrorText (if containsCI (fw_prompt w) ''passphrase'' then ''Please enter your passphrase.''
                         else ''Please enter your password.'') w
      else let w = startPendingAction Submit (setStatusText ''Verifying...'' (setErrorText [] w));
               response = (if fw_confirmOnly w then ''confirm'' else fw_input w);
               w = ask (UiRespond (fw_session w) response) w;
               w = (if \<not> fw_confirmOnly w then w\<lparr>fw_input := []\<rparr> else w)
           in setBusy True w)"

text \<open>A click reaches the slot only when the button is enabled; Return in the input clicks the
  submit button.\<close>

definition clickSubmit :: "fb_window \<Rightarrow> fb_window" where
  "clickSubmit w = (if fw_submitEnabled w then submitClicked w else w)"

definition clickCancel :: "bool \<Rightarrow> fb_window \<Rightarrow> fb_window" where
  "clickCancel isConn w = (if fw_cancelEnabled w then handleCancelRequest isConn w else w)"

definition clickDetails :: "fb_window \<Rightarrow> fb_window" where
  "clickDetails w = (if \<not> fw_expandable w then w else setDetailsExpanded (\<not> fw_expanded w) w)"

definition typeText :: "string \<Rightarrow> fb_window \<Rightarrow> fb_window" where
  "typeText txt w = (if fw_visible w \<and> fw_inputEnabled w \<and> \<not> fw_confirmOnly w then w\<lparr>fw_input := txt\<rparr> else w)"

definition toggleReveal :: "fb_window \<Rightarrow> fb_window" where
  "toggleReveal w = (if fw_confirmOnly w then w else w\<lparr>fw_revealed := \<not> fw_revealed w\<rparr>)"

definition closeEvent :: "fb_window \<Rightarrow> fb_window" where
  "closeEvent w =
     hideWindow (if fw_session w \<noteq> [] then clearSession (ask (UiCancel (fw_session w)) w) else w)"

section \<open>Timers\<close>

definition actionTimeout :: "fb_window \<Rightarrow> fb_window" where
  "actionTimeout w =
     (let w = w\<lparr>fw_actionTimer := False\<rparr> in
      if fw_session w = [] \<or> fw_pending w = NoAction then w
      else let timedOutAction = fw_pending w;
               w = setStatusText [] (setBusy False (clearPendingAction w))
           in if timedOutAction = Cancel then setErrorText ''Cancel request timed out. Try again.'' w
              else let w = setErrorText ''Authentication request timed out. Review details and retry.'' w
                   in if \<not> fw_confirmOnly w then w\<lparr>fw_submitText := ''Retry''\<rparr> else w)"

definition runCloser :: "closer \<Rightarrow> fb_window \<Rightarrow> fb_window" where
  "runCloser k w =
     (case k of
        CloseAny \<Rightarrow> dismiss w
      | CloseIf sid \<Rightarrow> if fw_session w = sid then dismiss w else w)"

definition fireCloser :: "nat \<Rightarrow> fb_window \<Rightarrow> fb_window" where
  "fireCloser i w =
     (if i < length (fw_closers w)
      then runCloser (fw_closers w ! i) (w\<lparr>fw_closers := take i (fw_closers w) @ drop (Suc i) (fw_closers w)\<rparr>)
      else w)"

section \<open>Signals of the client\<close>

definition onConnectionState :: "bool \<Rightarrow> fb_window \<Rightarrow> fb_window" where
  "onConnectionState isConn w =
     (if isConn then if fw_session w \<noteq> [] then setStatusText ''Connected'' w else w
      else setBusy True (setStatusText ''Disconnected from daemon, reconnecting...'' w))"

definition onProviderState :: "bool \<Rightarrow> fb_window \<Rightarrow> fb_window" where
  "onProviderState active w =
     (if active
      then let w = setStatusText [] w in if fw_session w \<noteq> [] then setBusy False w else w
      else startIdleExitTimer (hideWindow (if fw_session w \<noteq> [] then clearSession w else w)))"

definition placeholderFor :: "prompt_model \<Rightarrow> string" where
  "placeholderFor m =
     (if pd_allowEmptyResponse m then ''Press Enter to continue (optional)''
      else if pd_passphrasePrompt m then ''Enter passphrase'' else ''Enter password'')"

definition onSessionCreated :: "jobject \<Rightarrow> fb_window \<Rightarrow> fb_window" where
  "onSessionCreated event w =
     (let sid = toStr (jvalue event ''id'') in
      if sid = [] then w
      else let ctx = toObject (jvalue event ''context'');
               model = buildPrompt event;
               w = clearPendingAction (w\<lparr>fw_session := sid, fw_source := toStr (jvalue event ''source''), fw_context := ctx,
                     fw_confirmOnly := toBool (jvalue ctx ''confirmOnly''), fw_intent := pd_intent model\<rparr>);
               w = setDetailsText (pd_details model)
                     (w\<lparr>fw_title := pd_title model, fw_summary := pd_summary model, fw_requestor := pd_requestor model\<rparr>);
               w = w\<lparr>fw_prompt := pd_prompt model, fw_input := [], fw_revealed := False,
                     fw_placeholder := (if fw_confirmOnly w then [] else placeholderFor model),
                     fw_submitText := (if fw_confirmOnly w then ''Confirm''
                                       else if pd_allowEmptyResponse model then ''Continue'' else ''Authenticate''),
                     fw_allowEmpty := pd_allowEmptyResponse model\<rparr>;
               w = setBusy False (setStatusText [] (setErrorText [] w))
           in (stopIdleExitTimer w)\<lparr>fw_visible := True\<rparr>)"

definition mergedEvent :: "jobject \<Rightarrow> fb_window \<Rightarrow> jobject" where
  "mergedEvent event w =
     (let prompt = toStr (jvalue event ''prompt''); info = trimmed (toStr (jvalue event ''info'')) in
      [(''source'', JStr (if fw_source w = [] then toStr (jvalue event ''source'') else fw_source w)),
       (''context'', JObj (if fw_context w = [] then toObject (jvalue event ''context'') else fw_context w))]
      @ (if prompt \<noteq> [] then [(''prompt'', JStr prompt)] else [])
      @ (if info \<noteq> [] then [(''info'', JStr info)] else []))"

definition updateStatus :: "jobject \<Rightarrow> fb_window \<Rightarrow> fb_window" where
  "updateStatus event w =
     (let info = trimmed (toStr (jvalue event ''info''));
          curRetry = toInt (jvalue event ''curRetry''); maxRetry = toInt (jvalue event ''maxRetries'')
      in if info \<noteq> [] then setStatusText info w
         else if fw_source w = ''pinentry'' \<and> curRetry > 0 \<and> maxRetry > 0
         then setStatusText (''Attempt '' @ showInt curRetry @ '' of '' @ showInt maxRetry) w
         else setStatusText [] w)"

definition onSessionUpdated :: "jobject \<Rightarrow> fb_window \<Rightarrow> fb_window" where
  "onSessionUpdated event w =
     (let sid = toStr (jvalue event ''id'') in
      if sid = [] \<or> sid \<noteq> fw_session w then w
      else let model = buildPrompt (mergedEvent event w);
               w = (clearPendingAction w)\<lparr>fw_title := pd_title model\<rparr>;
               w = (if \<not> fw_confirmOnly w
                    then w\<lparr>fw_allowEmpty := pd_allowEmptyResponse model, fw_prompt := pd_prompt model,
                           fw_placeholder := placeholderFor model,
                           fw_submitText := (if pd_allowEmptyResponse model then ''Continue'' else ''Authenticate'')\<rparr>
                    else w);
               w = (if jcontains event ''echo'' then w\<lparr>fw_revealed := toBool (jvalue event ''echo'')\<rparr> else w);
               err = toStr (jvalue event ''error'');
               w = (if err \<noteq> []
                    then let w = setErrorText err w in if \<not> fw_confirmOnly w then w\<lparr>fw_submitText := ''Retry''\<rparr> else w
                    else setErrorText [] w)
           in setBusy False (updateStatus event w))"

definition onSessionClosed :: "jobject \<Rightarrow> fb_window \<Rightarrow> fb_window" where
  "onSessionClosed event w =
     (let sid = toStr (jvalue event ''id''); result = toStr (jvalue event ''result''); err = toStr (jvalue event ''error'') in
      if sid = [] \<or> sid \<noteq> fw_session w then w
      else let w = clearPendingAction w in
           if result = ''success''
           then let w = setStatusText ''Authentication successful.'' (setErrorText [] w)
                in w\<lparr>fw_closers := fw_closers w @ [CloseAny]\<rparr>
           else if result = ''cancelled'' \<or> result = ''canceled'' then dismiss w
           else let w = setErrorText (if err \<noteq> [] then err else ''Authentication failed.'') w;
                    w = setBusy False (setStatusText ''Request ended.'' w)
                in w\<lparr>fw_closers := fw_closers w @ [CloseIf sid]\<rparr>)"

definition onSignal :: "fb_signal \<Rightarrow> fb_window \<Rightarrow> fb_window" where
  "onSignal s w =
     (case s of
        ConnectionState b \<Rightarrow> onConnectionState b w
      | ProviderState b \<Rightarrow> onProviderState b w
      | StatusMessage txt \<Rightarrow> setStatusText txt w
      | SessionCreated event \<Rightarrow> onSessionCreated event w
      | SessionUpdated event \<Rightarrow> onSessionUpdated event w
      | SessionClosed event \<Rightarrow> onSessionClosed event w)"

section \<open>Steps\<close>

inductive window_step :: "fb_window \<Rightarrow> fb_window \<Rightarrow> bool" where
  signal: "window_step w (onSignal s w)"
| submit: "window_step w (clickSubmit w)"
| cancel: "window_step w (clickCancel isConn w)"
| shortcut: "window_step w (handleCancelRequest isConn w)"
| details: "window_step w (clickDetails w)"
| typing: "window_step w (typeText txt w)"
| reveal: "window_step w (toggleReveal w)"
| close: "window_step w (closeEvent w)"
| timeout: "fw_actionTimer w \<Longrightarrow> window_step w (actionTimeout w)"
| closer: "window_step w (fireCloser i w)"

inductive window_reachable :: "fb_window \<Rightarrow> bool" where
  start: "window_reachable newWindow"
| step: "window_reachable w \<Longrightarrow> window_step w v \<Longrightarrow> window_reachable v"

section \<open>The invariant\<close>

text \<open>What the details area shows.\<close>

definition details_ok :: "fb_window \<Rightarrow> bool" where
  "details_ok w \<longleftrightarrow> (fw_expanded w \<longrightarrow> fw_expandable w)
     \<and> (fw_fullContext w = [] \<longrightarrow> fw_collapsedContext w = [] \<and> \<not> fw_expandable w) \<and>
     fw_contextText w = (if fw_expanded w \<or> \<not> fw_expandable w then fw_fullContext w else fw_collapsedContext w)"

text \<open>A running action belongs to a session and has its timer; the process may only exit when hidden
  and idle; a session is shown and can be cancelled, unless a cancel is under way or the window is
  about to close.\<close>

definition action_ok :: "fb_window \<Rightarrow> bool" where
  "action_ok w \<longleftrightarrow> (fw_actionTimer w \<longleftrightarrow> fw_pending w \<noteq> NoAction) \<and> (fw_pending w \<noteq> NoAction \<longrightarrow> fw_session w \<noteq> [])
     \<and> (fw_submitEnabled w \<longleftrightarrow> \<not> fw_busy w) \<and> (fw_inputEnabled w \<longleftrightarrow> \<not> fw_busy w)"

definition shown_ok :: "fb_window \<Rightarrow> bool" where
  "shown_ok w \<longleftrightarrow> (fw_visible w \<longleftrightarrow> fw_session w \<noteq> []) \<and> (fw_idleTimer w \<longrightarrow> fw_session w = [])
     \<and> (fw_session w = [] \<longrightarrow> fw_input w = [])"

definition cancel_ok :: "fb_window \<Rightarrow> bool" where
  "cancel_ok w \<longleftrightarrow> (fw_session w \<noteq> [] \<longrightarrow>
     fw_cancelEnabled w \<or> fw_pending w = Cancel \<or> CloseAny \<in> set (fw_closers w))"

definition window_ok :: "fb_window \<Rightarrow> bool" where
  "window_ok w \<longleftrightarrow> details_ok w \<and> action_ok w \<and> shown_ok w \<and> cancel_ok w"

lemmas ok_defs = window_ok_def details_ok_def action_ok_def shown_ok_def cancel_ok_def

lemmas small_defs = setBusy_def startPendingAction_def clearPendingAction_def setErrorText_def setStatusText_def
  hideWindow_def startIdleExitTimer_def stopIdleExitTimer_def ask_def Let_def

lemma details_frames [simp]:
  "fw_session (setDetailsText t w) = fw_session w" "fw_source (setDetailsText t w) = fw_source w"
  "fw_context (setDetailsText t w) = fw_context w" "fw_confirmOnly (setDetailsText t w) = fw_confirmOnly w"
  "fw_busy (setDetailsText t w) = fw_busy w" "fw_pending (setDetailsText t w) = fw_pending w"
  "fw_actionTimer (setDetailsText t w) = fw_actionTimer w" "fw_idleTimer (setDetailsText t w) = fw_idleTimer w"
  "fw_visible (setDetailsText t w) = fw_visible w" "fw_input (setDetailsText t w) = fw_input w"
  "fw_submitEnabled (setDetailsText t w) = fw_submitEnabled w" "fw_cancelEnabled (setDetailsText t w) = fw_cancelEnabled w"
  "fw_inputEnabled (setDetailsText t w) = fw_inputEnabled w" "fw_closers (setDetailsText t w) = fw_closers w"
  "fw_requests (setDetailsText t w) = fw_requests w" "fw_title (setDetailsText t w) = fw_title w"
  by (simp_all add: setDetailsText_def setDetailsExpanded_def Let_def)

lemma expanded_frames [simp]:
  "fw_session (setDetailsExpanded b w) = fw_session w" "fw_pending (setDetailsExpanded b w) = fw_pending w"
  "fw_busy (setDetailsExpanded b w) = fw_busy w"
  "fw_actionTimer (setDetailsExpanded b w) = fw_actionTimer w" "fw_idleTimer (setDetailsExpanded b w) = fw_idleTimer w"
  "fw_visible (setDetailsExpanded b w) = fw_visible w" "fw_input (setDetailsExpanded b w) = fw_input w"
  "fw_submitEnabled (setDetailsExpanded b w) = fw_submitEnabled w" "fw_cancelEnabled (setDetailsExpanded b w) = fw_cancelEnabled w"
  "fw_inputEnabled (setDetailsExpanded b w) = fw_inputEnabled w" "fw_closers (setDetailsExpanded b w) = fw_closers w"
  by (simp_all add: setDetailsExpanded_def Let_def)

lemma details_ok_set [simp]: "details_ok (setDetailsText t w)"
  by (simp add: setDetailsText_def setDetailsExpanded_def details_ok_def Let_def)

lemma collapse_empty: "collapseDetailText [] m n = ([], False)"
  by (simp add: collapseDetailText_def normalizeDetailText_def simplified_def)

lemma details_ok_cong:
  assumes "details_ok v" and "fw_expanded w = fw_expanded v" and "fw_expandable w = fw_expandable v"
    and "fw_fullContext w = fw_fullContext v" and "fw_collapsedContext w = fw_collapsedContext v"
    and "fw_contextText w = fw_contextText v"
  shows "details_ok w"
  using assms by (simp add: details_ok_def)

lemma clearSession_session [simp]: "fw_session (clearSession w) = []"
  by (simp add: clearSession_def small_defs)

lemma clear_hide_ok: "window_ok (hideWindow (clearSession w))"
proof -
  have "details_ok (hideWindow (clearSession w))"
    unfolding clearSession_def Let_def
    by (rule details_ok_cong [OF details_ok_set [of "[]" "(clearPendingAction w)\<lparr>fw_session := [], fw_source := [],
          fw_context := [], fw_confirmOnly := False, fw_intent := Generic, fw_allowEmpty := False,
          fw_title := ''Authentication Required'', fw_summary := [], fw_requestor := []\<rparr>"]])
      (simp_all add: small_defs)
  then show ?thesis by (simp add: window_ok_def) (simp add: ok_defs clearSession_def small_defs)
qed

lemma window_ok_cong:
  assumes "window_ok v" and "fw_expanded w = fw_expanded v" and "fw_expandable w = fw_expandable v"
    and "fw_fullContext w = fw_fullContext v" and "fw_collapsedContext w = fw_collapsedContext v"
    and "fw_contextText w = fw_contextText v" and "fw_actionTimer w = fw_actionTimer v" and "fw_pending w = fw_pending v"
    and "fw_session w = fw_session v" and "fw_submitEnabled w = fw_submitEnabled v" and "fw_busy w = fw_busy v"
    and "fw_inputEnabled w = fw_inputEnabled v" and "fw_visible w = fw_visible v" and "fw_idleTimer w = fw_idleTimer v"
    and "fw_input w = fw_input v \<or> fw_input w = []" and "fw_cancelEnabled w = fw_cancelEnabled v"
    and "set (fw_closers v) \<subseteq> set (fw_closers w)"
  shows "window_ok w"
proof -
  have "details_ok w" using assms by (simp add: ok_defs)
  moreover have "action_ok w" using assms by (simp add: ok_defs)
  moreover have "shown_ok w" using assms unfolding ok_defs by metis
  moreover have "cancel_ok w" using assms unfolding ok_defs by (metis subsetD)
  ultimately show ?thesis by (simp add: window_ok_def)
qed

lemma startIdle_ok:
  assumes "window_ok w" shows "window_ok (startIdleExitTimer w)"
proof -
  have "details_ok (startIdleExitTimer w)" "action_ok (startIdleExitTimer w)" "shown_ok (startIdleExitTimer w)"
    "cancel_ok (startIdleExitTimer w)"
    using assms by (auto simp: ok_defs startIdleExitTimer_def)
  then show ?thesis by (simp add: window_ok_def)
qed

lemma dismiss_ok: "window_ok (dismiss w)"
  unfolding dismiss_def by (intro startIdle_ok clear_hide_ok)

lemma hide_idle_ok:
  assumes "window_ok w" and "fw_session w = []" shows "window_ok (startIdleExitTimer (hideWindow w))"
  by (rule startIdle_ok) (use assms in \<open>simp add: ok_defs hideWindow_def\<close>)

lemma window_ok_texts:
  assumes "window_ok w"
  shows "window_ok (setErrorText t w)" "window_ok (setStatusText t w)" "window_ok (ask r w)"
    "window_ok (w\<lparr>fw_submitText := t\<rparr>)" "window_ok (w\<lparr>fw_revealed := b\<rparr>)"
  by (rule window_ok_cong [OF assms]; simp add: small_defs)+

lemma window_ok_busy:
  assumes "window_ok w" shows "window_ok (setBusy b w)"
proof -
  have "details_ok (setBusy b w)" "action_ok (setBusy b w)" "shown_ok (setBusy b w)" "cancel_ok (setBusy b w)"
    using assms by (auto simp: ok_defs setBusy_def Let_def)
  then show ?thesis by (simp add: window_ok_def)
qed

lemma window_ok_start:
  assumes "window_ok w" and "fw_session w \<noteq> []" and "act \<noteq> NoAction"
  shows "window_ok (setBusy b (startPendingAction act w))"
proof -
  let ?v = "setBusy b (startPendingAction act w)"
  have "details_ok ?v" "action_ok ?v" "shown_ok ?v" "cancel_ok ?v"
    using assms by (auto simp: ok_defs setBusy_def startPendingAction_def Let_def)
  then show ?thesis by (simp add: window_ok_def)
qed

text \<open>Ending an action leaves the cancel button as it was, so it needs one of its other reasons.\<close>

lemma window_ok_clear:
  assumes "window_ok w"
  shows "window_ok (setBusy b (clearPendingAction w))"
    and "window_ok ((clearPendingAction w)\<lparr>fw_closers := fw_closers w @ [CloseAny]\<rparr>)"
proof -
  let ?v = "setBusy b (clearPendingAction w)" and ?u = "(clearPendingAction w)\<lparr>fw_closers := fw_closers w @ [CloseAny]\<rparr>"
  have "details_ok ?v" "action_ok ?v" "shown_ok ?v" "cancel_ok ?v" "details_ok ?u" "action_ok ?u" "shown_ok ?u" "cancel_ok ?u"
    using assms by (auto simp: ok_defs setBusy_def clearPendingAction_def Let_def)
  then show "window_ok ?v" "window_ok ?u" by (simp_all add: window_ok_def)
qed

lemma window_ok_cancel:
  assumes "window_ok w" shows "window_ok (handleCancelRequest isConn w)"
proof -
  consider "fw_session w = []" | "fw_session w \<noteq> []" "fw_busy w \<and> fw_pending w = Cancel"
    | "fw_session w \<noteq> []" "\<not> (fw_busy w \<and> fw_pending w = Cancel)" "fw_busy w \<and> \<not> isConn"
    | "fw_session w \<noteq> []" "\<not> (fw_busy w \<and> fw_pending w = Cancel)" "\<not> (fw_busy w \<and> \<not> isConn)" by blast
  then show ?thesis
  proof cases
    case 4
    have "window_ok (setBusy True (startPendingAction Cancel w))"
      by (rule window_ok_start [OF assms 4(1)]) simp
    then show ?thesis
      by (rule window_ok_cong) (use 4 in \<open>auto simp: handleCancelRequest_def small_defs\<close>)
  qed (use assms in \<open>simp_all add: handleCancelRequest_def hide_idle_ok dismiss_ok\<close>)
qed

lemma window_ok_submit:
  assumes "window_ok w" shows "window_ok (submitClicked w)"
proof (cases "fw_session w = [] \<or> (\<not> fw_confirmOnly w \<and> \<not> fw_allowEmpty w \<and> fw_input w = [])")
  case True
  then show ?thesis using assms by (auto simp: submitClicked_def intro: window_ok_texts)
next
  case False
  have "window_ok (setBusy True (startPendingAction Submit w))"
    by (rule window_ok_start) (use assms False in simp_all)
  then show ?thesis
    by (rule window_ok_cong) (use False in \<open>auto simp: submitClicked_def small_defs\<close>)
qed

lemma window_ok_timeout:
  assumes "window_ok w" and "fw_actionTimer w" shows "window_ok (actionTimeout w)"
proof -
  have p: "fw_session w \<noteq> []" "fw_pending w \<noteq> NoAction" using assms by (auto simp: ok_defs)
  have "window_ok (setBusy False (clearPendingAction w))" by (rule window_ok_clear(1) [OF assms(1)])
  moreover have "clearPendingAction (w\<lparr>fw_actionTimer := False\<rparr>) = clearPendingAction w" by (simp add: clearPendingAction_def)
  ultimately show ?thesis using p by (simp add: actionTimeout_def Let_def window_ok_texts)
qed

lemma window_ok_created:
  assumes "window_ok w" shows "window_ok (onSessionCreated event w)"
proof (cases "toStr (jvalue event ''id'') = []")
  case True then show ?thesis using assms by (simp add: onSessionCreated_def)
next
  case False
  let ?v = "onSessionCreated event w"
  have "details_ok ?v"
    using False unfolding onSessionCreated_def Let_def
    by (simp only: if_False) (rule details_ok_cong [OF details_ok_set], simp_all add: small_defs)
  moreover have "action_ok ?v" "shown_ok ?v" "cancel_ok ?v"
    using False by (simp_all add: ok_defs onSessionCreated_def small_defs)
  ultimately show ?thesis by (simp add: window_ok_def)
qed

lemma window_ok_closed:
  assumes "window_ok w" shows "window_ok (onSessionClosed event w)"
proof -
  let ?id = "toStr (jvalue event ''id'')" and ?r = "toStr (jvalue event ''result'')" and ?e = "toStr (jvalue event ''error'')"
  consider "?id = [] \<or> ?id \<noteq> fw_session w" | "\<not> (?id = [] \<or> ?id \<noteq> fw_session w)" "?r = ''success''"
    | "\<not> (?id = [] \<or> ?id \<noteq> fw_session w)" "?r \<noteq> ''success''" "?r = ''cancelled'' \<or> ?r = ''canceled''"
    | "\<not> (?id = [] \<or> ?id \<noteq> fw_session w)" "?r \<noteq> ''success''" "\<not> (?r = ''cancelled'' \<or> ?r = ''canceled'')" by blast
  then show ?thesis
  proof cases
    case 2
    have "window_ok ((clearPendingAction w)\<lparr>fw_closers := fw_closers w @ [CloseAny]\<rparr>)" by (rule window_ok_clear(2) [OF assms])
    then show ?thesis by (rule window_ok_cong) (use 2 in \<open>auto simp: onSessionClosed_def small_defs\<close>)
  next
    case 4
    have "window_ok (setBusy False (clearPendingAction w))" by (rule window_ok_clear(1) [OF assms])
    then show ?thesis by (rule window_ok_cong) (use 4 in \<open>auto simp: onSessionClosed_def small_defs\<close>)
  qed (use assms dismiss_ok in \<open>simp_all add: onSessionClosed_def Let_def\<close>)
qed

lemma window_ok_updated:
  assumes "window_ok w" shows "window_ok (onSessionUpdated event w)"
proof (cases "toStr (jvalue event ''id'') = [] \<or> toStr (jvalue event ''id'') \<noteq> fw_session w")
  case True then show ?thesis using assms by (auto simp: onSessionUpdated_def)
next
  case False
  have "window_ok (setBusy False (clearPendingAction w))" by (rule window_ok_clear(1) [OF assms])
  then show ?thesis
    by (rule window_ok_cong) (use False in \<open>auto simp: onSessionUpdated_def updateStatus_def small_defs\<close>)
qed

lemma window_ok_provider:
  assumes "window_ok w" shows "window_ok (onProviderState active w)"
  using assms clear_hide_ok [of w] hide_idle_ok [OF assms]
  by (auto simp: onProviderState_def Let_def intro!: window_ok_texts window_ok_busy startIdle_ok)

lemma window_ok_signal:
  assumes "window_ok w" shows "window_ok (onSignal s w)"
  using assms
  by (cases s)
    (auto simp: onSignal_def onConnectionState_def intro: window_ok_texts window_ok_busy window_ok_provider window_ok_created
      window_ok_updated window_ok_closed)

lemma window_ok_closer:
  assumes "window_ok w" shows "window_ok (fireCloser i w)"
proof (cases "i < length (fw_closers w)")
  case True
  let ?w = "w\<lparr>fw_closers := take i (fw_closers w) @ drop (Suc i) (fw_closers w)\<rparr>"
  show ?thesis
  proof (cases "fw_closers w ! i")
    case CloseAny
    then show ?thesis using True by (simp add: fireCloser_def runCloser_def dismiss_ok)
  next
    case (CloseIf sid)
    have "set (fw_closers w) = insert (CloseIf sid) (set (take i (fw_closers w) @ drop (Suc i) (fw_closers w)))"
      using id_take_nth_drop [OF True] CloseIf
      by (metis Un_insert_right list.simps(15) set_append)
    then have k: "CloseAny \<in> set (take i (fw_closers w) @ drop (Suc i) (fw_closers w))" if "CloseAny \<in> set (fw_closers w)"
      using that by auto
    have "details_ok ?w" "action_ok ?w" "shown_ok ?w" using assms by (auto simp: ok_defs)
    moreover have "cancel_ok ?w" using assms k by (auto simp: window_ok_def cancel_ok_def)
    ultimately have "window_ok ?w" by (simp add: window_ok_def)
    then show ?thesis using True CloseIf dismiss_ok [of ?w] by (simp add: fireCloser_def runCloser_def)
  qed
qed (use assms in \<open>simp add: fireCloser_def\<close>)

lemma window_ok_step:
  assumes "window_ok w" and "window_step w v" shows "window_ok v"
  using assms(2)
proof (cases rule: window_step.cases)
  case details
  have "details_ok (setDetailsExpanded b w)" for b
    using assms(1) unfolding window_ok_def by (auto simp: details_ok_def setDetailsExpanded_def Let_def)
  moreover have "action_ok (setDetailsExpanded b w)" "shown_ok (setDetailsExpanded b w)" "cancel_ok (setDetailsExpanded b w)" for b
    using assms(1) by (auto simp: ok_defs)
  ultimately show ?thesis using details assms(1) by (auto simp: clickDetails_def window_ok_def)
next
  case (typing t)
  have "window_ok (w\<lparr>fw_input := t\<rparr>)" if "fw_visible w"
    using assms(1) that unfolding window_ok_def by (auto simp: ok_defs)
  then show ?thesis using typing assms(1) by (simp add: typeText_def)
next
  case reveal
  then show ?thesis using assms(1) by (simp add: toggleReveal_def window_ok_texts)
next
  case close
  have "window_ok (hideWindow w)" if "fw_session w = []"
    using assms(1) that unfolding window_ok_def by (auto simp: ok_defs hideWindow_def)
  then show ?thesis using close clear_hide_ok by (simp add: closeEvent_def)
qed (use assms(1) in \<open>simp_all add: window_ok_signal clickSubmit_def clickCancel_def window_ok_submit window_ok_cancel
    window_ok_timeout window_ok_closer\<close>)

lemma reachable_window_ok: "window_reachable w \<Longrightarrow> window_ok w"
proof (induction rule: window_reachable.induct)
  case start
  show ?case by (simp add: ok_defs newWindow_def)
qed (rule window_ok_step)

text \<open>C11: in every reachable state of the window, whatever the user and the daemon do: a request shown is
  visible and can be cancelled, unless its cancellation is under way or the window is about to
  close; a submitted or cancelled action has its timeout running; submit is enabled exactly when the
  window is not busy; text is only kept in the input while a request is shown; and the process only
  counts down to its exit when it shows none.\<close>

theorem window_never_traps:
  assumes "window_reachable w"
  shows "fw_visible w = (fw_session w \<noteq> [])
    \<and> (fw_session w = [] \<or> fw_cancelEnabled w \<or> fw_pending w = Cancel \<or> CloseAny \<in> set (fw_closers w))
    \<and> (fw_actionTimer w = (fw_pending w \<noteq> NoAction)) \<and> (fw_submitEnabled w = (\<not> fw_busy w))
    \<and> (fw_session w \<noteq> [] \<or> fw_input w = []) \<and> (fw_session w = [] \<or> \<not> fw_idleTimer w)"
  using reachable_window_ok [OF assms] unfolding ok_defs by blast

text \<open>A window that shows a password prompt into which something was typed.\<close>

definition shownWindow :: "string \<Rightarrow> fb_window" where
  "shownWindow sid = onSignal (SessionCreated [(''id'', JStr sid), (''source'', JStr ''polkit'')]) newWindow"

definition typedWindow :: fb_window where
  "typedWindow = typeText ''pw'' (shownWindow ''a'')"

lemma shownWindow_facts:
  assumes "sid \<noteq> []"
  shows "fw_session (shownWindow sid) = sid" "fw_visible (shownWindow sid)" "\<not> fw_busy (shownWindow sid)"
    "fw_submitEnabled (shownWindow sid)" "fw_inputEnabled (shownWindow sid)" "\<not> fw_confirmOnly (shownWindow sid)"
    "fw_requests (shownWindow sid) = []" "fw_closers (shownWindow sid) = []" "fw_cancelEnabled (shownWindow sid)"
    "window_reachable (shownWindow sid)"
proof -
  show "window_reachable (shownWindow sid)"
    unfolding shownWindow_def by (rule window_reachable.step [OF window_reachable.start window_step.signal])
qed (use assms in \<open>simp_all add: shownWindow_def onSignal_def onSessionCreated_def small_defs newWindow_def\<close>)

lemma typedWindow_facts:
  "fw_session typedWindow = ''a''" "fw_input typedWindow = ''pw''" "fw_submitEnabled typedWindow"
  "\<not> fw_confirmOnly typedWindow" "fw_requests typedWindow = []" "window_reachable typedWindow"
proof -
  show "window_reachable typedWindow"
    unfolding typedWindow_def
    by (rule window_reachable.step [OF shownWindow_facts(10) window_step.typing]) simp
qed (simp_all add: typedWindow_def typeText_def shownWindow_facts)

lemma window_never_traps_witness:
  "window_reachable (clickSubmit typedWindow) \<and> fw_visible (clickSubmit typedWindow)
   \<and> fw_cancelEnabled (clickSubmit typedWindow) \<and> fw_actionTimer (clickSubmit typedWindow)"
proof -
  have r: "window_reachable (clickSubmit typedWindow)"
    by (rule window_reachable.step [OF typedWindow_facts(6) window_step.submit])
  show ?thesis
    using window_never_traps [OF r] r typedWindow_facts by (simp add: clickSubmit_def submitClicked_def small_defs)
qed

end
