(* ===== verification/Fallback_Properties.thy ===== *)
theory Fallback_Properties
  imports Fallback_Window
begin

text \<open>
  What the fallback window does with sessions, with the text typed into it and with long details:
  the properties of \<^verbatim>\<open>fallback/FallbackWindow.cpp\<close> beyond its invariant.
\<close>

section \<open>Collapsed details\<close>

text \<open>The characters of a list of lines, line ends not counted.\<close>

definition charsOf :: "string list \<Rightarrow> nat" where
  "charsOf ls = sum_list (map length ls)"

lemma charsOf_simps [simp]:
  "charsOf [] = 0" "charsOf (l # ls) = length l + charsOf ls" "charsOf (ls @ ms) = charsOf ls + charsOf ms"
  by (simp_all add: charsOf_def)

lemma joinWith_length: "length (joinWith [c] ls) = charsOf ls + (length ls - 1)"
  by (induction "[c]" ls rule: joinWith.induct) auto

lemma splitOn_length: "length (splitOn c s) = Suc (count_list s c)"
proof (induction s)
  case (Cons x s)
  then show ?case by (cases "splitOn c s") auto
qed simp

lemma joinWith_count: "(\<And>w. w \<in> set ws \<Longrightarrow> c \<notin> set w) \<Longrightarrow> count_list (joinWith [c] ws) c = length ws - 1"
  by (induction "[c]" ws rule: joinWith.induct) (auto simp: count_list_0_iff)

lemma trimmed_set: "set (trimmed s) \<subseteq> set s"
  by (auto simp: trimmed_def dest!: set_dropWhileD)

lemma trimmed_length: "length (trimmed s) \<le> length s"
  using length_dropWhile_le [of isSpace "rev (dropWhile isSpace s)"] length_dropWhile_le [of isSpace s]
  by (simp add: trimmed_def)

lemma collapseLoop_bounds:
  assumes "collapseLoop maxLines maxChars ls acc (int (charsOf acc)) = (out, cutOff)" and "length acc \<le> maxLines"
    and "int (charsOf acc) \<le> maxChars" and "\<forall>l\<in>set acc \<union> set ls. c \<notin> set l"
  shows "length out \<le> maxLines \<and> int (charsOf out) \<le> maxChars \<and> (\<not> cutOff \<longrightarrow> out = acc @ ls) \<and> (\<forall>l\<in>set out. c \<notin> set l)"
  using assms
proof (induction ls arbitrary: acc)
  case (Cons line ls)
  let ?rest = "maxChars - int (charsOf acc)"
  let ?clip = "trimmed (leftStr ?rest line)"
  have clip: "int (length ?clip) \<le> ?rest" "set ?clip \<subseteq> set line"
    using Cons.prems(3) trimmed_length [of "leftStr ?rest line"] trimmed_set [of "leftStr ?rest line"]
      set_take_subset [of "nat ?rest" line]
    by (auto simp: leftStr_def)
  consider "\<not> length acc < maxLines" | "length acc < maxLines" "maxChars < int (charsOf acc) + int (length line)"
    | "length acc < maxLines" "int (charsOf acc) + int (length line) \<le> maxChars" by linarith
  then show ?case
  proof cases
    case 2
    then have "out = (if ?rest > 0 \<and> ?clip \<noteq> [] then acc @ [?clip] else acc)" "cutOff"
      using Cons.prems(1,3) by (auto simp: Let_def split: if_splits)
    then show ?thesis using 2 clip Cons.prems by auto
  next
    case 3
    then show ?thesis using Cons.IH [of "acc @ [line]"] Cons.prems by simp
  qed (use Cons.prems in auto)
qed auto

text \<open>The collapsed form of a text never has more lines than allowed, and apart from line ends and
  the closing dots no more characters; and a text that is not reported as truncated is shown whole.\<close>

theorem collapse_bounds:
  assumes "0 < maxLines" and "0 \<le> maxChars"
  shows "length (splitOn nl (fst (collapseDetailText text maxLines maxChars))) \<le> maxLines
    \<and> int (length (fst (collapseDetailText text maxLines maxChars))) \<le> maxChars + int maxLines + 2
    \<and> (snd (collapseDetailText text maxLines maxChars)
       \<or> fst (collapseDetailText text maxLines maxChars) = normalizeDetailText text)"
proof (cases "normalizeDetailText text = []")
  case True
  then show ?thesis using assms by (simp add: collapseDetailText_def)
next
  case False
  let ?lines = "splitOn nl (normalizeDetailText text)"
  obtain out cutOff where loop: "collapseLoop maxLines maxChars ?lines [] 0 = (out, cutOff)" by fastforce
  have l: "length out \<le> maxLines \<and> int (charsOf out) \<le> maxChars \<and> (\<not> cutOff \<longrightarrow> out = [] @ ?lines) \<and> (\<forall>l\<in>set out. nl \<notin> set l)"
    by (rule collapseLoop_bounds) (use loop assms in \<open>auto dest: splitOn_parts\<close>)
  then have b: "length out \<le> maxLines" "int (charsOf out) \<le> maxChars" "\<not> cutOff \<Longrightarrow> out = ?lines"
    and nonl: "\<And>l. l \<in> set out \<Longrightarrow> nl \<notin> set l" by auto
  have "length (splitOn nl (joinWith [nl] out)) \<le> maxLines" "length (splitOn nl (joinWith [nl] out @ ''...'')) \<le> maxLines"
    using b(1) assms(1) joinWith_count [OF nonl] by (simp_all add: splitOn_length nl_def)
  moreover have "int (length (joinWith [nl] out)) \<le> maxChars + int maxLines - 1"
    using b assms(1) by (simp add: joinWith_length)
  moreover have "cutOff \<or> joinWith [nl] out = normalizeDetailText text"
    using b(3) by (cases cutOff) (simp_all add: joinWith_splitOn)
  ultimately show ?thesis
    using False loop by (auto simp: collapseDetailText_def Let_def)
qed

lemma collapse_bounds_witness:
  "collapseDetailText ''one long line'' 3 5 = (''one l...'', True)
   \<and> length (splitOn nl (fst (collapseDetailText ''one long line'' 3 5))) \<le> 3"
proof -
  have "collapseDetailText ''one long line'' 3 5 = (''one l...'', True)" by code_simp
  then show ?thesis using collapse_bounds [of 3 5 "''one long line''"] by simp
qed

section \<open>What is sent\<close>

text \<open>A request is for the session shown; a password is the one in the input, and only sent by the
  submit button.\<close>

definition request_ok :: "fb_window \<Rightarrow> ui_request \<Rightarrow> bool" where
  "request_ok w r \<longleftrightarrow> fw_session w \<noteq> [] \<and>
     (r = UiCancel (fw_session w)
      \<or> fw_submitEnabled w \<and> r = UiRespond (fw_session w) (if fw_confirmOnly w then ''confirm'' else fw_input w))"

definition sends_ok :: "fb_window \<Rightarrow> fb_window \<Rightarrow> bool" where
  "sends_ok w v \<longleftrightarrow> fw_requests v = fw_requests w \<or> (\<exists>r. request_ok w r \<and> fw_requests v = fw_requests w @ [r])"

text \<open>The input is only emptied, except by typing; and it is empty after the session has changed.\<close>

definition input_ok :: "fb_window \<Rightarrow> fb_window \<Rightarrow> bool" where
  "input_ok w v \<longleftrightarrow> fw_input v = [] \<or> fw_session v = fw_session w \<and> fw_source v = fw_source w"

lemmas step_defs = sends_ok_def input_ok_def

lemma frames_dismiss [simp]:
  "fw_requests (dismiss w) = fw_requests w" "fw_input (dismiss w) = []" "fw_session (dismiss w) = []"
  "fw_requests (clearSession w) = fw_requests w" "fw_input (clearSession w) = []"
  by (simp_all add: dismiss_def clearSession_def small_defs)

lemma signal_sends: "fw_requests (onSignal s w) = fw_requests w"
  by (cases s)
    (auto simp: onSignal_def onConnectionState_def onProviderState_def onSessionCreated_def onSessionUpdated_def
      onSessionClosed_def updateStatus_def small_defs dismiss_def clearSession_def)

lemma source_setDetails [simp]:
  "fw_source (setDetailsExpanded b w) = fw_source w" "fw_requests (setDetailsExpanded b w) = fw_requests w"
  by (simp_all add: setDetailsExpanded_def Let_def)

lemma signal_input:
  assumes "window_ok w" shows "input_ok w (onSignal s w)"
  by (cases s)
    (auto simp: input_ok_def onSignal_def onConnectionState_def onProviderState_def onSessionCreated_def onSessionUpdated_def
      onSessionClosed_def updateStatus_def small_defs)

lemma cancel_step: "sends_ok w (handleCancelRequest isConn w)" "input_ok w (handleCancelRequest isConn w)"
  by (auto simp: step_defs request_ok_def handleCancelRequest_def small_defs)

lemma submit_step: "sends_ok w (clickSubmit w)" "input_ok w (clickSubmit w)"
  by (auto simp: step_defs request_ok_def clickSubmit_def submitClicked_def small_defs)

lemma closer_step: "sends_ok w (fireCloser i w)" "input_ok w (fireCloser i w)"
  by (auto simp: step_defs fireCloser_def runCloser_def split: closer.split)

lemma window_step_ok:
  assumes "window_step w v"
  shows "sends_ok w v" and "window_ok w \<Longrightarrow> input_ok w v"
proof -
  have "sends_ok w v \<and> (window_ok w \<longrightarrow> input_ok w v)"
    using assms
  proof (cases rule: window_step.cases)
    case (signal s)
    then show ?thesis using signal_sends [of s w] signal_input [of w s] by (simp add: sends_ok_def)
  next
    case (cancel isConn)
    then show ?thesis using cancel_step [of w isConn] by (auto simp: clickCancel_def step_defs)
  next
    case close
    then show ?thesis by (auto simp: closeEvent_def step_defs request_ok_def hideWindow_def ask_def)
  next
    case timeout
    then show ?thesis by (auto simp: actionTimeout_def step_defs small_defs)
  next
    case (typing t)
    then show ?thesis by (auto simp: typeText_def step_defs)
  qed (auto simp: cancel_step submit_step closer_step, auto simp: clickDetails_def toggleReveal_def step_defs)
  then show "sends_ok w v" "window_ok w \<Longrightarrow> input_ok w v" by blast+
qed

text \<open>Whatever happens in the window, at most one request leaves it per step, and that is for the
  session then shown: its cancellation, or the very text of its input (for a confirmation the word
  confirm) when submit was enabled.  Text survives in the input only while the same session is
  shown, so what was typed for one request is never sent for another.\<close>

theorem password_stays_with_its_session:
  assumes "window_reachable w" and "window_step w v"
  shows "sends_ok w v \<and> (fw_input v = [] \<or> fw_session v = fw_session w)"
  using window_step_ok [OF assms(2)] reachable_window_ok [OF assms(1)] unfolding input_ok_def by blast

lemma password_stays_with_its_session_witness:
  "window_reachable typedWindow \<and> window_step typedWindow (clickSubmit typedWindow)
   \<and> fw_requests (clickSubmit typedWindow) = [UiRespond ''a'' ''pw''] \<and> fw_input (clickSubmit typedWindow) = []
   \<and> sends_ok typedWindow (clickSubmit typedWindow)"
proof -
  have s: "window_step typedWindow (clickSubmit typedWindow)" by (rule window_step.submit)
  have "sends_ok typedWindow (clickSubmit typedWindow)"
    using password_stays_with_its_session [OF typedWindow_facts(6) s] by blast
  then show ?thesis
    using s typedWindow_facts by (simp add: clickSubmit_def submitClicked_def small_defs)
qed

section \<open>Submitting\<close>

text \<open>A submit with a text sends it once, empties the input, starts the timeout and disables the
  button until the daemon reports again: clicking a second time changes nothing, and even if no
  report ever comes the timeout gives the prompt back for a retry, with the session kept.\<close>

theorem submit_once_then_retry:
  assumes "fw_session w \<noteq> []" and "fw_submitEnabled w" and "\<not> fw_confirmOnly w" and "fw_input w \<noteq> []"
  shows "fw_requests (clickSubmit w) = fw_requests w @ [UiRespond (fw_session w) (fw_input w)]
    \<and> fw_input (clickSubmit w) = [] \<and> fw_actionTimer (clickSubmit w)
    \<and> clickSubmit (clickSubmit w) = clickSubmit w
    \<and> fw_session (actionTimeout (clickSubmit w)) = fw_session w
    \<and> fw_submitEnabled (actionTimeout (clickSubmit w)) \<and> fw_cancelEnabled (actionTimeout (clickSubmit w))
    \<and> fw_submitText (actionTimeout (clickSubmit w)) = ''Retry''
    \<and> fw_requests (actionTimeout (clickSubmit w)) = fw_requests (clickSubmit w)"
  using assms by (simp add: clickSubmit_def submitClicked_def actionTimeout_def small_defs)

lemma submit_once_then_retry_witness:
  "fw_requests (clickSubmit typedWindow) = [UiRespond ''a'' ''pw'']
   \<and> fw_submitText (actionTimeout (clickSubmit typedWindow)) = ''Retry''"
  using submit_once_then_retry [of typedWindow] typedWindow_facts by simp

section \<open>The end of a session\<close>

text \<open>A session ends with a result, and before the message has been shown for its time the next request
  arrives.\<close>

definition closedEvent :: "string \<Rightarrow> string \<Rightarrow> jobject" where
  "closedEvent sid result = [(''id'', JStr sid), (''result'', JStr result)]"

definition endThenNext :: "string \<Rightarrow> jobject \<Rightarrow> fb_window \<Rightarrow> fb_window" where
  "endThenNext result event w = onSignal (SessionCreated event) (onSignal (SessionClosed (closedEvent (fw_session w) result)) w)"

lemma created_session:
  "toStr (jvalue event ''id'') \<noteq> [] \<Longrightarrow>
   fw_session (onSignal (SessionCreated event) w) = toStr (jvalue event ''id'') \<and> fw_visible (onSignal (SessionCreated event) w)
   \<and> fw_closers (onSignal (SessionCreated event) w) = fw_closers w \<and> fw_requests (onSignal (SessionCreated event) w) = fw_requests w"
  by (simp add: onSignal_def onSessionCreated_def small_defs)

lemma closed_closers:
  "fw_session w \<noteq> [] \<Longrightarrow> result \<notin> {''cancelled'', ''canceled''} \<Longrightarrow>
   fw_closers (onSignal (SessionClosed (closedEvent (fw_session w) result)) w)
     = fw_closers w @ [if result = ''success'' then CloseAny else CloseIf (fw_session w)]"
  by (auto simp: onSignal_def onSessionClosed_def closedEvent_def small_defs)

text \<open>C28: the delayed close after a failed session is bound to that session and spares the next request;
  the one after a successful session is not, and takes down whatever is shown when it fires: a
  request that arrived in the meantime disappears with nothing sent for it.\<close>

theorem delayed_close_hits_next_request:
  assumes "fw_session w \<noteq> []" and "toStr (jvalue event ''id'') \<noteq> []" and "toStr (jvalue event ''id'') \<noteq> fw_session w"
    and "result \<notin> {''cancelled'', ''canceled''}"
  defines "v \<equiv> endThenNext result event w"
  defines "u \<equiv> fireCloser (length (fw_closers w)) v"
  shows "fw_session v = toStr (jvalue event ''id'') \<and> fw_visible v
    \<and> (if result = ''success'' then fw_session u = [] \<and> \<not> fw_visible u else fw_session u = fw_session v \<and> fw_visible u)
    \<and> fw_requests u = fw_requests w"
proof -
  let ?c = "onSignal (SessionClosed (closedEvent (fw_session w) result)) w"
  have v: "fw_session v = toStr (jvalue event ''id'')" "fw_visible v" "fw_closers v = fw_closers ?c" "fw_requests v = fw_requests w"
    using created_session [OF assms(2)] by (simp_all add: v_def endThenNext_def signal_sends)
  have "fw_closers v = fw_closers w @ [if result = ''success'' then CloseAny else CloseIf (fw_session w)]"
    using closed_closers [OF assms(1,4)] v(3) by simp
  then have "u = runCloser (if result = ''success'' then CloseAny else CloseIf (fw_session w)) (v\<lparr>fw_closers := fw_closers w\<rparr>)"
    by (simp add: u_def fireCloser_def)
  then show ?thesis
    using v assms(3) by (auto simp: runCloser_def dismiss_def hideWindow_def startIdleExitTimer_def)
qed

lemma delayed_close_hits_next_request_witness:
  "fw_session (endThenNext ''success'' [(''id'', JStr ''b'')] (shownWindow ''a'')) = ''b''
   \<and> fw_session (fireCloser 0 (endThenNext ''success'' [(''id'', JStr ''b'')] (shownWindow ''a''))) = []
   \<and> fw_requests (fireCloser 0 (endThenNext ''success'' [(''id'', JStr ''b'')] (shownWindow ''a''))) = []"
  using delayed_close_hits_next_request [of "shownWindow ''a''" "[(''id'', JStr ''b'')]" "''success''"]
    shownWindow_facts [of "''a''"]
  by simp

end
