(* ===== verification/Fallback_App.thy ===== *)
theory Fallback_App
  imports Fallback_Properties
begin

text \<open>
  The fallback UI as one program: the client and the window of \<^verbatim>\<open>fallback/main.cpp\<close>,
  connected by the client's signals and by the window's calls to \<^verbatim>\<open>sendResponse\<close> and
  \<^verbatim>\<open>sendCancel\<close>.  The slots of the window never call the client back (\<open>signal_sends\<close>), so
  running them when the client's slot has ended is the same as running each at its signal.
\<close>

section \<open>Composition\<close>

record fb_app =
  app_client :: fb_client
  app_window :: fb_window

definition viaClient :: "(fb_client \<Rightarrow> fb_client) \<Rightarrow> fb_app \<Rightarrow> fb_app" where
  "viaClient f a =
     (let c = f ((app_client a)\<lparr>fc_signals := []\<rparr>)
      in \<lparr>app_client = c, app_window = fold onSignal (fc_signals c) (app_window a)\<rparr>)"

definition performRequest :: "ui_request \<Rightarrow> fb_client \<Rightarrow> fb_client" where
  "performRequest r c = (case r of UiRespond sid response \<Rightarrow> sendResponse sid response c | UiCancel sid \<Rightarrow> sendCancel sid c)"

text \<open>What happens at the window: the user's actions and its timers.\<close>

datatype ui_input = InSubmit | InCancel | InShortcut | InDetails | InType string | InReveal | InClose | InTimeout | InCloser nat

definition performInput :: "bool \<Rightarrow> ui_input \<Rightarrow> fb_window \<Rightarrow> fb_window" where
  "performInput isConn x w =
     (case x of
        InSubmit \<Rightarrow> clickSubmit w
      | InCancel \<Rightarrow> clickCancel isConn w
      | InShortcut \<Rightarrow> handleCancelRequest isConn w
      | InDetails \<Rightarrow> clickDetails w
      | InType t \<Rightarrow> typeText t w
      | InReveal \<Rightarrow> toggleReveal w
      | InClose \<Rightarrow> closeEvent w
      | InTimeout \<Rightarrow> if fw_actionTimer w then actionTimeout w else w
      | InCloser i \<Rightarrow> fireCloser i w)"

definition viaWindow :: "ui_input \<Rightarrow> fb_app \<Rightarrow> fb_app" where
  "viaWindow x a =
     (let w = performInput (isConnected (app_client a)) x ((app_window a)\<lparr>fw_requests := []\<rparr>)
      in \<lparr>app_client = fold performRequest (fw_requests w) (app_client a), app_window = w\<rparr>)"

definition fallbackMain :: fb_app where
  "fallbackMain = viaClient clientStart \<lparr>app_client = newClient, app_window = newWindow\<rparr>"

definition isSessionEvent :: "jobject \<Rightarrow> bool" where
  "isSessionEvent msg \<longleftrightarrow> toStr (jvalue msg ''type'') \<in> {''session.created'', ''session.updated'', ''session.closed''}"

text \<open>The steps of the program.  Of the daemon it is assumed that it reports sessions only to a registered
  client: it answers the registration, which the client sends first, before the subscription.\<close>

inductive app_step :: "fb_app \<Rightarrow> fb_app \<Rightarrow> bool" where
  connected: "app_step a (viaClient onConnected a)"
| lost: "app_step a (viaClient onClientLost a)"
| message: "\<not> isSessionEvent msg \<or> fc_registered (app_client a) \<Longrightarrow> app_step a (viaClient (clientMessage msg) a)"
| garbage: "app_step a (viaClient (fcEmit (StatusMessage ''Invalid daemon payload'')) a)"
| socketError: "app_step a (viaClient (onSocketError st) a)"
| reconnect: "app_step a (viaClient onReconnectTimer a)"
| watchdog: "app_step a (viaClient onWatchdog a)"
| heartbeat: "app_step a (viaClient onHeartbeatTimer a)"
| window: "app_step a (viaWindow x a)"

inductive app_reachable :: "fb_app \<Rightarrow> bool" where
  start: "app_reachable fallbackMain"
| step: "app_reachable a \<Longrightarrow> app_step a b \<Longrightarrow> app_reachable b"

section \<open>A prompt is only shown by the active provider\<close>

text \<open>The window as the client's slot has left it so far.\<close>

definition windowAfter :: "fb_window \<Rightarrow> fb_client \<Rightarrow> fb_window" where
  "windowAfter w c = fold onSignal (fc_signals c) w"

definition shown_active :: "fb_window \<Rightarrow> fb_client \<Rightarrow> bool" where
  "shown_active w c \<longleftrightarrow> fc_providerActive c \<or> fw_session (windowAfter w c) = []"

lemma windowAfter_emit [simp]: "windowAfter w (fcEmit s c) = onSignal s (windowAfter w c)"
  by (simp add: windowAfter_def)

lemma quiet_signals [simp]:
  "fw_session (onSignal (StatusMessage t) w) = fw_session w" "fw_session (onSignal (ConnectionState b) w) = fw_session w"
  "fw_session (onSignal (ProviderState False) w) = []"
  by (auto simp: onSignal_def onConnectionState_def onProviderState_def small_defs)

lemma shown_cong:
  "shown_active w c \<Longrightarrow> fc_providerActive d = fc_providerActive c \<Longrightarrow> fc_signals d = fc_signals c \<Longrightarrow> shown_active w d"
  by (simp add: shown_active_def windowAfter_def)

lemma shown_socket: "shown_active w c \<Longrightarrow> shown_active w (c\<lparr>fc_socket := st\<rparr>)"
  by (erule shown_cong) simp_all

lemma shown_send [simp]: "shown_active w (fcSend j c) = shown_active w c"
  by (simp add: shown_active_def windowAfter_def)

lemma shown_emit [simp]:
  "shown_active w (fcEmit (StatusMessage t) c) = shown_active w c" "shown_active w (fcEmit (ConnectionState b) c) = shown_active w c"
  by (simp_all add: shown_active_def)

lemma shown_setActive: "shown_active w c \<Longrightarrow> shown_active w (setProviderActive b c)"
proof -
  assume s: "shown_active w c"
  have "shown_active w (fcEmit (ProviderState b) (c\<lparr>fc_providerActive := b\<rparr>))"
    by (cases b) (simp_all add: shown_active_def)
  then show ?thesis using s unfolding setProviderActive_def fcSubscribe_def Let_def by (simp only: shown_send if_split) simp
qed

lemma shown_pending: "shown_active w c \<Longrightarrow> shown_active w (clearPending c)"
  by (simp add: shown_active_def windowAfter_def clearPending_def)

lemma shown_schedule: "shown_active w c \<Longrightarrow> shown_active w (scheduleReconnect c)"
  by (simp add: shown_active_def windowAfter_def scheduleReconnect_def)

lemma shown_ensure: "shown_active w c \<Longrightarrow> shown_active w (ensureConnected c)"
  by (simp add: shown_active_def windowAfter_def ensureConnected_def)

lemmas shown_intros = shown_setActive shown_pending shown_schedule shown_ensure

lemma shown_forget: "shown_active w c \<Longrightarrow> shown_active w (forgetProvider c)"
  unfolding forgetProvider_def by (intro shown_intros) (erule shown_cong; simp)

lemma shown_message:
  assumes "shown_active w c" and "\<not> isSessionEvent msg \<or> fc_registered c"
  shows "shown_active w (clientMessage msg c)"
proof (cases "isSessionEvent msg")
  case True
  then have "fc_registered c" using assms(2) by blast
  then show ?thesis
    using True assms(1)
    by (auto simp: isSessionEvent_def clientMessage_def Let_def shown_active_def)
next
  case False
  have reg: "shown_active w (c\<lparr>fc_registered := True, fc_providerId := i\<rparr>)" "shown_active w (c\<lparr>fc_subscribed := True\<rparr>)"
    "shown_active w (c\<lparr>fc_pendingKnown := True, fc_pendingActive := b, fc_pendingId := i\<rparr>)" for i b
    by (rule shown_cong [OF assms(1)]; simp)+
  have "shown_active w (onUiRegistered msg c)"
    by (simp add: onUiRegistered_def applyPendingProviderState_def Let_def reg shown_intros)
  moreover have "shown_active w (onUiActive msg c)"
    using assms(1) by (simp add: onUiActive_def Let_def reg shown_intros)
  ultimately show ?thesis
    using False assms(1) by (simp add: isSessionEvent_def clientMessage_def Let_def reg shown_intros)
qed

lemma input_session: "fw_session (performInput isConn x w) = fw_session w \<or> fw_session (performInput isConn x w) = []"
  by (cases x)
    (auto simp: performInput_def clickSubmit_def submitClicked_def clickCancel_def handleCancelRequest_def clickDetails_def
      typeText_def toggleReveal_def closeEvent_def actionTimeout_def fireCloser_def runCloser_def small_defs
      split: closer.split)

lemma perform_frames [simp]:
  "fc_providerActive (fold performRequest rs c) = fc_providerActive c"
  by (induction rs arbitrary: c) (auto simp: performRequest_def sendResponse_def sendCancel_def split: ui_request.split)

definition app_ok :: "fb_app \<Rightarrow> bool" where
  "app_ok a \<longleftrightarrow> fc_providerActive (app_client a) \<or> fw_session (app_window a) = []"

lemma app_ok_viaClient:
  assumes "app_ok a"
    and "shown_active (app_window a) ((app_client a)\<lparr>fc_signals := []\<rparr>) \<Longrightarrow>
      shown_active (app_window a) (f ((app_client a)\<lparr>fc_signals := []\<rparr>))"
  shows "app_ok (viaClient f a)"
  using assms by (simp add: app_ok_def viaClient_def shown_active_def windowAfter_def Let_def)

lemma app_ok_step:
  assumes "app_ok a" and "app_step a b" shows "app_ok b"
  using assms(2)
proof (cases rule: app_step.cases)
  case connected
  have "shown_active w (c\<lparr>fc_socket := st, fc_reconnectDelayMs := n\<rparr>)" if "shown_active w c" for w c st n
    by (rule shown_cong [OF that]) simp_all
  then show ?thesis
    unfolding connected
    by (intro app_ok_viaClient [OF assms(1)]) (simp add: onConnected_def Let_def fcSubscribe_def fcRegister_def shown_forget)
next
  case lost
  then show ?thesis
    by (auto intro!: app_ok_viaClient [OF assms(1)] shown_forget shown_schedule shown_socket simp: onClientLost_def Let_def)
next
  case (message msg)
  then show ?thesis
    by (auto intro!: app_ok_viaClient [OF assms(1)] shown_message)
next
  case (socketError st)
  then show ?thesis
    by (auto intro!: app_ok_viaClient [OF assms(1)] shown_schedule shown_socket simp: onSocketError_def Let_def)
next
  case reconnect
  have "shown_active w (c\<lparr>fc_reconnectTimer := t\<rparr>)" if "shown_active w c" for w c t
    by (rule shown_cong [OF that]) simp_all
  then show ?thesis
    unfolding reconnect by (intro app_ok_viaClient [OF assms(1)]) (simp add: onReconnectTimer_def shown_ensure)
next
  case (window x)
  then show ?thesis
    using assms(1) input_session [of "isConnected (app_client a)" x "(app_window a)\<lparr>fw_requests := []\<rparr>"]
    by (auto simp: app_ok_def viaWindow_def Let_def)
qed (auto intro!: app_ok_viaClient [OF assms(1)] simp: onWatchdog_def onHeartbeatTimer_def fcSubscribe_def fcRegister_def Let_def)

lemma reachable_app_ok: "app_reachable a \<Longrightarrow> app_ok a"
proof (induction rule: app_reachable.induct)
  case start
  show ?case by (simp add: app_ok_def fallbackMain_def viaClient_def clientStart_def ensureConnected_def newClient_def newWindow_def)
qed (rule app_ok_step)

section \<open>The invariants together\<close>

lemma performInput_step: "window_step w (performInput isConn x w) \<or> performInput isConn x w = w"
  by (cases x) (auto simp: performInput_def intro: window_step.intros)

lemma window_ok_requests: "window_ok w \<Longrightarrow> window_ok (w\<lparr>fw_requests := rs\<rparr>)"
  by (erule window_ok_cong) simp_all

lemma window_ok_signals: "window_ok w \<Longrightarrow> window_ok (fold onSignal ss w)"
  by (induction ss arbitrary: w) (auto intro: window_ok_signal)

lemma client_ok_signals: "client_ok (c\<lparr>fc_signals := ss\<rparr>) = client_ok c"
  by (simp add: client_ok_def)

lemma client_ok_requests: "client_ok (fold performRequest rs c) = client_ok c"
  by (induction rs arbitrary: c) (auto simp: performRequest_def sendResponse_def sendCancel_def split: ui_request.split)

definition parts_ok :: "fb_app \<Rightarrow> bool" where
  "parts_ok a \<longleftrightarrow> client_ok (app_client a) \<and> window_ok (app_window a)"

lemma parts_ok_viaClient:
  assumes "parts_ok a" and "client_ok ((app_client a)\<lparr>fc_signals := []\<rparr>) \<Longrightarrow> client_ok (f ((app_client a)\<lparr>fc_signals := []\<rparr>))"
  shows "parts_ok (viaClient f a)"
  using assms by (simp add: parts_ok_def viaClient_def Let_def client_ok_signals window_ok_signals)

lemma parts_ok_step:
  assumes "parts_ok a" and "app_step a b" shows "parts_ok b"
  using assms(2)
proof (cases rule: app_step.cases)
  case (window x)
  let ?w = "(app_window a)\<lparr>fw_requests := []\<rparr>"
  have "window_ok ?w" using assms(1) by (simp add: parts_ok_def window_ok_requests)
  then have "window_ok (performInput (isConnected (app_client a)) x ?w)"
    using performInput_step [of ?w "isConnected (app_client a)" x] window_ok_step by metis
  then show ?thesis using assms(1) window by (simp add: parts_ok_def viaWindow_def Let_def client_ok_requests)
qed (auto intro!: parts_ok_viaClient [OF assms(1)] client_ok_message intro: client_ok_step client_step.intros)

lemma reachable_parts_ok: "app_reachable a \<Longrightarrow> parts_ok a"
proof (induction rule: app_reachable.induct)
  case start
  have "window_ok newWindow" using window_reachable.start by (rule reachable_window_ok)
  then show ?case
    by (simp add: parts_ok_def fallbackMain_def viaClient_def clientStart_def ensureConnected_def newClient_def client_ok_def)
qed (rule parts_ok_step)

text \<open>A run: the daemon accepts the client as the active provider, asks, and the user types.\<close>

definition exampleRun :: "fb_app list" where
  "exampleRun =
     (let a = viaClient onConnected fallbackMain;
          b = viaClient (clientMessage [(''type'', JStr ''ui.registered''), (''id'', JStr ''p''), (''active'', JBool True)]) a;
          c = viaClient (clientMessage [(''type'', JStr ''session.created''), (''id'', JStr ''s''), (''source'', JStr ''polkit'')]) b;
          d = viaWindow (InType ''pw'') c
      in [a, b, c, d])"

lemma exampleRun_reachable: "list_all app_reachable exampleRun"
proof -
  have r: "fc_registered (app_client (viaClient (clientMessage [(''type'', JStr ''ui.registered''), (''id'', JStr ''p''),
      (''active'', JBool True)]) (viaClient onConnected fallbackMain)))"
    by code_simp
  show ?thesis
    by (simp add: exampleRun_def Let_def)
      (intro conjI app_reachable.step [OF _ app_step.window] app_reachable.step [OF _ app_step.message]
        app_reachable.step [OF _ app_step.connected] app_reachable.start; simp add: isSessionEvent_def r)
qed

text \<open>The running fallback program shows a prompt only while its client is the active provider: losing
  the provider role, the connection or the registration hides the window and drops the session in
  the same step.  The invariants of the window and of the client hold along with it.\<close>

theorem prompts_only_while_active:
  assumes "app_reachable a"
  shows "(fc_providerActive (app_client a) \<or> fw_session (app_window a) = [] \<and> \<not> fw_visible (app_window a))
    \<and> window_ok (app_window a) \<and> client_ok (app_client a)"
  using reachable_app_ok [OF assms] reachable_parts_ok [OF assms]
  by (auto simp: app_ok_def parts_ok_def window_ok_def shown_ok_def)

lemma prompts_only_while_active_witness:
  "app_reachable (exampleRun ! 2) \<and> fw_session (app_window (exampleRun ! 2)) = ''s''
   \<and> fc_providerActive (app_client (exampleRun ! 2))"
proof -
  have r: "app_reachable (exampleRun ! 2)" using exampleRun_reachable by (simp add: exampleRun_def Let_def)
  moreover have s: "fw_session (app_window (exampleRun ! 2)) = ''s''" by code_simp
  ultimately show ?thesis using prompts_only_while_active [OF r] by simp
qed

lemma perform_sent:
  "fc_sent (performRequest r c) = fc_sent c @ (if \<not> isConnected c then [] else
     case r of UiRespond sid response \<Rightarrow> [respondMsg sid response] | UiCancel sid \<Rightarrow> [cancelMsg sid])"
  by (simp add: performRequest_def sendResponse_def sendCancel_def fcSend_def split: ui_request.split)



end
