(* ===== verification/Agent_Properties.thy ===== *)
theory Agent_Properties
  imports Agent_Invariant
begin

text \<open>
  What one event of the daemon does end to end: where the answer to a prompt is delivered, what
  happens when two request sources share a cookie, what a disconnected client leaves behind and
  when a fallback UI is started.
\<close>

section \<open>Deliveries\<close>

lemma sent_kept: "x \<in> set (a_sent a) \<Longrightarrow> x \<in> set (a_sent (sendJson e s j w a))"
  by (simp add: sendJson_def)

lemma sent_new: "s \<noteq> nullptr \<Longrightarrow> e_connected e s \<Longrightarrow> (s, j, w) \<in> set (a_sent (sendJson e s j w a))"
  by (simp add: sendJson_def)

lemma respond_dispatch: "handleMessage e s ''session.respond'' m a = handleRespond e s m a"
  by (simp add: handleMessage_eq)

lemma pinentry_request_dispatch: "handleMessage e s ''pinentry_request'' m a = handlePinentryRequest e s m a"
  by (simp add: handleMessage_eq)

text \<open>The provider's answer to a keyring prompt is delivered, with the password, to the client that
  asked, wiped after sending; the request and its session are gone and every other session stays.\<close>

theorem respond_keyring:
  assumes "isAuthorized s (a_registry a)" and "toStr (jvalue msg ''id'') = c" and "keyringHasPending c a"
    and "keyringSocket c a = orig" and "orig \<noteq> nullptr" and "e_connected env orig"
    and "b = handleMessage env s ''session.respond'' msg a"
  shows "(orig, keyringReplyOk c (toStr (jvalue msg ''response'')), True) \<in> set (a_sent b)
    \<and> \<not> keyringHasPending c b \<and> sessionSource b = (sessionSource a)(c := None)"
proof -
  let ?pw = "toStr (jvalue msg ''response'')"
  note eff = keyringAnswer_effect [OF assms(3), where e = env]
  have b: "b = sendJson env s okMsg False
      (sendJson env orig (keyringReplyOk c ?pw) True (snd (keyringHandleResponse env c ?pw a)))"
    using assms(1-5) eff(1) [of ?pw]
    by (simp add: assms(7) respond_dispatch handleRespond_def toOrigin_def Let_def case_prod_beta)
  have "(orig, keyringReplyOk c ?pw, True) \<in> set (a_sent b)"
    unfolding b by (intro sent_kept sent_new assms)
  then show ?thesis using eff(2,3) [of ?pw] by (simp add: b keyringHasPending_def)
qed

lemma example_keyring_state:
  defines "a \<equiv> keyringHandleRequest example_env example_keyring_msg 7 107 (initAgent [] [])"
  shows "keyringHasPending ''k1'' a" and "keyringSocket ''k1'' a = 7" and "uiProviders (a_registry a) = []"
proof -
  have c: "''k1'' = requestCookie example_env example_keyring_msg (initAgent [] [])"
    by (simp add: requestCookie_def example_keyring_msg_def)
  show "keyringHasPending ''k1'' a" "keyringSocket ''k1'' a = 7"
    using keyringRequest_effect [OF c, of 7 107] by (simp_all add: a_def keyringHasPending_def keyringSocket_def)
  show "uiProviders (a_registry a) = []" by (simp add: a_def) (simp add: initAgent_def emptyRegistry_def)
qed

theorem respond_keyring_witness:
  "(7, keyringReplyOk ''k1'' ''pw'', True) \<in> set (a_sent
     (handleMessage example_env 3 ''session.respond'' [(''id'', JStr ''k1''), (''response'', JStr ''pw'')]
        (keyringHandleRequest example_env example_keyring_msg 7 107 (initAgent [] []))))"
  using respond_keyring [OF _ _ example_keyring_state(1,2) _ _ refl, of 3
      "[(''id'', JStr ''k1''), (''response'', JStr ''pw'')]" example_env] example_keyring_state(3)
  by (simp add: isAuthorized_def example_env_def)

lemma respond_polkit_effect:
  assumes "agent_ok a" and "isAuthorized s (a_registry a)" and "toStr (jvalue msg ''id'') = c"
    and "sessionSource a c = Some Polkit" and "\<not> hash_has (pm_flowOwners (a_pinentry a)) c"
  shows "\<exists>st. findState c a = Some st \<and> handleMessage env s ''session.respond'' msg a =
      sendJson env s okMsg False (pkCall (PkResponse (pk_session st) (toStr (jvalue msg ''response''))) a)"
proof -
  note l = listener_okD(1) [OF agent_okD(4) [OF assms(1)]]
  have "findState c a \<noteq> None" using l assms(4) unfolding linked_def by blast
  then obtain st where st: "findState c a = Some st" by auto
  have k: "\<not> keyringHasPending c a" using keyring_pending_source [OF assms(1), of c] assms(4) by auto
  have p: "\<not> hasPendingInput c a" "\<not> pinentryHasRequest c a"
    using forgotten_unowned [OF agent_okD(3) [OF assms(1)] assms(5)] assms(4)
    by (simp_all add: forgotten_def hasPendingInput_def pinentryHasRequest_def Let_def sessionSource_get [symmetric])
  obtain ss where ss: "agentGetSession c a = Some ss" "s_source ss = Polkit"
    using assms(4) by (auto simp: sessionSource_get)
  have "submitPassword c pw a = pkCall (PkResponse (pk_session st) pw) a" for pw
    using linkedD(3) [OF l st] by (simp add: submitPassword_def st)
  then show ?thesis
    using assms(2,3) k p ss st by (simp add: respond_dispatch handleRespond_def Let_def)
qed


lemma example_opened_ok: "agent_ok example_opened"
  unfolding example_opened_def by (rule agent_ok_polkit_events) (rule agent_ok_init)

lemma example_opened_state:
  "sessionSource example_opened ''k'' = Some Polkit" "\<not> hash_has (pm_flowOwners (a_pinentry example_opened)) c"
proof -
  show "sessionSource example_opened ''k'' = Some Polkit"
    by (rule linkedD(6) [OF listener_okD(1) [OF example_opened_facts(1)] example_opened_facts(2)])
  show "\<not> hash_has (pm_flowOwners (a_pinentry example_opened)) c"
    by (simp add: example_opened_def) (simp add: initAgent_def)
qed

lemma initiate_registry: "a_registry (initiateAuthentication e ai m ic dt c ids a) = a_registry a"
  by (simp add: initiateAuthentication_def onPolkitRequest_def Let_def case_prod_beta reattempt_def pkCall_def
      putState_def removeState_def dropPkSession_def newPkSession_def split: option.split)

lemma example_opened_authorized: "isAuthorized s (a_registry example_opened)"
  by (simp add: example_opened_def initiate_registry) (simp add: initAgent_def emptyRegistry_def isAuthorized_def)


text \<open>C24: a client that sends a \<open>pinentry_request\<close> with the cookie of a live polkit session takes over its
  prompt: the session stays a polkit session, but the provider's next answer is sent to that client
  as a pinentry password and polkit never receives it.\<close>

theorem pinentry_captures_polkit_answer:
  assumes ok: "agent_ok a" and c: "toStr (jvalue req ''cookie'') = c" "c \<noteq> []" "toStr (jvalue rsp ''id'') = c"
    and pk: "sessionSource a c = Some Polkit" "\<not> hash_has (pm_flowOwners (a_pinentry a)) c"
    and s: "s \<noteq> nullptr" "e_connected env s" "\<not> toBool (jvalue req ''confirm_only'')"
    and b: "b = handleMessage env s ''pinentry_request'' req a"
    and au: "isAuthorized u (a_registry b)" and d: "d = handleMessage env u ''session.respond'' rsp b"
  shows "sessionSource b c = Some Polkit \<and> a_polkit d = a_polkit a
    \<and> (\<exists>reply. (s, reply, True) \<in> set (a_sent d)
         \<and> jvalue reply ''password'' = Some (JStr (toStr (jvalue rsp ''response''))))"
proof -
  let ?p = "getPeerPid env s" and ?pw = "toStr (jvalue rsp ''response'')"
  have b': "b = pinentryHandleRequest env req s ?p a"
    by (simp add: b pinentry_request_dispatch handlePinentryRequest_def)
  have cookie: "c = requestCookie env req a" using c by (simp add: requestCookie_def)
  have acc: "accepted env req ?p a" using pk(2) by (simp add: accepted_def hash_has_def cookie [symmetric])
  note eff = pinentryRequest_effect [OF acc cookie b']
  have okb: "agent_ok b" unfolding b' by (rule agent_ok_pinentry_request [OF ok])
  have src: "sessionSource b c = Some Polkit" using pk(1) by (simp add: eff(1))
  have k: "\<not> keyringHasPending c b" using keyring_pending_source [OF okb, of c] src by auto
  define r where "r = (parsePinentryRequest req s ?p)\<lparr>pr_cookie := c\<rparr>"
  have pend: "hash_find (pm_pending (a_pinentry b)) c = Some r" by (simp add: eff(2) r_def)
  have conf: "\<not> pr_confirmOnly r" "pr_socket r = s"
    using s(3) by (simp_all add: r_def) (simp add: parsePinentryRequest_def Let_def)
  note resp = response_effect(1) [OF pend, of env ?pw]
  have ty: "toStr (jvalue (pinentryReply r c ?pw) ''type'') = ''pinentry_response''" by (simp add: pinentryReply_def)
  have d': "d = sendJson env u okMsg False
      (sendJson env s (pinentryReply r c ?pw) True (snd (pinentryHandleResponse env c ?pw b)))"
    using au k pend conf resp ty s(1) c(3)
    by (simp add: d respond_dispatch handleRespond_def hasPendingInput_def hash_has_def pinentrySocket_def
        Let_def case_prod_beta)
  have "(s, pinentryReply r c ?pw, True) \<in> set (a_sent d)" unfolding d' by (intro sent_kept sent_new s)
  moreover have "jvalue (pinentryReply r c ?pw) ''password'' = Some (JStr ?pw)"
    using conf by (simp add: pinentryReply_def)
  moreover have "a_polkit d = a_polkit a" by (simp add: d') (simp add: b')
  ultimately show ?thesis using src by blast
qed

theorem pinentry_captures_polkit_answer_witness:
  "\<exists>reply. (6, reply, True) \<in> set (a_sent (handleMessage example_env 3 ''session.respond''
          [(''id'', JStr ''k''), (''response'', JStr ''pw'')]
          (handleMessage example_env 6 ''pinentry_request'' [(''cookie'', JStr ''k'')] example_opened)))
        \<and> jvalue reply ''password'' = Some (JStr ''pw'')"
proof -
  have "isAuthorized 3 (a_registry
      (handleMessage example_env 6 ''pinentry_request'' [(''cookie'', JStr ''k'')] example_opened))"
    using example_opened_authorized
    by (simp add: pinentry_request_dispatch handlePinentryRequest_def)
  from pinentry_captures_polkit_answer [OF example_opened_ok _ _ _ example_opened_state _ _ _ refl this refl,
      where rsp = "[(''id'', JStr ''k''), (''response'', JStr ''pw'')]"]
  show ?thesis by (simp add: example_env_def)
qed

section \<open>The fallback UI\<close>

definition agentDiscovery :: "env \<Rightarrow> agent \<Rightarrow> discovery_result" where
  "agentDiscovery env a = discover (e_cleanPath env) (e_listDir env)
     (parseProviderManifest (e_fromJson env) (e_isAbsolutePath env)) (a_searchDirs a)"

lemma ensure_started:
  assumes "\<not> agentHasActive a" and "e_lockFree env"
    and "\<not> e_clock env (a_clockReads a) - a_lastFallbackLaunchMs a < FALLBACK_LAUNCH_COOLDOWN_MS"
  shows "a_started (ensureFallbackUiRunning env reason a) = a_started a @
    (case snd (snd (tryLaunch (e_launch env) (e_clock env (Suc (a_clockReads a))) (d_manifests (agentDiscovery env a))
        (a_socketPath a) reason False (\<not> storeEmpty (a_store a)) (e_legacyOverride env) (e_legacyDefaultPath env)
        (a_launcher a))) of None \<Rightarrow> [] | Some c \<Rightarrow> [c])"
  using assms
  by (simp add: ensureFallbackUiRunning_def readClock_def Let_def case_prod_beta agentHasActive_def agentDiscovery_def)

text \<open>A start of a fallback UI is attempted only when no provider is active, the lock says none is
  running, a session waits for an answer and five seconds have passed since the last successful
  start; one candidate is tried at a time.\<close>

theorem fallback_start_guarded:
  assumes "a_started (ensureFallbackUiRunning env reason a) \<noteq> a_started a"
  shows "\<not> agentHasActive a \<and> e_lockFree env \<and> a_store a \<noteq> []
    \<and> FALLBACK_LAUNCH_COOLDOWN_MS \<le> e_clock env (a_clockReads a) - a_lastFallbackLaunchMs a
    \<and> (\<exists>c. a_started (ensureFallbackUiRunning env reason a) = a_started a @ [c])"
proof -
  let ?b = "ensureFallbackUiRunning env reason a" and ?now = "e_clock env (a_clockReads a)"
  have stop: "a_started ?b = a_started a"
    if "agentHasActive a \<or> \<not> e_lockFree env \<or> ?now - a_lastFallbackLaunchMs a < FALLBACK_LAUNCH_COOLDOWN_MS"
    using that by (elim disjE) (simp_all add: ensureFallbackUiRunning_def readClock_def)
  then have guards: "\<not> agentHasActive a" "e_lockFree env"
      "\<not> ?now - a_lastFallbackLaunchMs a < FALLBACK_LAUNCH_COOLDOWN_MS"
    using assms by blast+
  note launch = ensure_started [OF guards, of reason]
  then obtain c where c: "snd (snd (tryLaunch (e_launch env) (e_clock env (Suc (a_clockReads a)))
        (d_manifests (agentDiscovery env a)) (a_socketPath a) reason False (\<not> storeEmpty (a_store a))
        (e_legacyOverride env) (e_legacyDefaultPath env) (a_launcher a))) = Some c" "a_started ?b = a_started a @ [c]"
    using assms by (auto split: option.splits)
  have "\<not> storeEmpty (a_store a)"
    using c(1) by (cases "storeEmpty (a_store a)") (simp_all add: tryLaunch_def Let_def)
  then show ?thesis using guards c(2) by (simp add: storeEmpty_def)
qed

definition example_launch_agent :: agent where
  "example_launch_agent = (initAgent ''/run/s'' [])
     \<lparr>a_store := [(''k'', newSession ''k'' Keyring emptyCtx)], a_lastFallbackLaunchMs := 1000\<rparr>"

definition example_launch_env2 :: env where
  "example_launch_env2 = example_env\<lparr>e_lockFree := True, e_legacyDefaultPath := ''/bin/f'',
     e_launch := \<lparr>le_isExecutableFile = (\<lambda>_. True), le_findExecutable = (\<lambda>_. []), le_systemEnv = [],
                  le_startProcess = (\<lambda>_ _ _. True), le_jitter = 0\<rparr>\<rparr>"

lemma example_selected:
  "selectCandidate (e_launch example_launch_env2) [] [] ''/bin/f'' ''/run/s'' =
     (\<lparr>c_id = ''__legacy_default__'', c_displayName = ''legacy-default'', c_exec = ''/bin/f'',
       c_args = [''--socket'', ''/run/s''], c_env = []\<rparr>, [])"
  by (simp add: selectCandidate_def trimmed_def isSpace_def sortedAutostart_def socketArgs_def
      example_launch_env2_def Let_def)

lemma example_tried:
  "snd (snd (tryLaunch (e_launch example_launch_env2) now [] ''/run/s'' r False True [] ''/bin/f'' []))
     = Some (fst (selectCandidate (e_launch example_launch_env2) [] [] ''/bin/f'' ''/run/s''))"
  by (simp add: tryLaunch_def example_selected canAttempt_def Let_def)

theorem fallback_start_guarded_witness:
  "a_started (ensureFallbackUiRunning example_launch_env2 ''session-created'' example_launch_agent) \<noteq> []
   \<and> FALLBACK_LAUNCH_COOLDOWN_MS \<le> e_clock example_launch_env2 0 - 1000"
proof -
  have d: "d_manifests (agentDiscovery example_launch_env2 example_launch_agent) = []"
    by (simp add: agentDiscovery_def discover_def example_launch_agent_def initAgent_def)
  have g: "\<not> agentHasActive example_launch_agent" "e_lockFree example_launch_env2"
      "\<not> e_clock example_launch_env2 (a_clockReads example_launch_agent)
          - a_lastFallbackLaunchMs example_launch_agent < FALLBACK_LAUNCH_COOLDOWN_MS"
    by (simp_all add: example_launch_agent_def initAgent_def agentHasActive_def hasActiveProvider_def
        emptyRegistry_def example_launch_env2_def example_env_def FALLBACK_LAUNCH_COOLDOWN_MS_def)
  have fields: "a_socketPath example_launch_agent = ''/run/s''" "\<not> storeEmpty (a_store example_launch_agent)"
      "e_legacyOverride example_launch_env2 = []" "e_legacyDefaultPath example_launch_env2 = ''/bin/f''"
      "a_launcher example_launch_agent = []"
    by (simp_all add: example_launch_agent_def initAgent_def example_launch_env2_def example_env_def storeEmpty_def)
  have n: "a_started (ensureFallbackUiRunning example_launch_env2 ''session-created'' example_launch_agent)
      \<noteq> a_started example_launch_agent"
    by (subst ensure_started [OF g]) (simp add: d fields example_tried)
  have start: "a_started example_launch_agent = []" "a_clockReads example_launch_agent = 0"
      "a_lastFallbackLaunchMs example_launch_agent = 1000"
    by (simp_all add: example_launch_agent_def initAgent_def)
  show ?thesis using fallback_start_guarded [OF n] n unfolding start by blast
qed

end
