(* ===== verification/Single_Instance.thy ===== *)
theory Single_Instance
  imports Fallback_App Agent_Properties
begin

text \<open>
  The start of the fallback program, \<^verbatim>\<open>fallback/main.cpp\<close>, and the lock file it shares with the
  daemon: each fallback process holds the lock while it serves, and the daemon, in
  \<^verbatim>\<open>CAgent::ensureFallbackUiRunning\<close>, takes and releases it to find out whether one is running.
  The processes are interleaved: the daemon's two lock operations are two steps.
\<close>

section \<open>Start\<close>

definition qtPlatform :: "string \<Rightarrow> string \<Rightarrow> string" where
  "qtPlatform waylandDisplay platformEnv =
     (if waylandDisplay \<noteq> [] \<and> platformEnv = [] then ''wayland;xcb'' else platformEnv)"

definition fallbackSocketPath :: "string option \<Rightarrow> string \<Rightarrow> string" where
  "fallbackSocketPath socketOpt runtimeDir =
     (let defaultSocket = (if runtimeDir = [] then [] else runtimeDir @ ''/bb-auth.sock'')
      in case socketOpt of Some path \<Rightarrow> path | None \<Rightarrow> defaultSocket)"

text \<open>\<open>absoluteDir\<close> is \<^verbatim>\<open>QFileInfo::absolutePath\<close>; daemon and fallback compute the same name.\<close>

definition fallbackLockPath :: "(string \<Rightarrow> string) \<Rightarrow> string \<Rightarrow> string" where
  "fallbackLockPath absoluteDir socketPath = absoluteDir socketPath @ ''/bb-auth-fallback.lock''"

datatype lock_holder = Free | HeldByDaemon | HeldBy nat

datatype fallback_process = Starting string | Serving fb_app | Exited int

definition lockTry :: "lock_holder \<Rightarrow> lock_holder \<Rightarrow> bool \<times> lock_holder" where
  "lockTry who holder = (if holder = Free then (True, who) else (False, holder))"

text \<open>\<^verbatim>\<open>main\<close> up to the event loop, for process \<open>p\<close> with its socket path.\<close>

definition fallbackStart :: "nat \<Rightarrow> string \<Rightarrow> lock_holder \<Rightarrow> fallback_process \<times> lock_holder" where
  "fallbackStart p socketPath holder =
     (if socketPath = [] then (Exited 1, holder)
      else let (locked, holder) = lockTry (HeldBy p) holder
           in if \<not> locked then (Exited 0, holder) else (Serving fallbackMain, holder))"

text \<open>After the loop.\<close>

definition fallbackEnd :: "int \<Rightarrow> fallback_process \<times> lock_holder" where
  "fallbackEnd rc = (Exited rc, Free)"

section \<open>The processes of one socket\<close>

record instances =
  in_lock :: lock_holder
  in_procs :: "(nat, fallback_process) hash"

definition putProc :: "nat \<Rightarrow> fallback_process \<times> lock_holder \<Rightarrow> instances \<Rightarrow> instances" where
  "putProc p r s = s\<lparr>in_procs := hash_put p (fst r) (in_procs s), in_lock := snd r\<rparr>"

text \<open>The daemon's test: \<open>tryLock(0)\<close>, and \<open>unlock\<close> when it succeeded.\<close>

definition daemonProbe :: "instances \<Rightarrow> bool \<times> instances" where
  "daemonProbe s = (let (free, l) = lockTry HeldByDaemon (in_lock s) in (free, s\<lparr>in_lock := l\<rparr>))"

definition daemonRelease :: "instances \<Rightarrow> instances" where
  "daemonRelease s = s\<lparr>in_lock := Free\<rparr>"

text \<open>A process is started by the daemon or by hand; a served process follows its own steps, ends, or
  dies, and then the lock it leaves is stale and counts as released.\<close>

inductive instances_step :: "instances \<Rightarrow> instances \<Rightarrow> bool" where
  launch: "\<not> hash_has (in_procs s) p \<Longrightarrow> instances_step s (s\<lparr>in_procs := hash_put p (Starting path) (in_procs s)\<rparr>)"
| begins: "hash_find (in_procs s) p = Some (Starting path) \<Longrightarrow> instances_step s (putProc p (fallbackStart p path (in_lock s)) s)"
| runs: "hash_find (in_procs s) p = Some (Serving a) \<Longrightarrow> app_step a b \<Longrightarrow>
    instances_step s (s\<lparr>in_procs := hash_put p (Serving b) (in_procs s)\<rparr>)"
| ends: "hash_find (in_procs s) p = Some (Serving a) \<Longrightarrow> instances_step s (putProc p (fallbackEnd rc) s)"
| probe: "in_lock s \<noteq> HeldByDaemon \<Longrightarrow> instances_step s (snd (daemonProbe s))"
| release: "in_lock s = HeldByDaemon \<Longrightarrow> instances_step s (daemonRelease s)"

inductive instances_reachable :: "instances \<Rightarrow> bool" where
  start: "instances_reachable \<lparr>in_lock = Free, in_procs = []\<rparr>"
| step: "instances_reachable s \<Longrightarrow> instances_step s t \<Longrightarrow> instances_reachable t"


section \<open>One at a time\<close>

text \<open>The serving process is the one that holds the lock.\<close>

definition instances_ok :: "instances \<Rightarrow> bool" where
  "instances_ok s \<longleftrightarrow>
     (\<forall>p a. hash_find (in_procs s) p = Some (Serving a) \<longrightarrow> in_lock s = HeldBy p \<and> app_reachable a)
     \<and> (\<forall>p. in_lock s = HeldBy p \<longrightarrow> (\<exists>a. hash_find (in_procs s) p = Some (Serving a)))"

lemma instances_ok_step:
  assumes "instances_ok s" and "instances_step s t" shows "instances_ok t"
  using assms(2)
proof (cases rule: instances_step.cases)
  case (begins p path)
  then show ?thesis
    using assms(1) app_reachable.start
    by (auto simp: instances_ok_def putProc_def fallbackStart_def lockTry_def Let_def split: if_splits)
next
  case (runs p a b)
  have "in_lock s = HeldBy p" "app_reachable b"
    using assms(1) runs(2,3) by (auto simp: instances_ok_def intro: app_reachable.step)
  then show ?thesis using assms(1) by (auto simp: instances_ok_def runs(1))
next
  case (ends p a rc)
  have l: "in_lock s = HeldBy p" using assms(1) ends(2) by (auto simp: instances_ok_def)
  have "q = p" if "hash_find (in_procs s) q = Some (Serving y)" for q y
    using assms(1) that l by (auto simp: instances_ok_def)
  then show ?thesis by (auto simp: instances_ok_def ends(1) putProc_def fallbackEnd_def)
qed (use assms(1) in \<open>auto simp: instances_ok_def hash_has_def putProc_def fallbackEnd_def daemonProbe_def
       daemonRelease_def lockTry_def Let_def split: if_splits\<close>)

lemma instances_ok_reachable: "instances_reachable s \<Longrightarrow> instances_ok s"
proof (induction rule: instances_reachable.induct)
  case start
  show ?case by (simp add: instances_ok_def)
qed (blast intro: instances_ok_step)

text \<open>C19: however many fallback programs are started, by the daemon or by hand, and however their
  steps and the daemon's lock test interleave, at most one of them serves; it holds the lock, it is in a
  state its own model reaches, and while it serves the daemon finds the lock taken and starts no other.\<close>

theorem single_fallback:
  assumes "instances_reachable s" and "hash_find (in_procs s) p = Some (Serving x)"
  shows "(\<forall>q y. hash_find (in_procs s) q = Some (Serving y) \<longrightarrow> q = p) \<and> app_reachable x
    \<and> \<not> fst (daemonProbe s)
    \<and> (e_lockFree env = fst (daemonProbe s) \<longrightarrow> ensureFallbackUiRunning env reason a = a)"
proof -
  have ok: "instances_ok s" by (rule instances_ok_reachable [OF assms(1)])
  then have l: "in_lock s = HeldBy p" "app_reachable x" using assms(2) by (auto simp: instances_ok_def)
  then have d: "\<not> fst (daemonProbe s)" by (simp add: daemonProbe_def lockTry_def)
  moreover have "\<forall>q y. hash_find (in_procs s) q = Some (Serving y) \<longrightarrow> q = p"
    using ok l(1) by (auto simp: instances_ok_def)
  ultimately show ?thesis using l(2) by (simp add: ensureFallbackUiRunning_def)
qed


section \<open>Instances\<close>

definition example_starting :: instances where
  "example_starting = \<lparr>in_lock = Free, in_procs = [(7, Starting ''/run/s'')]\<rparr>"

lemma example_starting_reachable: "instances_reachable example_starting"
proof -
  have "instances_step \<lparr>in_lock = Free, in_procs = []\<rparr> example_starting"
    using instances_step.launch [of "\<lparr>in_lock = Free, in_procs = []\<rparr>" 7 "''/run/s''"] by (simp add: example_starting_def)
  then show ?thesis by (rule instances_reachable.step [OF instances_reachable.start])
qed

lemma example_begins: "instances_reachable (putProc 7 (fallbackStart 7 ''/run/s'' (in_lock example_starting)) example_starting)"
  by (rule instances_reachable.step [OF example_starting_reachable instances_step.begins]) (simp add: example_starting_def)

theorem single_fallback_witness:
  "hash_find (in_procs (putProc 7 (fallbackStart 7 ''/run/s'' Free) example_starting)) 7 = Some (Serving fallbackMain)
   \<and> \<not> fst (daemonProbe (putProc 7 (fallbackStart 7 ''/run/s'' Free) example_starting))"
proof -
  have f: "in_lock example_starting = Free" by (simp add: example_starting_def)
  have s: "hash_find (in_procs (putProc 7 (fallbackStart 7 ''/run/s'' Free) example_starting)) 7 = Some (Serving fallbackMain)"
    by (simp add: putProc_def fallbackStart_def lockTry_def)
  show ?thesis using s single_fallback [OF example_begins [unfolded f] s] by simp
qed


end
