(* ===== verification/Keyring_Prompter.thy ===== *)
theory Keyring_Prompter
  imports Agent_Properties Ipc_Server "HOL-Library.Word"
begin

text \<open>
  The keyring prompter, the program gnome-keyring calls for its prompts:
  \<^verbatim>\<open>keyring-prompter/ipc-client.c\<close> (requests to the daemon), \<^verbatim>\<open>bb-prompt.c\<close> (the prompt
  object of libgcr) and the inactivity timer and start of \<^verbatim>\<open>main.c\<close>.  Sockets, json-glib's
  parser and printer and the file system are parameters.  A null string is \<open>None\<close>; reading through
  a null pointer is the result \<open>Crashed\<close>.
\<close>

section \<open>Sending a command\<close>

datatype 'a c_run = Crashed | Returned 'a

text \<open>The socket, from \<^verbatim>\<open>g_get_user_runtime_dir\<close>; \<^verbatim>\<open>g_build_filename\<close> joins the parts with one
  slash.\<close>

definition get_socket_path :: "string \<Rightarrow> string" where
  "get_socket_path runtime_dir = rev (dropWhile (\<lambda>c. c = CHR ''/'') (rev runtime_dir)) @ ''/bb-auth.sock''"

text \<open>What a fresh connection to the daemon's socket does with the bytes written to it; on success, the
  bytes it sends until it closes.\<close>

datatype connection_result = NoConnection | WriteFailed | ReadFailed | ReadBytes string

text \<open>\<^verbatim>\<open>g_data_input_stream_read_line\<close> returns \<open>NULL\<close> at the end of the stream, and then sets
  no error.\<close>

definition readLine :: "string \<Rightarrow> string option" where
  "readLine bytes = (if bytes = [] then None else Some (takeWhile (\<lambda>c. c \<noteq> newline) bytes))"

definition send_json_command :: "(string \<Rightarrow> connection_result) \<Rightarrow> string \<Rightarrow> string option c_run" where
  "send_json_command io json_request =
     (case io (json_request @ [newline]) of
        NoConnection \<Rightarrow> Returned None
      | WriteFailed \<Rightarrow> Returned None
      | ReadFailed \<Rightarrow> Returned None
      | ReadBytes bytes \<Rightarrow> (case readLine bytes of None \<Rightarrow> Crashed | Some line \<Rightarrow> Returned (Some line)))"

text \<open>\<^verbatim>\<open>json_object_get_string_member\<close>: null unless the member is a string.\<close>

definition get_string_member :: "jobject \<Rightarrow> string \<Rightarrow> string option" where
  "get_string_member obj k = (case jvalue obj k of Some (JStr s) \<Rightarrow> Some s | _ \<Rightarrow> None)"

definition parseObject :: "(string \<Rightarrow> string + json) \<Rightarrow> string \<Rightarrow> jobject option" where
  "parseObject fromJson response = (case fromJson response of Inr (JObj obj) \<Rightarrow> Some obj | _ \<Rightarrow> None)"

section \<open>The requests\<close>

definition bb_auth_ipc_ping ::
    "(string \<Rightarrow> connection_result) \<Rightarrow> (jobject \<Rightarrow> string) \<Rightarrow> (string \<Rightarrow> string + json) \<Rightarrow> bool c_run" where
  "bb_auth_ipc_ping io toJson fromJson =
     (case send_json_command io (toJson [(''type'', JStr ''ping'')]) of
        Crashed \<Rightarrow> Crashed
      | Returned None \<Rightarrow> Returned False
      | Returned (Some response) \<Rightarrow>
          Returned (case parseObject fromJson response of
              None \<Rightarrow> False
            | Some obj \<Rightarrow> jcontains obj ''type'' \<and> get_string_member obj ''type'' = Some ''pong''))"

definition orNull :: "string option \<Rightarrow> string \<Rightarrow> string" where
  "orNull s d = (case s of None \<Rightarrow> d | Some s \<Rightarrow> s)"

definition keyringRequestObj ::
    "string \<Rightarrow> string option \<Rightarrow> string option \<Rightarrow> string option \<Rightarrow> string option \<Rightarrow> bool \<Rightarrow> jobject" where
  "keyringRequestObj cookie title message description warning password_new =
     [(''type'', JStr ''keyring_request''), (''cookie'', JStr cookie), (''title'', JStr (orNull title ''Unlock Keyring'')),
      (''message'', JStr (orNull message ''Password required''))]
     @ (case description of None \<Rightarrow> [] | Some d \<Rightarrow> [(''description'', JStr d)])
     @ (case warning of None \<Rightarrow> [] | Some w \<Rightarrow> if w = [] then [] else [(''warning'', JStr w)])
     @ [(''password_new'', JBool password_new), (''confirm_only'', JBool False)]"

text \<open>The password a reply carries.\<close>

definition replyPassword :: "jobject \<Rightarrow> string option" where
  "replyPassword obj =
     (if \<not> jcontains obj ''type'' then None
      else if get_string_member obj ''type'' \<noteq> Some ''keyring_response'' then None
      else if \<not> jcontains obj ''result'' then None
      else if get_string_member obj ''result'' = Some ''ok''
      then if \<not> jcontains obj ''password'' then None else get_string_member obj ''password''
      else None)"

text \<open>The result and \<^verbatim>\<open>*out_password\<close>.\<close>

definition bb_auth_ipc_send_keyring_request ::
    "(string \<Rightarrow> connection_result) \<Rightarrow> (jobject \<Rightarrow> string) \<Rightarrow> (string \<Rightarrow> string + json) \<Rightarrow> string \<Rightarrow> string option
      \<Rightarrow> string option \<Rightarrow> string option \<Rightarrow> string option \<Rightarrow> bool \<Rightarrow> (bool \<times> string option) c_run" where
  "bb_auth_ipc_send_keyring_request io toJson fromJson cookie title message description warning password_new =
     (case send_json_command io (toJson (keyringRequestObj cookie title message description warning password_new)) of
        Crashed \<Rightarrow> Crashed
      | Returned None \<Rightarrow> Returned (False, None)
      | Returned (Some response) \<Rightarrow>
          Returned (case parseObject fromJson response of
              None \<Rightarrow> (False, None)
            | Some obj \<Rightarrow> (case replyPassword obj of None \<Rightarrow> (False, None) | Some pw \<Rightarrow> (True, Some pw))))"

definition confirmRequestObj :: "string \<Rightarrow> string option \<Rightarrow> string option \<Rightarrow> string option \<Rightarrow> jobject" where
  "confirmRequestObj cookie title message description =
     [(''type'', JStr ''keyring_request''), (''cookie'', JStr cookie), (''title'', JStr (orNull title ''Confirm'')),
      (''message'', JStr (orNull message ''Please confirm''))]
     @ (case description of None \<Rightarrow> [] | Some d \<Rightarrow> [(''description'', JStr d)])
     @ [(''confirm_only'', JBool True)]"

definition replyConfirmed :: "jobject \<Rightarrow> bool" where
  "replyConfirmed obj \<longleftrightarrow>
     jcontains obj ''type'' \<and> get_string_member obj ''type'' = Some ''keyring_response''
     \<and> jcontains obj ''result'' \<and> get_string_member obj ''result'' = Some ''confirmed''"

definition bb_auth_ipc_send_confirm_request ::
    "(string \<Rightarrow> connection_result) \<Rightarrow> (jobject \<Rightarrow> string) \<Rightarrow> (string \<Rightarrow> string + json) \<Rightarrow> string \<Rightarrow> string option
      \<Rightarrow> string option \<Rightarrow> string option \<Rightarrow> bool c_run" where
  "bb_auth_ipc_send_confirm_request io toJson fromJson cookie title message description =
     (case send_json_command io (toJson (confirmRequestObj cookie title message description)) of
        Crashed \<Rightarrow> Crashed
      | Returned None \<Rightarrow> Returned False
      | Returned (Some response) \<Rightarrow>
          Returned (case parseObject fromJson response of None \<Rightarrow> False | Some obj \<Rightarrow> replyConfirmed obj))"

definition cancelRequestObj :: "string \<Rightarrow> jobject" where
  "cancelRequestObj cookie = [(''type'', JStr ''session.cancel''), (''id'', JStr cookie)]"

definition bb_auth_ipc_send_cancel :: "(string \<Rightarrow> connection_result) \<Rightarrow> (jobject \<Rightarrow> string) \<Rightarrow> string \<Rightarrow> unit c_run" where
  "bb_auth_ipc_send_cancel io toJson cookie =
     (case send_json_command io (toJson (cancelRequestObj cookie)) of Crashed \<Rightarrow> Crashed | Returned _ \<Rightarrow> Returned ())"

section \<open>The prompt object\<close>

record bb_prompt =
  bp_title :: "string option"
  bp_message :: "string option"
  bp_description :: "string option"
  bp_warning :: "string option"
  bp_choice_label :: "string option"
  bp_choice_chosen :: bool
  bp_password_new :: bool
  bp_caller_window :: "string option"
  bp_continue_label :: "string option"
  bp_cancel_label :: "string option"
  bp_password :: "string option"
  bp_request_cookie :: "string option"
  bp_cancelled :: bool
  bp_cookie_counter :: int

definition bb_auth_prompt_init :: bb_prompt where
  "bb_auth_prompt_init = \<lparr>bp_title = None, bp_message = None, bp_description = None, bp_warning = None,
     bp_choice_label = None, bp_choice_chosen = False, bp_password_new = False, bp_caller_window = None,
     bp_continue_label = Some ''Unlock'', bp_cancel_label = Some ''Cancel'', bp_password = None,
     bp_request_cookie = None, bp_cancelled = False, bp_cookie_counter = 0\<rparr>"

datatype prompt_prop =
    PROP_TITLE | PROP_MESSAGE | PROP_DESCRIPTION | PROP_WARNING | PROP_CHOICE_LABEL | PROP_CHOICE_CHOSEN
  | PROP_PASSWORD_NEW | PROP_PASSWORD_STRENGTH | PROP_CALLER_WINDOW | PROP_CONTINUE_LABEL | PROP_CANCEL_LABEL

datatype gvalue = GString "string option" | GBool bool | GInt int

fun value_dup_string :: "gvalue \<Rightarrow> string option" where
  "value_dup_string (GString s) = s"
| "value_dup_string _ = None"

fun value_get_boolean :: "gvalue \<Rightarrow> bool" where
  "value_get_boolean (GBool b) = b"
| "value_get_boolean _ = False"

fun bb_auth_prompt_set_property :: "prompt_prop \<Rightarrow> gvalue \<Rightarrow> bb_prompt \<Rightarrow> bb_prompt" where
  "bb_auth_prompt_set_property PROP_TITLE v p = p\<lparr>bp_title := value_dup_string v\<rparr>"
| "bb_auth_prompt_set_property PROP_MESSAGE v p = p\<lparr>bp_message := value_dup_string v\<rparr>"
| "bb_auth_prompt_set_property PROP_DESCRIPTION v p = p\<lparr>bp_description := value_dup_string v\<rparr>"
| "bb_auth_prompt_set_property PROP_WARNING v p = p\<lparr>bp_warning := value_dup_string v\<rparr>"
| "bb_auth_prompt_set_property PROP_CHOICE_LABEL v p = p\<lparr>bp_choice_label := value_dup_string v\<rparr>"
| "bb_auth_prompt_set_property PROP_CHOICE_CHOSEN v p = p\<lparr>bp_choice_chosen := value_get_boolean v\<rparr>"
| "bb_auth_prompt_set_property PROP_PASSWORD_NEW v p = p\<lparr>bp_password_new := value_get_boolean v\<rparr>"
| "bb_auth_prompt_set_property PROP_CALLER_WINDOW v p = p\<lparr>bp_caller_window := value_dup_string v\<rparr>"
| "bb_auth_prompt_set_property PROP_CONTINUE_LABEL v p = p\<lparr>bp_continue_label := value_dup_string v\<rparr>"
| "bb_auth_prompt_set_property PROP_CANCEL_LABEL v p = p\<lparr>bp_cancel_label := value_dup_string v\<rparr>"
| "bb_auth_prompt_set_property PROP_PASSWORD_STRENGTH v p = p"

fun bb_auth_prompt_get_property :: "prompt_prop \<Rightarrow> bb_prompt \<Rightarrow> gvalue" where
  "bb_auth_prompt_get_property PROP_TITLE p = GString (bp_title p)"
| "bb_auth_prompt_get_property PROP_MESSAGE p = GString (bp_message p)"
| "bb_auth_prompt_get_property PROP_DESCRIPTION p = GString (bp_description p)"
| "bb_auth_prompt_get_property PROP_WARNING p = GString (bp_warning p)"
| "bb_auth_prompt_get_property PROP_CHOICE_LABEL p = GString (bp_choice_label p)"
| "bb_auth_prompt_get_property PROP_CHOICE_CHOSEN p = GBool (bp_choice_chosen p)"
| "bb_auth_prompt_get_property PROP_PASSWORD_NEW p = GBool (bp_password_new p)"
| "bb_auth_prompt_get_property PROP_PASSWORD_STRENGTH p = GInt 0"
| "bb_auth_prompt_get_property PROP_CALLER_WINDOW p = GString (bp_caller_window p)"
| "bb_auth_prompt_get_property PROP_CONTINUE_LABEL p = GString (bp_continue_label p)"
| "bb_auth_prompt_get_property PROP_CANCEL_LABEL p = GString (bp_cancel_label p)"

text \<open>\<^verbatim>\<open>g_random_int\<close> is a 32-bit unsigned number, printed with \<^verbatim>\<open>%d\<close>.\<close>

definition generate_cookie :: "int \<Rightarrow> 32 word \<Rightarrow> bb_prompt \<Rightarrow> string \<times> bb_prompt" where
  "generate_cookie pid random p =
     (let p = p\<lparr>bp_cookie_counter := bp_cookie_counter p + 1\<rparr>
      in (''keyring-'' @ showInt pid @ ''-'' @ showInt (sint random) @ ''-'' @ showInt (bp_cookie_counter p), p))"

section \<open>Prompting\<close>

text \<open>The outcome of a task: an error when it was cancelled, or a value.\<close>

datatype 'a task_result = TaskCancelled | TaskValue 'a

datatype prompt_reply = GCR_PROMPT_REPLY_CONTINUE | GCR_PROMPT_REPLY_CANCEL

text \<open>The thread runs after the cookie has been set, so it is not null; \<open>taskCancelled\<close> is the state of the
  cancellable when the daemon has answered.\<close>

definition password_request_thread ::
    "(string \<Rightarrow> connection_result) \<Rightarrow> (jobject \<Rightarrow> string) \<Rightarrow> (string \<Rightarrow> string + json) \<Rightarrow> bool \<Rightarrow> bb_prompt
      \<Rightarrow> (string option task_result \<times> bb_prompt) c_run" where
  "password_request_thread io toJson fromJson taskCancelled p =
     (case bb_auth_ipc_send_keyring_request io toJson fromJson (the (bp_request_cookie p))
             (Some (orNull (bp_title p) ''Unlock Keyring'')) (Some (orNull (bp_message p) ''Password required''))
             (bp_description p) (bp_warning p) (bp_password_new p) of
        Crashed \<Rightarrow> Crashed
      | Returned (success, password) \<Rightarrow>
          Returned
            (if taskCancelled then (TaskCancelled, p)
             else if success \<and> password \<noteq> None
             then (TaskValue password, p\<lparr>bp_password := password, bp_cancelled := False\<rparr>)
             else (TaskValue None, p\<lparr>bp_cancelled := True\<rparr>)))"

definition bb_auth_prompt_password ::
    "(string \<Rightarrow> connection_result) \<Rightarrow> (jobject \<Rightarrow> string) \<Rightarrow> (string \<Rightarrow> string + json) \<Rightarrow> int \<Rightarrow> 32 word \<Rightarrow> bool
      \<Rightarrow> bb_prompt \<Rightarrow> (string option task_result \<times> bb_prompt) c_run" where
  "bb_auth_prompt_password io toJson fromJson pid random taskCancelled p =
     (let (cookie, p) = generate_cookie pid random p
      in password_request_thread io toJson fromJson taskCancelled (p\<lparr>bp_request_cookie := Some cookie\<rparr>))"

definition confirm_request_thread ::
    "(string \<Rightarrow> connection_result) \<Rightarrow> (jobject \<Rightarrow> string) \<Rightarrow> (string \<Rightarrow> string + json) \<Rightarrow> bool \<Rightarrow> bb_prompt
      \<Rightarrow> prompt_reply task_result c_run" where
  "confirm_request_thread io toJson fromJson taskCancelled p =
     (case bb_auth_ipc_send_confirm_request io toJson fromJson (the (bp_request_cookie p))
             (Some (orNull (bp_title p) ''Confirm'')) (Some (orNull (bp_message p) ''Please confirm'')) (bp_description p) of
        Crashed \<Rightarrow> Crashed
      | Returned confirmed \<Rightarrow>
          Returned (if taskCancelled then TaskCancelled
                    else TaskValue (if confirmed then GCR_PROMPT_REPLY_CONTINUE else GCR_PROMPT_REPLY_CANCEL)))"

definition bb_auth_prompt_confirm ::
    "(string \<Rightarrow> connection_result) \<Rightarrow> (jobject \<Rightarrow> string) \<Rightarrow> (string \<Rightarrow> string + json) \<Rightarrow> int \<Rightarrow> 32 word \<Rightarrow> bool
      \<Rightarrow> bb_prompt \<Rightarrow> prompt_reply task_result c_run \<times> bb_prompt" where
  "bb_auth_prompt_confirm io toJson fromJson pid random taskCancelled p =
     (let (cookie, p) = generate_cookie pid random p;
          p = p\<lparr>bp_request_cookie := Some cookie\<rparr>
      in (confirm_request_thread io toJson fromJson taskCancelled p, p))"

text \<open>The finish functions hand the result of the task \<open>task\<close> to libgcr; \<open>valid\<close> is
  \<^verbatim>\<open>g_task_is_valid\<close>.  A cancelled task gives \<^verbatim>\<open>NULL\<close> and, as a number, -1; the replies are the
  numbers of \<^verbatim>\<open>GcrPromptReply\<close>.\<close>

fun replyCode :: "prompt_reply \<Rightarrow> int" where
  "replyCode GCR_PROMPT_REPLY_CANCEL = 0"
| "replyCode GCR_PROMPT_REPLY_CONTINUE = 1"

definition bb_auth_prompt_password_finish :: "bool \<Rightarrow> string option task_result \<Rightarrow> string option" where
  "bb_auth_prompt_password_finish valid task =
     (if \<not> valid then None else case task of TaskCancelled \<Rightarrow> None | TaskValue v \<Rightarrow> v)"

definition bb_auth_prompt_confirm_finish :: "bool \<Rightarrow> prompt_reply task_result \<Rightarrow> int" where
  "bb_auth_prompt_confirm_finish valid task =
     (if \<not> valid then replyCode GCR_PROMPT_REPLY_CANCEL
      else case task of TaskCancelled \<Rightarrow> - 1 | TaskValue r \<Rightarrow> replyCode r)"

lemma finish_results:
  "bb_auth_prompt_password_finish valid task = Some pw \<longleftrightarrow> valid \<and> task = TaskValue (Some pw)"
  "bb_auth_prompt_confirm_finish valid rtask = 1 \<longleftrightarrow> valid \<and> rtask = TaskValue GCR_PROMPT_REPLY_CONTINUE"
  by (auto simp: bb_auth_prompt_password_finish_def bb_auth_prompt_confirm_finish_def
      split: task_result.split elim: replyCode.elims)

definition bb_auth_prompt_close :: "(string \<Rightarrow> connection_result) \<Rightarrow> (jobject \<Rightarrow> string) \<Rightarrow> bb_prompt \<Rightarrow> unit c_run" where
  "bb_auth_prompt_close io toJson p =
     (case bp_request_cookie p of None \<Rightarrow> Returned () | Some cookie \<Rightarrow> bb_auth_ipc_send_cancel io toJson cookie)"

section \<open>Delivery of a reply\<close>

text \<open>A connection over which the daemon answers with one object.\<close>

definition replies :: "(jobject \<Rightarrow> string) \<Rightarrow> jobject \<Rightarrow> string \<Rightarrow> connection_result" where
  "replies toJson reply request = ReadBytes (toJson reply @ [newline])"

lemma send_replies:
  assumes "json_codec fromJson toJson reply"
  shows "send_json_command (replies toJson reply) req = Returned (Some (toJson reply))"
    and "parseObject fromJson (toJson reply) = Some reply"
proof -
  have "takeWhile (\<lambda>c. c \<noteq> newline) (toJson reply @ [newline]) = toJson reply"
    using assms by (subst takeWhile_append2) (auto simp: json_codec_def)
  then show "send_json_command (replies toJson reply) req = Returned (Some (toJson reply))"
    using trimmed_json [OF assms] by (simp add: send_json_command_def replies_def readLine_def)
  show "parseObject fromJson (toJson reply) = Some reply"
    using assms by (simp add: parseObject_def json_codec_def)
qed

lemma reply_cases:
  "replyPassword (keyringReplyOk c pw) = Some pw" "replyPassword (keyringReplyCancelled c) = None"
  "replyPassword (errorMsg m) = None" "\<not> replyConfirmed (keyringReplyOk c pw)"
  "\<not> replyConfirmed (keyringReplyCancelled c)" "\<not> replyConfirmed (errorMsg m)"
  by (simp_all add: replyPassword_def replyConfirmed_def get_string_member_def keyringReplyOk_def
      keyringReplyCancelled_def errorMsg_def)

text \<open>The password the provider entered reaches gnome-keyring unchanged: with the daemon's answer to
  the request, the prompt's task ends with exactly that text and the prompt is not cancelled; with
  the cancelled answer or an error the task ends with no password and the prompt is cancelled.\<close>

theorem keyring_password_delivered:
  assumes "json_codec fromJson toJson (keyringReplyOk c pw)" and "json_codec fromJson toJson (keyringReplyCancelled c)"
    and "json_codec fromJson toJson (errorMsg m)"
  shows "(\<exists>q. bb_auth_prompt_password (replies toJson (keyringReplyOk c pw)) toJson fromJson pid r False p
              = Returned (TaskValue (Some pw), q) \<and> bp_password q = Some pw \<and> \<not> bp_cancelled q)
    \<and> (\<exists>q. bb_auth_prompt_password (replies toJson (keyringReplyCancelled c)) toJson fromJson pid r False p
              = Returned (TaskValue None, q) \<and> bp_password q = bp_password p \<and> bp_cancelled q)
    \<and> (\<exists>q. bb_auth_prompt_password (replies toJson (errorMsg m)) toJson fromJson pid r False p
              = Returned (TaskValue None, q) \<and> bp_password q = bp_password p \<and> bp_cancelled q)"
  using assms
  by (simp add: bb_auth_prompt_password_def generate_cookie_def password_request_thread_def
      bb_auth_ipc_send_keyring_request_def send_replies reply_cases Let_def)

text \<open>C22: a confirmation of gnome-keyring can never succeed: whatever the daemon's keyring manager answers,
  to a response as to a cancellation, for a pending request or an unknown one, the prompter takes
  it for a refusal, since the manager only knows the results ok and cancelled and the prompter waits
  for confirmed.\<close>

theorem keyring_confirm_never_succeeds:
  assumes "reply \<in> {fst (keyringHandleResponse env c response a), fst (keyringHandleCancel env c a)}"
    and "json_codec fromJson toJson reply"
  shows "fst (bb_auth_prompt_confirm (replies toJson reply) toJson fromJson pid r False p)
    = Returned (TaskValue GCR_PROMPT_REPLY_CANCEL)"
proof -
  have "\<not> replyConfirmed reply"
    using assms(1) by (auto simp: keyringHandleResponse_def keyringHandleCancel_def reply_cases split: option.splits)
  then show ?thesis
    using assms(2)
    by (simp add: bb_auth_prompt_confirm_def generate_cookie_def confirm_request_thread_def
        bb_auth_ipc_send_confirm_request_def send_replies Let_def)
qed

text \<open>What gnome-keyring says beyond title and message is lost on the way: the daemon's reading of the
  request does not depend on the description, on the warning (a wrong password, for instance), on
  whether a new password is asked for, or on whether only a confirmation is.\<close>

theorem keyring_request_reading:
  "parseKeyringRequest (keyringRequestObj cookie title message description warning new) c socket pid =
     \<lparr>kr_cookie = c, kr_socket = socket, kr_peerPid = pid, kr_title = orNull title ''Unlock Keyring'',
      kr_message = orNull message ''Password required'', kr_choice = [], kr_flags = 0\<rparr>
   \<and> parseKeyringRequest (confirmRequestObj cookie title message description) c socket pid =
     \<lparr>kr_cookie = c, kr_socket = socket, kr_peerPid = pid, kr_title = orNull title ''Confirm'',
      kr_message = orNull message ''Please confirm'', kr_choice = [], kr_flags = 0\<rparr>
   \<and> toStr (jvalue (keyringRequestObj cookie title message description warning new) ''cookie'') = cookie
   \<and> toStr (jvalue (confirmRequestObj cookie title message description) ''cookie'') = cookie"
  by (cases description; cases warning)
    (auto simp: parseKeyringRequest_def keyringRequestObj_def confirmRequestObj_def)

text \<open>Closing a prompt does not cancel its request once a provider is registered: the cancellation
  arrives on a connection of its own, which is not the active provider's, and is refused without any
  effect; the prompter ignores the refusal.\<close>

theorem keyring_close_refused:
  assumes "uiProviders (a_registry a) \<noteq> []" and "\<not> hash_has (uiProviders (a_registry a)) fresh"
    and "bp_request_cookie p = Some c" and "json_codec fromJson toJson (errorMsg ''Not active UI provider'')"
  shows "handleMessage env fresh ''session.cancel'' (cancelRequestObj c) a
      = sendJson env fresh (errorMsg ''Not active UI provider'') False a
    \<and> bb_auth_prompt_close (replies toJson (errorMsg ''Not active UI provider'')) toJson p = Returned ()"
proof -
  have "handleMessage env fresh ''session.cancel'' (cancelRequestObj c) a = handleCancel env fresh (cancelRequestObj c) a"
    by (simp add: handleMessage_eq)
  then show ?thesis
    using assms
    by (simp add: handleCancel_def notActiveProvider_def isAuthorized_def bb_auth_prompt_close_def
        bb_auth_ipc_send_cancel_def send_replies Let_def)
qed

text \<open>The prompter crashes exactly when the daemon closes the connection before it sends anything,
  in every kind of request: the end of the stream is no error, so the message of the error is read
  through a null pointer.  On every other outcome of the connection it returns.\<close>

theorem send_command_crashes:
  "(send_json_command io req = Crashed \<longleftrightarrow> io (req @ [newline]) = ReadBytes [])
   \<and> bb_auth_ipc_ping (\<lambda>_. ReadBytes []) toJson fromJson = Crashed
   \<and> bb_auth_ipc_send_cancel (\<lambda>_. ReadBytes []) toJson c = Crashed
   \<and> bb_auth_prompt_password (\<lambda>_. ReadBytes []) toJson fromJson pid r cancelled p = Crashed
   \<and> fst (bb_auth_prompt_confirm (\<lambda>_. ReadBytes []) toJson fromJson pid r cancelled p) = Crashed"
  by (simp add: send_json_command_def readLine_def bb_auth_ipc_ping_def bb_auth_ipc_send_cancel_def
      bb_auth_prompt_password_def password_request_thread_def bb_auth_ipc_send_keyring_request_def
      bb_auth_prompt_confirm_def confirm_request_thread_def bb_auth_ipc_send_confirm_request_def
      generate_cookie_def Let_def split: connection_result.split)

section \<open>Cookies\<close>

lemma showNat_inj: "showNat m = showNat n \<Longrightarrow> m = n"
  by (metis digits_showNat of_nat_eq_iff)

lemma showInt_nonneg: "0 \<le> n \<Longrightarrow> showInt n = showNat (nat n)"
  by (simp add: showInt_def)

lemma dash_no_digit: "CHR ''-'' \<notin> set (showNat n)"
  using showNat_digits [of "CHR ''-''" n] by (auto simp: isDigit_def)

text \<open>Requests of one prompter process never share a cookie with an earlier request of the same prompt,
  whatever the random part is: the counter alone tells them apart.\<close>

theorem cookies_differ:
  assumes "0 \<le> bp_cookie_counter p" and "bp_cookie_counter p < bp_cookie_counter q"
  shows "fst (generate_cookie pid r p) \<noteq> fst (generate_cookie pid' r' q)"
proof
  let ?m = "nat (bp_cookie_counter p + 1)" and ?n = "nat (bp_cookie_counter q + 1)"
  have tail: "last (splitOn (CHR ''-'') (fst (generate_cookie i x u))) = showNat (nat (bp_cookie_counter u + 1))"
    if u: "0 \<le> bp_cookie_counter u" for i x u
  proof -
    define pre where "pre = ''keyring-'' @ showInt i @ ''-'' @ showInt (sint x)"
    have "fst (generate_cookie i x u) = pre @ CHR ''-'' # showNat (nat (bp_cookie_counter u + 1))"
      using u by (simp add: generate_cookie_def Let_def showInt_nonneg pre_def)
    then show ?thesis by (simp only: splitOn_append splitOn_none [OF dash_no_digit]) simp
  qed
  assume "fst (generate_cookie pid r p) = fst (generate_cookie pid' r' q)"
  moreover have "0 \<le> bp_cookie_counter q" using assms by linarith
  ultimately have "showNat ?m = showNat ?n"
    using tail [OF assms(1), of pid r] tail [of q pid' r'] by (simp only:)
  then have "?m = ?n" by (rule showNat_inj)
  then show False using assms by simp
qed

section \<open>Instances\<close>

definition keyring_print :: "jobject \<Rightarrow> string" where
  "keyring_print j =
     (if j = keyringReplyOk ''k'' ''pw'' then ''{o}'' else if j = keyringReplyCancelled ''k'' then ''{c}'' else ''{e}'')"

definition keyring_parse :: "string \<Rightarrow> string + json" where
  "keyring_parse s =
     (if s = ''{o}'' then Inr (JObj (keyringReplyOk ''k'' ''pw'')) else if s = ''{c}'' then Inr (JObj (keyringReplyCancelled ''k''))
      else if s = ''{e}'' then Inr (JObj (errorMsg ''Not active UI provider'')) else Inl ''syntax'')"

lemma keyring_codec:
  "json_codec keyring_parse keyring_print (keyringReplyOk ''k'' ''pw'')"
  "json_codec keyring_parse keyring_print (keyringReplyCancelled ''k'')"
  "json_codec keyring_parse keyring_print (errorMsg ''Not active UI provider'')"
proof -
  have "newline \<notin> set ''{o}''" "newline \<notin> set ''{c}''" "newline \<notin> set ''{e}''" by code_simp+
  then show "json_codec keyring_parse keyring_print (keyringReplyOk ''k'' ''pw'')"
    "json_codec keyring_parse keyring_print (keyringReplyCancelled ''k'')"
    "json_codec keyring_parse keyring_print (errorMsg ''Not active UI provider'')"
    by (simp_all add: json_codec_def keyring_print_def keyring_parse_def keyringReplyOk_def keyringReplyCancelled_def errorMsg_def)
qed

lemma keyring_password_delivered_witness:
  "\<exists>q. bb_auth_prompt_password (replies keyring_print (keyringReplyOk ''k'' ''pw'')) keyring_print keyring_parse 10 5 False
       bb_auth_prompt_init = Returned (TaskValue (Some ''pw''), q)"
  using keyring_password_delivered [OF keyring_codec, of 10 5 bb_auth_prompt_init] by blast

lemma keyring_confirm_never_succeeds_witness:
  "fst (bb_auth_prompt_confirm (replies keyring_print (keyringReplyOk ''k'' ''pw'')) keyring_print keyring_parse 10 5 False
      bb_auth_prompt_init) = Returned (TaskValue GCR_PROMPT_REPLY_CANCEL)
   \<and> fst (keyringHandleResponse example_env ''k'' ''pw'' ((initAgent [] [])\<lparr>a_keyring := [(''k'', parseKeyringRequest [] ''k'' 7 1)]\<rparr>))
     = keyringReplyOk ''k'' ''pw''"
proof -
  have f: "fst (keyringHandleResponse example_env ''k'' ''pw'' ((initAgent [] [])\<lparr>a_keyring := [(''k'', parseKeyringRequest [] ''k'' 7 1)]\<rparr>))
     = keyringReplyOk ''k'' ''pw''"
    by (simp add: keyringHandleResponse_def)
  show ?thesis
    using keyring_confirm_never_succeeds [of "keyringReplyOk ''k'' ''pw''" example_env "''k''" "''pw''"
        "(initAgent [] [])\<lparr>a_keyring := [(''k'', parseKeyringRequest [] ''k'' 7 1)]\<rparr>", OF _ keyring_codec(1)] f by simp
qed

lemma keyring_close_refused_witness:
  "handleMessage example_env 5 ''session.cancel'' (cancelRequestObj ''k'') example_registered
     = sendJson example_env 5 (errorMsg ''Not active UI provider'') False example_registered"
  using keyring_close_refused [of example_registered 5 "bb_auth_prompt_init\<lparr>bp_request_cookie := Some ''k''\<rparr>" "''k''",
      OF _ _ _ keyring_codec(3), of example_env]
  by (simp add: example_registered_def)

lemma cookies_differ_witness:
  "fst (generate_cookie 10 5 bb_auth_prompt_init) \<noteq> fst (generate_cookie 10 5 (snd (generate_cookie 10 5 bb_auth_prompt_init)))"
  by (rule cookies_differ) (simp_all add: bb_auth_prompt_init_def generate_cookie_def Let_def)

end
