(* ===== verification/Prompter_Process.thy ===== *)
theory Prompter_Process
  imports Keyring_Prompter
begin

text \<open>
  The life of the keyring prompter as a process, \<^verbatim>\<open>keyring-prompter/main.c\<close>: the choice between
  serving and handing over to the prompter of gcr, the inactivity timer as a GLib source with its
  identifier, the registration on the session bus, and the clean-up after the main loop.
\<close>

section \<open>Handing over\<close>

definition standard_paths :: "string \<Rightarrow> string list" where
  "standard_paths binary = [binary, ''/usr/lib/gcr-prompter'', ''/usr/libexec/gcr-prompter'',
     ''/usr/lib/gnome-keyring/gcr-prompter'', ''/usr/lib/x86_64-linux-gnu/gcr-prompter'']"

definition find_gcr_prompter :: "(string \<Rightarrow> bool) \<Rightarrow> string \<Rightarrow> string" where
  "find_gcr_prompter executable binary =
     (case find executable (standard_paths binary) of Some path \<Rightarrow> path | None \<Rightarrow> binary)"

text \<open>How the program ends when the daemon cannot be reached: in another program or in an exit code.\<close>

datatype handover = ExecPrompter string | ExitCode int

definition fallback_to_gcr_prompter :: "(string \<Rightarrow> bool) \<Rightarrow> (string \<Rightarrow> bool) \<Rightarrow> string \<Rightarrow> handover" where
  "fallback_to_gcr_prompter executable execs binary =
     (let prompter_path = find_gcr_prompter executable binary in
      if \<not> executable prompter_path then ExitCode 1
      else if execs prompter_path then ExecPrompter prompter_path
      else ExitCode 1)"

section \<open>The process\<close>

text \<open>
  The static variables of the file, and beside them what they stand for: the live GLib sources, whether
  libgcr has the prompter on the bus, and whether the bus name is asked for.  \<open>ps_critical\<close> is set
  by a call GLib or libgcr would answer with a critical warning: the removal of a source that does not
  exist, a second registration, an unregistration without one.
\<close>

record prompter_process =
  ps_timeout_id :: nat
  ps_registered :: bool
  ps_prompting :: bool
  ps_quit :: bool
  ps_sources :: "nat list"
  ps_nextSource :: nat
  ps_onBus :: bool
  ps_ownsName :: bool
  ps_critical :: bool

definition initialProcess :: prompter_process where
  "initialProcess = \<lparr>ps_timeout_id = 0, ps_registered = False, ps_prompting = False, ps_quit = False, ps_sources = [],
     ps_nextSource = 1, ps_onBus = False, ps_ownsName = False, ps_critical = False\<rparr>"

definition g_source_remove :: "nat \<Rightarrow> prompter_process \<Rightarrow> prompter_process" where
  "g_source_remove i s =
     (if i \<in> set (ps_sources s) then s\<lparr>ps_sources := removeAllOf i (ps_sources s)\<rparr> else s\<lparr>ps_critical := True\<rparr>)"

definition g_timeout_add :: "prompter_process \<Rightarrow> nat \<times> prompter_process" where
  "g_timeout_add s =
     (let i = ps_nextSource s in (i, s\<lparr>ps_sources := ps_sources s @ [i], ps_nextSource := Suc i\<rparr>))"

text \<open>The callback clears its identifier and asks the loop to stop; its result \<^verbatim>\<open>G_SOURCE_REMOVE\<close> makes
  GLib drop the source \<open>i\<close> that fired.\<close>

definition on_timeout :: "nat \<Rightarrow> prompter_process \<Rightarrow> prompter_process" where
  "on_timeout i s =
     (let s = s\<lparr>ps_timeout_id := 0, ps_quit := True\<rparr> in s\<lparr>ps_sources := removeAllOf i (ps_sources s)\<rparr>)"

definition stop_timeout :: "prompter_process \<Rightarrow> prompter_process" where
  "stop_timeout s =
     (if ps_timeout_id s \<noteq> 0 then (g_source_remove (ps_timeout_id s) s)\<lparr>ps_timeout_id := 0\<rparr> else s)"

definition reset_timeout :: "prompter_process \<Rightarrow> prompter_process" where
  "reset_timeout s = (let (i, s) = g_timeout_add (stop_timeout s) in s\<lparr>ps_timeout_id := i\<rparr>)"

definition on_prompting_changed :: "bool \<Rightarrow> prompter_process \<Rightarrow> prompter_process" where
  "on_prompting_changed prompting s =
     (let s = s\<lparr>ps_prompting := prompting\<rparr> in if prompting then stop_timeout s else reset_timeout s)"

definition on_bus_acquired :: "prompter_process \<Rightarrow> prompter_process" where
  "on_bus_acquired s =
     (let s = (if ps_onBus s then s\<lparr>ps_critical := True\<rparr> else s\<lparr>ps_onBus := True\<rparr>) in s\<lparr>ps_registered := True\<rparr>)"

definition on_name_lost :: "prompter_process \<Rightarrow> prompter_process" where
  "on_name_lost s = s\<lparr>ps_quit := True\<rparr>"

text \<open>The main function up to the loop, and what it does after the loop.\<close>

definition bb_auth_keyring_main ::
    "(string \<Rightarrow> connection_result) \<Rightarrow> (jobject \<Rightarrow> string) \<Rightarrow> (string \<Rightarrow> string + json) \<Rightarrow> (string \<Rightarrow> bool) \<Rightarrow> (string \<Rightarrow> bool)
      \<Rightarrow> string \<Rightarrow> (handover + prompter_process) c_run" where
  "bb_auth_keyring_main io toJson fromJson executable execs binary =
     (case bb_auth_ipc_ping io toJson fromJson of
        Crashed \<Rightarrow> Crashed
      | Returned False \<Rightarrow> Returned (Inl (fallback_to_gcr_prompter executable execs binary))
      | Returned True \<Rightarrow> Returned (Inr (reset_timeout (initialProcess\<lparr>ps_ownsName := True\<rparr>))))"

definition keyring_shutdown :: "prompter_process \<Rightarrow> prompter_process" where
  "keyring_shutdown s =
     (let s = (if ps_timeout_id s \<noteq> 0 then g_source_remove (ps_timeout_id s) s else s);
          s = s\<lparr>ps_ownsName := False\<rparr>
      in if ps_registered s
         then if ps_onBus s then s\<lparr>ps_onBus := False\<rparr> else s\<lparr>ps_critical := True\<rparr>
         else s)"

section \<open>What happens in the loop\<close>

text \<open>The bus connection is acquired once for a name.  Events that were ready when the loop was asked to
  stop are still handled, so a step may follow a quit.\<close>

inductive prompter_step :: "prompter_process \<Rightarrow> prompter_process \<Rightarrow> bool" where
  timer: "i \<in> set (ps_sources s) \<Longrightarrow> prompter_step s (on_timeout i s)"
| prompting: "prompter_step s (on_prompting_changed b s)"
| bus: "\<not> ps_registered s \<Longrightarrow> prompter_step s (on_bus_acquired s)"
| name_lost: "prompter_step s (on_name_lost s)"

inductive prompter_reachable :: "prompter_process \<Rightarrow> bool" where
  start: "bb_auth_keyring_main io toJson fromJson executable execs binary = Returned (Inr s) \<Longrightarrow> prompter_reachable s"
| step: "prompter_reachable s \<Longrightarrow> prompter_step s t \<Longrightarrow> prompter_reachable t"

inductive_cases prompter_stepE: "prompter_step s t"

text \<open>At most one timer source exists and \<open>timeout_id\<close> names it; it never runs under a prompt.\<close>

definition process_ok :: "prompter_process \<Rightarrow> bool" where
  "process_ok s \<longleftrightarrow> ps_sources s = (if ps_timeout_id s = 0 then [] else [ps_timeout_id s])
     \<and> ps_timeout_id s < ps_nextSource s \<and> (ps_prompting s \<longrightarrow> ps_timeout_id s = 0)
     \<and> (ps_prompting s \<or> ps_timeout_id s \<noteq> 0 \<or> ps_quit s) \<and> (ps_onBus s \<longleftrightarrow> ps_registered s)
     \<and> ps_ownsName s \<and> \<not> ps_critical s"

lemmas process_defs = on_timeout_def stop_timeout_def reset_timeout_def on_prompting_changed_def on_bus_acquired_def
  on_name_lost_def g_source_remove_def g_timeout_add_def

lemma process_ok_start:
  "bb_auth_keyring_main io toJson fromJson executable execs binary = Returned (Inr s) \<Longrightarrow> process_ok s"
  by (auto simp: bb_auth_keyring_main_def process_ok_def process_defs initialProcess_def Let_def
      split: c_run.splits bool.splits)

lemma process_ok_step: "process_ok s \<Longrightarrow> prompter_step s t \<Longrightarrow> process_ok t"
  by (elim prompter_stepE) (auto simp: process_ok_def process_defs Let_def split: if_splits)

lemma process_ok_reachable: "prompter_reachable s \<Longrightarrow> process_ok s"
  by (induction rule: prompter_reachable.induct) (auto intro: process_ok_start process_ok_step)


section \<open>Which prompter is started instead\<close>

lemma find_some: "find P xs = Some x \<Longrightarrow> x \<in> set xs \<and> P x"
  by (induction xs) (auto split: if_splits)

lemma find_gcr_prompter_executable:
  "find_gcr_prompter executable binary \<in> set (standard_paths binary)
   \<and> (executable (find_gcr_prompter executable binary) \<longleftrightarrow> list_ex executable (standard_paths binary))"
proof -
  have b: "binary \<in> set (standard_paths binary)" by (simp add: standard_paths_def)
  show ?thesis
  proof (cases "find executable (standard_paths binary)")
    case None
    then have "\<not> list_ex executable (standard_paths binary)" by (simp add: find_None_iff list_ex_iff)
    then show ?thesis using None b by (auto simp: find_gcr_prompter_def list_ex_iff)
  next
    case (Some x)
    then show ?thesis using find_some [OF Some] by (auto simp: find_gcr_prompter_def list_ex_iff)
  qed
qed


text \<open>The program hands over to an executable of the list whenever there is one that can be started, and
  never to anything else.\<close>

theorem fallback_prompter_choice:
  "fallback_to_gcr_prompter executable execs binary =
     (case filter executable (standard_paths binary) of
        [] \<Rightarrow> ExitCode 1
      | path # _ \<Rightarrow> if execs path then ExecPrompter path else ExitCode 1)"
proof (cases "find executable (standard_paths binary)")
  case None
  then have "filter executable (standard_paths binary) = []" by (simp add: find_None_iff filter_empty_conv)
  moreover have "binary \<in> set (standard_paths binary)" by (simp add: standard_paths_def)
  then have "\<not> executable binary" using None unfolding find_None_iff by blast
  ultimately show ?thesis using None by (simp add: fallback_to_gcr_prompter_def find_gcr_prompter_def)
next
  case (Some x)
  have "find P xs = Some x \<Longrightarrow> \<exists>ys. filter P xs = x # ys" for P :: "string \<Rightarrow> bool" and xs
    by (induction xs) (auto split: if_splits)
  then obtain ys where "filter executable (standard_paths binary) = x # ys" using Some by blast
  then show ?thesis
    using Some find_some [OF Some] by (simp add: fallback_to_gcr_prompter_def find_gcr_prompter_def Let_def)
qed

section \<open>Instances\<close>

definition pong_io :: "string \<Rightarrow> connection_result" where
  "pong_io request = ReadBytes ''P''"

definition pong_parse :: "string \<Rightarrow> string + json" where
  "pong_parse s = (if s = ''P'' then Inr (JObj [(''type'', JStr ''pong'')]) else Inl ''no JSON'')"

definition example_process :: prompter_process where
  "example_process = on_prompting_changed True (on_bus_acquired (reset_timeout (initialProcess\<lparr>ps_ownsName := True\<rparr>)))"

lemma example_process_reachable: "prompter_reachable example_process"
proof -
  have "bb_auth_keyring_main pong_io (\<lambda>_. []) pong_parse (\<lambda>_. False) (\<lambda>_. False) ''gcr''
      = Returned (Inr (reset_timeout (initialProcess\<lparr>ps_ownsName := True\<rparr>)))"
    by (simp add: bb_auth_keyring_main_def bb_auth_ipc_ping_def send_json_command_def pong_io_def pong_parse_def
        parseObject_def readLine_def get_string_member_def hash_has_def newline_def)
  then have s: "prompter_reachable (reset_timeout (initialProcess\<lparr>ps_ownsName := True\<rparr>))"
    by (rule prompter_reachable.start)
  have "\<not> ps_registered (reset_timeout (initialProcess\<lparr>ps_ownsName := True\<rparr>))"
    by (simp add: process_defs initialProcess_def)
  then have "prompter_reachable (on_bus_acquired (reset_timeout (initialProcess\<lparr>ps_ownsName := True\<rparr>)))"
    by (rule prompter_reachable.step [OF s prompter_step.bus])
  then show ?thesis
    unfolding example_process_def by (rule prompter_reachable.step [OF _ prompter_step.prompting])
qed


end
