(* ===== verification/Prompter_Memory.thy ===== *)
theory Prompter_Memory
  imports Keyring_Prompter
begin

text \<open>
  The prompt object of \<^verbatim>\<open>keyring-prompter/bb-prompt.c\<close> once more, now with its memory: each string
  member is a pointer to a block that is allocated and freed by hand, and a request runs in a thread
  that loads the pointers first and follows them later.  The theory shows that no block is used after
  it was freed, freed twice or lost, under the discipline libgcr keeps with a prompt, and that the
  object with pointers refines the one with values of \<open>Keyring_Prompter\<close>.
\<close>

section \<open>Memory\<close>

text \<open>Blocks by address, 0 being \<^verbatim>\<open>NULL\<close>; \<open>m_fault\<close> is set by a use of a block that is not live.\<close>

record memory =
  m_blocks :: "(nat, string) hash"
  m_next :: nat
  m_fault :: bool

definition emptyMemory :: memory where
  "emptyMemory = \<lparr>m_blocks = [], m_next = 1, m_fault = False\<rparr>"

definition g_strdup :: "string option \<Rightarrow> memory \<Rightarrow> nat \<times> memory" where
  "g_strdup v m =
     (case v of None \<Rightarrow> (0, m)
      | Some x \<Rightarrow> (m_next m, m\<lparr>m_blocks := hash_put (m_next m) x (m_blocks m), m_next := Suc (m_next m)\<rparr>))"

definition g_free :: "nat \<Rightarrow> memory \<Rightarrow> memory" where
  "g_free a m =
     (if a = 0 then m
      else if hash_has (m_blocks m) a then m\<lparr>m_blocks := hash_del a (m_blocks m)\<rparr>
      else m\<lparr>m_fault := True\<rparr>)"

definition c_read :: "nat \<Rightarrow> memory \<Rightarrow> string option \<times> memory" where
  "c_read a m =
     (if a = 0 then (None, m)
      else case hash_find (m_blocks m) a of Some x \<Rightarrow> (Some x, m) | None \<Rightarrow> (None, m\<lparr>m_fault := True\<rparr>))"

fun c_reads :: "nat list \<Rightarrow> memory \<Rightarrow> string option list \<times> memory" where
  "c_reads [] m = ([], m)"
| "c_reads (a # as) m = (let (v, m) = c_read a m; (vs, m) = c_reads as m in (v # vs, m))"

section \<open>The object\<close>

text \<open>The string members of \<^verbatim>\<open>struct _BbAuthPrompt\<close>; the struct maps each to its pointer.\<close>

datatype member = M_title | M_message | M_description | M_warning | M_choice_label | M_caller_window
  | M_continue_label | M_cancel_label | M_password | M_request_cookie

record c_prompt =
  cp_str :: "member \<Rightarrow> nat"
  cp_choice_chosen :: bool
  cp_password_new :: bool
  cp_cancelled :: bool
  cp_cookie_counter :: int

type_synonym c_object = "c_prompt \<times> memory"

text \<open>\<^verbatim>\<open>g_free (self->m); self->m = \<dots>;\<close> with a fresh copy.\<close>

definition replaceStr :: "member \<Rightarrow> string option \<Rightarrow> c_object \<Rightarrow> c_object" where
  "replaceStr f v = (\<lambda>(p, m).
     let (a, m) = g_strdup v (g_free (cp_str p f) m) in (p\<lparr>cp_str := (cp_str p)(f := a)\<rparr>, m))"

definition c_init :: c_object where
  "c_init =
     (let p = \<lparr>cp_str = (\<lambda>_. 0), cp_choice_chosen = False, cp_password_new = False, cp_cancelled = False,
               cp_cookie_counter = 0\<rparr>;
          (a, m) = g_strdup (Some ''Unlock'') emptyMemory;
          p = p\<lparr>cp_str := (cp_str p)(M_continue_label := a)\<rparr>;
          (b, m) = g_strdup (Some ''Cancel'') m
      in (p\<lparr>cp_str := (cp_str p)(M_cancel_label := b)\<rparr>, m))"

fun c_set_property :: "prompt_prop \<Rightarrow> gvalue \<Rightarrow> c_object \<Rightarrow> c_object" where
  "c_set_property PROP_TITLE v o' = replaceStr M_title (value_dup_string v) o'"
| "c_set_property PROP_MESSAGE v o' = replaceStr M_message (value_dup_string v) o'"
| "c_set_property PROP_DESCRIPTION v o' = replaceStr M_description (value_dup_string v) o'"
| "c_set_property PROP_WARNING v o' = replaceStr M_warning (value_dup_string v) o'"
| "c_set_property PROP_CHOICE_LABEL v o' = replaceStr M_choice_label (value_dup_string v) o'"
| "c_set_property PROP_CHOICE_CHOSEN v o' = ((fst o')\<lparr>cp_choice_chosen := value_get_boolean v\<rparr>, snd o')"
| "c_set_property PROP_PASSWORD_NEW v o' = ((fst o')\<lparr>cp_password_new := value_get_boolean v\<rparr>, snd o')"
| "c_set_property PROP_CALLER_WINDOW v o' = replaceStr M_caller_window (value_dup_string v) o'"
| "c_set_property PROP_CONTINUE_LABEL v o' = replaceStr M_continue_label (value_dup_string v) o'"
| "c_set_property PROP_CANCEL_LABEL v o' = replaceStr M_cancel_label (value_dup_string v) o'"
| "c_set_property PROP_PASSWORD_STRENGTH v o' = o'"

definition getStr :: "member \<Rightarrow> c_object \<Rightarrow> gvalue \<times> c_object" where
  "getStr f = (\<lambda>(p, m). let (v, m) = c_read (cp_str p f) m in (GString v, (p, m)))"

fun c_get_property :: "prompt_prop \<Rightarrow> c_object \<Rightarrow> gvalue \<times> c_object" where
  "c_get_property PROP_TITLE x = getStr M_title x"
| "c_get_property PROP_MESSAGE x = getStr M_message x"
| "c_get_property PROP_DESCRIPTION x = getStr M_description x"
| "c_get_property PROP_WARNING x = getStr M_warning x"
| "c_get_property PROP_CHOICE_LABEL x = getStr M_choice_label x"
| "c_get_property PROP_CHOICE_CHOSEN x = (GBool (cp_choice_chosen (fst x)), x)"
| "c_get_property PROP_PASSWORD_NEW x = (GBool (cp_password_new (fst x)), x)"
| "c_get_property PROP_PASSWORD_STRENGTH x = (GInt 0, x)"
| "c_get_property PROP_CALLER_WINDOW x = getStr M_caller_window x"
| "c_get_property PROP_CONTINUE_LABEL x = getStr M_continue_label x"
| "c_get_property PROP_CANCEL_LABEL x = getStr M_cancel_label x"

text \<open>\<^verbatim>\<open>finalize\<close> frees the ten members in the order of the source.\<close>

definition all_members :: "member list" where
  "all_members = [M_title, M_message, M_description, M_warning, M_choice_label, M_caller_window, M_continue_label,
     M_cancel_label, M_password, M_request_cookie]"

definition bb_auth_prompt_finalize :: "c_object \<Rightarrow> memory" where
  "bb_auth_prompt_finalize = (\<lambda>(p, m). fold (\<lambda>f. g_free (cp_str p f)) all_members m)"

definition c_generate_cookie :: "int \<Rightarrow> 32 word \<Rightarrow> c_prompt \<Rightarrow> string \<times> c_prompt" where
  "c_generate_cookie pid random p =
     (let p = p\<lparr>cp_cookie_counter := cp_cookie_counter p + 1\<rparr>
      in (''keyring-'' @ showInt pid @ ''-'' @ showInt (sint random) @ ''-'' @ showInt (cp_cookie_counter p), p))"

definition newCookie :: "int \<Rightarrow> 32 word \<Rightarrow> c_object \<Rightarrow> c_object" where
  "newCookie pid random = (\<lambda>(p, m).
     let m = g_free (cp_str p M_request_cookie) m;
         (cookie, p) = c_generate_cookie pid random p;
         (a, m) = g_strdup (Some cookie) m
     in (p\<lparr>cp_str := (cp_str p)(M_request_cookie := a)\<rparr>, m))"

section \<open>A request and its thread\<close>

text \<open>
  The thread's progress: started, with the pointers it has loaded as arguments, or waiting for the daemon
  after it followed them; \<open>t_args\<close> are the strings it read.
\<close>

datatype task = NoTask | Started "member list" | Loaded "nat list" | Waiting

record prompt_state =
  t_object :: c_object
  t_task :: task
  t_args :: "string option list"
  t_returned :: nat

text \<open>The message written to the log when a request starts reads some of the members.\<close>

definition logMembers :: "member list \<Rightarrow> c_object \<Rightarrow> c_object" where
  "logMembers fs = (\<lambda>(p, m). (p, snd (c_reads (map (cp_str p) fs) m)))"

definition password_members :: "member list" where
  "password_members = [M_request_cookie, M_title, M_message, M_description, M_warning]"

definition confirm_members :: "member list" where
  "confirm_members = [M_request_cookie, M_title, M_message, M_description]"

definition bb_auth_prompt_password_async :: "int \<Rightarrow> 32 word \<Rightarrow> prompt_state \<Rightarrow> prompt_state" where
  "bb_auth_prompt_password_async pid random s =
     s\<lparr>t_object := logMembers [M_request_cookie, M_title, M_message, M_warning] (newCookie pid random (t_object s)),
       t_task := Started password_members\<rparr>"

definition bb_auth_prompt_confirm_async :: "int \<Rightarrow> 32 word \<Rightarrow> prompt_state \<Rightarrow> prompt_state" where
  "bb_auth_prompt_confirm_async pid random s =
     s\<lparr>t_object := logMembers [M_request_cookie, M_title] (newCookie pid random (t_object s)),
       t_task := Started confirm_members\<rparr>"

definition thread_loads :: "prompt_state \<Rightarrow> prompt_state" where
  "thread_loads s =
     (case t_task s of Started fs \<Rightarrow> s\<lparr>t_task := Loaded (map (cp_str (fst (t_object s))) fs)\<rparr> | _ \<Rightarrow> s)"

definition thread_sends :: "prompt_state \<Rightarrow> prompt_state" where
  "thread_sends s =
     (case t_task s of
        Loaded as \<Rightarrow> (let (p, m) = t_object s; (vs, m) = c_reads as m
                     in s\<lparr>t_object := (p, m), t_task := Waiting, t_args := vs\<rparr>)
      | _ \<Rightarrow> s)"

text \<open>The end of \<^verbatim>\<open>password_request_thread\<close>: \<open>reply\<close> is the password of the daemon's answer, a block
  of its own once it is copied.\<close>

definition password_done :: "string option \<Rightarrow> bool \<Rightarrow> prompt_state \<Rightarrow> prompt_state" where
  "password_done reply taskCancelled s =
     (let (p, m) = t_object s;
          (password, m) = g_strdup reply m;
          s = s\<lparr>t_task := NoTask\<rparr>
      in if taskCancelled then s\<lparr>t_object := (p, g_free password m), t_returned := 0\<rparr>
         else if password \<noteq> 0
         then let m = g_free (cp_str p M_password) m;
                  p = p\<lparr>cp_str := (cp_str p)(M_password := password), cp_cancelled := False\<rparr>
              in s\<lparr>t_object := (p, m), t_returned := password\<rparr>
         else s\<lparr>t_object := (p\<lparr>cp_cancelled := True\<rparr>, g_free password m), t_returned := 0\<rparr>)"

definition confirm_done :: "prompt_state \<Rightarrow> prompt_state" where
  "confirm_done s = s\<lparr>t_task := NoTask\<rparr>"

text \<open>\<^verbatim>\<open>bb_auth_prompt_close\<close> reads the cookie.\<close>

definition c_close :: "prompt_state \<Rightarrow> prompt_state" where
  "c_close s = s\<lparr>t_object := logMembers [M_request_cookie] (t_object s)\<rparr>"

datatype prompt_op =
    SetProperty prompt_prop gvalue
  | GetProperty prompt_prop
  | PasswordAsync "32 word"
  | ConfirmAsync "32 word"
  | ThreadLoads
  | ThreadSends
  | PasswordDone "string option" bool
  | ConfirmDone
  | ClosePrompt

fun prompt_do :: "int \<Rightarrow> prompt_op \<Rightarrow> prompt_state \<Rightarrow> prompt_state" where
  "prompt_do pid (SetProperty pr v) s = s\<lparr>t_object := c_set_property pr v (t_object s)\<rparr>"
| "prompt_do pid (GetProperty pr) s = s\<lparr>t_object := snd (c_get_property pr (t_object s))\<rparr>"
| "prompt_do pid (PasswordAsync r) s = bb_auth_prompt_password_async pid r s"
| "prompt_do pid (ConfirmAsync r) s = bb_auth_prompt_confirm_async pid r s"
| "prompt_do pid ThreadLoads s = thread_loads s"
| "prompt_do pid ThreadSends s = thread_sends s"
| "prompt_do pid (PasswordDone reply c) s = password_done reply c s"
| "prompt_do pid ConfirmDone s = confirm_done s"
| "prompt_do pid ClosePrompt s = c_close s"

definition prompt_run :: "int \<Rightarrow> prompt_op list \<Rightarrow> prompt_state \<Rightarrow> prompt_state" where
  "prompt_run pid ops s = fold (prompt_do pid) ops s"

definition new_prompt :: prompt_state where
  "new_prompt = \<lparr>t_object = c_init, t_task = NoTask, t_args = [], t_returned = 0\<rparr>"

text \<open>
  What libgcr does with a prompt: it sets properties and starts a request only while none is running, and
  may read properties and close the prompt at any time; the thread goes through its stages in order.
\<close>

fun gcr_allows :: "prompt_op \<Rightarrow> task \<Rightarrow> bool" where
  "gcr_allows (SetProperty pr v) t \<longleftrightarrow> t = NoTask"
| "gcr_allows (GetProperty pr) t \<longleftrightarrow> True"
| "gcr_allows (PasswordAsync r) t \<longleftrightarrow> t = NoTask"
| "gcr_allows (ConfirmAsync r) t \<longleftrightarrow> t = NoTask"
| "gcr_allows ThreadLoads t \<longleftrightarrow> (case t of Started fs \<Rightarrow> True | _ \<Rightarrow> False)"
| "gcr_allows ThreadSends t \<longleftrightarrow> (case t of Loaded xs \<Rightarrow> True | _ \<Rightarrow> False)"
| "gcr_allows (PasswordDone reply c) t \<longleftrightarrow> t = Waiting"
| "gcr_allows ConfirmDone t \<longleftrightarrow> t = Waiting"
| "gcr_allows ClosePrompt t \<longleftrightarrow> True"

fun gcr_run :: "int \<Rightarrow> prompt_op list \<Rightarrow> prompt_state \<Rightarrow> bool" where
  "gcr_run pid [] s \<longleftrightarrow> True"
| "gcr_run pid (x # xs) s \<longleftrightarrow> gcr_allows x (t_task s) \<and> gcr_run pid xs (prompt_do pid x s)"

section \<open>Ownership\<close>

text \<open>The live blocks are exactly those the members point to, each from one member; addresses are handed
  out in increasing order.\<close>

definition owns :: "c_object \<Rightarrow> bool" where
  "owns = (\<lambda>(p, m). \<not> m_fault m \<and> hash_wf (m_blocks m) \<and> 0 < m_next m
     \<and> (\<forall>a. hash_has (m_blocks m) a \<longleftrightarrow> a \<noteq> 0 \<and> (\<exists>f. cp_str p f = a))
     \<and> (\<forall>f g. cp_str p f = cp_str p g \<longrightarrow> cp_str p f \<noteq> 0 \<longrightarrow> f = g)
     \<and> (\<forall>f. cp_str p f < m_next m))"

definition deref :: "memory \<Rightarrow> nat \<Rightarrow> string option" where
  "deref m a = (if a = 0 then None else hash_find (m_blocks m) a)"

lemma owns_live: "owns (p, m) \<Longrightarrow> cp_str p f \<noteq> 0 \<Longrightarrow> hash_has (m_blocks m) (cp_str p f)"
  by (auto simp: owns_def)

lemma owns_flags [simp]:
  "owns (p\<lparr>cp_choice_chosen := b\<rparr>, m) = owns (p, m)" "owns (p\<lparr>cp_password_new := b\<rparr>, m) = owns (p, m)"
  "owns (p\<lparr>cp_cancelled := b\<rparr>, m) = owns (p, m)" "owns (p\<lparr>cp_cookie_counter := n\<rparr>, m) = owns (p, m)"
  by (simp_all add: owns_def)

lemma ownsI:
  assumes "\<not> m_fault m" and "hash_wf (m_blocks m)" and "0 < m_next m"
    and "\<And>a. hash_has (m_blocks m) a \<longleftrightarrow> a \<noteq> 0 \<and> (\<exists>f. cp_str p f = a)"
    and "\<And>f g. cp_str p f = cp_str p g \<longrightarrow> cp_str p f \<noteq> 0 \<longrightarrow> f = g"
    and "\<And>f. cp_str p f < m_next m"
  shows "owns (p, m)"
  unfolding owns_def prod.case using assms by blast

lemma owns_free:
  assumes "owns (p, m)"
  shows "owns (p\<lparr>cp_str := (cp_str p)(f := 0)\<rparr>, g_free (cp_str p f) m)"
  using assms by (auto simp: owns_def g_free_def)

lemma owns_fresh: "owns (p, m) \<Longrightarrow> cp_str p g \<noteq> m_next m" "owns (p, m) \<Longrightarrow> hash_find (m_blocks m) (m_next m) = None"
proof -
  assume o: "owns (p, m)"
  show n: "cp_str p g \<noteq> m_next m" for g using o by (auto simp: owns_def) (metis less_irrefl)
  have "hash_has (m_blocks m) (m_next m) \<longleftrightarrow> m_next m \<noteq> 0 \<and> (\<exists>f. cp_str p f = m_next m)"
    using o unfolding owns_def by simp
  then show "hash_find (m_blocks m) (m_next m) = None" using n by (simp add: hash_has_def)
qed

lemma owns_store:
  assumes "owns (p, m)" and "cp_str p f = 0"
  shows "owns (p\<lparr>cp_str := (cp_str p)(f := fst (g_strdup v m))\<rparr>, snd (g_strdup v m))"
proof (cases v)
  case None
  have "(cp_str p)(f := 0) = cp_str p" using assms(2) by (metis fun_upd_triv)
  with None assms(1) show ?thesis by (simp add: g_strdup_def)
next
  case (Some x)
  note fresh = owns_fresh [OF assms(1)]
  have lt: "cp_str p g < m_next m" for g using assms(1) by (simp add: owns_def)
  let ?q = "(cp_str p)(f := m_next m)"
  have blocks: "a = m_next m \<or> hash_has (m_blocks m) a \<longleftrightarrow> a \<noteq> 0 \<and> (\<exists>g. ?q g = a)" for a
  proof -
    have "(\<exists>g. ?q g = a) \<longleftrightarrow> a = m_next m \<or> (\<exists>g. g \<noteq> f \<and> cp_str p g = a)" by auto
    moreover have "(\<exists>g. g \<noteq> f \<and> cp_str p g = a) \<longleftrightarrow> (\<exists>g. cp_str p g = a)" if "a \<noteq> 0" using that assms(2) by metis
    moreover have "0 < m_next m" using assms(1) by (simp add: owns_def)
    moreover have "hash_has (m_blocks m) a \<longleftrightarrow> a \<noteq> 0 \<and> (\<exists>g. cp_str p g = a)" using assms(1) by (simp add: owns_def)
    ultimately show ?thesis by (cases "a = 0") simp_all
  qed
  have inj: "?q g = ?q h \<longrightarrow> ?q g \<noteq> 0 \<longrightarrow> g = h" for g h
  proof -
    have "cp_str p g = cp_str p h \<longrightarrow> cp_str p g \<noteq> 0 \<longrightarrow> g = h" using assms(1) by (simp add: owns_def)
    then show ?thesis using fresh(1) [of g] fresh(1) [of h] by (cases "g = f"; cases "h = f") simp_all
  qed
  have lt': "?q g < Suc (m_next m)" for g using lt [of g] by simp
  have wf: "hash_wf (hash_put (m_next m) x (m_blocks m))" and ok: "\<not> m_fault m" using assms(1) by (auto simp: owns_def)
  let ?p = "p\<lparr>cp_str := ?q\<rparr>"
  let ?m = "m\<lparr>m_blocks := hash_put (m_next m) x (m_blocks m), m_next := Suc (m_next m)\<rparr>"
  have "owns (?p, ?m)"
  proof (rule ownsI)
    show "cp_str ?p g = cp_str ?p h \<longrightarrow> cp_str ?p g \<noteq> 0 \<longrightarrow> g = h" for g h
      using inj [of g h] by (simp del: fun_upd_apply)
    show "hash_has (m_blocks ?m) a \<longleftrightarrow> a \<noteq> 0 \<and> (\<exists>g. cp_str ?p g = a)" for a
      using blocks [of a] by (simp del: fun_upd_apply)
    show "cp_str ?p g < m_next ?m" for g using lt' [of g] by (simp del: fun_upd_apply)
  qed (simp_all add: wf ok)
  then show ?thesis by (simp add: Some g_strdup_def)
qed

lemma owns_replace:
  assumes "owns (p, m)" shows "owns (replaceStr f v (p, m))"
  using owns_store [OF owns_free [OF assms, of f], of f v] by (simp add: replaceStr_def Let_def case_prod_beta)

lemma deref_replace:
  assumes "owns (p, m)" and "replaceStr f v (p, m) = (q, n)"
  shows "deref n (cp_str q g) = (if g = f then v else deref m (cp_str p g))"
    and "q = p\<lparr>cp_str := cp_str q\<rparr>"
proof -
  have ne: "cp_str p g \<noteq> cp_str p f \<or> cp_str p g = 0" if "g \<noteq> f"
    using assms(1) that by (auto simp: owns_def)
  have fr: "cp_str p g \<noteq> m_next m" "m_next m \<noteq> 0" using owns_fresh [OF assms(1)] assms(1) by (auto simp: owns_def)
  have nx: "m_next (g_free a m) = m_next m" for a by (simp add: g_free_def)
  have fd: "hash_find (m_blocks (g_free (cp_str p f) m)) a = (if a = cp_str p f \<and> a \<noteq> 0 then None else hash_find (m_blocks m) a)" for a
    using owns_live [OF assms(1), of f] by (auto simp: g_free_def hash_has_def)
  show "deref n (cp_str q g) = (if g = f then v else deref m (cp_str p g))"
    using assms(2) ne fr by (auto simp: replaceStr_def g_strdup_def deref_def nx fd split: option.splits)
  show "q = p\<lparr>cp_str := cp_str q\<rparr>"
    using assms(2) by (auto simp: replaceStr_def case_prod_beta)
qed

lemma c_read_live: "a = 0 \<or> hash_has (m_blocks m) a \<Longrightarrow> c_read a m = (deref m a, m)"
  by (auto simp: c_read_def deref_def hash_has_def)

lemma c_reads_live:
  "\<forall>a \<in> set xs. a = 0 \<or> hash_has (m_blocks m) a \<Longrightarrow> c_reads xs m = (map (deref m) xs, m)"
  by (induction xs) (auto simp: c_read_live)

lemma c_reads_members: "owns (p, m) \<Longrightarrow> c_reads (map (cp_str p) fs) m = (map (\<lambda>f. deref m (cp_str p f)) fs, m)"
  using owns_live by (subst c_reads_live) auto

lemma logMembers_owned [simp]: "owns x \<Longrightarrow> logMembers fs x = x"
  by (cases x) (simp add: logMembers_def c_reads_members)

lemma getStr_owned:
  assumes "owns (p, m)" shows "getStr f (p, m) = (GString (deref m (cp_str p f)), (p, m))"
proof -
  have "cp_str p f = 0 \<or> hash_has (m_blocks m) (cp_str p f)" using owns_live [OF assms] by blast
  then show ?thesis by (simp add: getStr_def c_read_live)
qed

lemma get_property_frame: "owns x \<Longrightarrow> snd (c_get_property pr x) = x"
  by (cases x; cases pr) (simp_all add: getStr_owned)

lemma newCookie_replace:
  "newCookie pid r (p, m) =
     replaceStr M_request_cookie (Some (fst (c_generate_cookie pid r p))) (snd (c_generate_cookie pid r p), m)"
  by (simp add: newCookie_def replaceStr_def c_generate_cookie_def Let_def case_prod_beta)

lemma owns_set_property: "owns x \<Longrightarrow> owns (c_set_property pr v x)"
  by (cases x; cases pr) (simp_all add: owns_replace)

lemma owns_newCookie: "owns x \<Longrightarrow> owns (newCookie pid r x)"
  by (cases x) (simp add: newCookie_replace owns_replace c_generate_cookie_def)

lemma owns_next: "owns (p, m) \<Longrightarrow> owns (p, m\<lparr>m_next := Suc (m_next m)\<rparr>)"
  by (auto simp: owns_def less_Suc_eq)

text \<open>What the end of the thread does to the object.\<close>

lemma password_done_object:
  assumes "owns (p, m)" and "t_object s = (p, m)"
  shows "t_object (password_done reply c s) =
    (case reply of
       None \<Rightarrow> (if c then p else p\<lparr>cp_cancelled := True\<rparr>, m)
     | Some x \<Rightarrow> if c then (p, m\<lparr>m_next := Suc (m_next m)\<rparr>)
                 else let (q, n) = replaceStr M_password (Some x) (p, m) in (q\<lparr>cp_cancelled := False\<rparr>, n))"
proof (cases reply)
  case None
  then show ?thesis using assms(2) by (simp add: password_done_def g_strdup_def g_free_def Let_def)
next
  case (Some x)
  have a: "m_next m \<noteq> 0" "hash_find (m_blocks m) (m_next m) = None" "cp_str p M_password \<noteq> m_next m"
    using owns_fresh [OF assms(1)] assms(1) by (auto simp: owns_def)
  have "hash_del (m_next m) (hash_put (m_next m) x (m_blocks m)) = m_blocks m"
    using a(2) by (simp add: delete_update_same hash_del_absent hash_has_def)
  moreover have "hash_del (cp_str p M_password) (hash_put (m_next m) x (m_blocks m))
      = hash_put (m_next m) x (hash_del (cp_str p M_password) (m_blocks m))"
    using a(3) by (simp add: delete_update)
  ultimately show ?thesis
    using assms(2) a Some owns_live [OF assms(1), of M_password]
    by (auto simp: password_done_def g_strdup_def g_free_def replaceStr_def Let_def)
qed

lemma owns_init: "owns c_init"
  by (auto simp: owns_def c_init_def g_strdup_def emptyMemory_def Let_def hash_wf_def)

section \<open>No use after free, no double free, no leak\<close>

definition prompt_ok :: "prompt_state \<Rightarrow> bool" where
  "prompt_ok s \<longleftrightarrow> owns (t_object s)
     \<and> (\<forall>xs. t_task s = Loaded xs \<longrightarrow> (\<forall>a \<in> set xs. a = 0 \<or> hash_has (m_blocks (snd (t_object s))) a))"

lemma owns_password_done: "owns (t_object s) \<Longrightarrow> owns (t_object (password_done reply c s))"
proof -
  obtain p m where o: "t_object s = (p, m)" by force
  assume "owns (t_object s)"
  then have w: "owns (p, m)" using o by simp
  show "owns (t_object (password_done reply c s))"
    using owns_replace [OF w, of M_password reply] w owns_next [OF w]
    by (cases reply) (auto simp: password_done_object [OF w o] Let_def case_prod_beta)
qed

lemma done_tasks [simp]: "t_task (password_done reply c s) = NoTask" "t_task (confirm_done s) = NoTask"
  by (simp_all add: password_done_def confirm_done_def Let_def case_prod_beta)

lemma prompt_ok_do:
  assumes "prompt_ok s" and "gcr_allows x (t_task s)"
  shows "prompt_ok (prompt_do pid x s)"
proof -
  obtain p m where o: "t_object s = (p, m)" by force
  have w: "owns (p, m)" using assms(1) o by (simp add: prompt_ok_def)
  show ?thesis
  proof (cases x)
    case (PasswordDone reply c)
    then show ?thesis using owns_password_done [of s reply c] w o by (simp add: prompt_ok_def)
  next
    case ThreadLoads
    then obtain fs where fs: "t_task s = Started fs" using assms(2) by (auto split: task.splits)
    have "a = 0 \<or> hash_has (m_blocks m) a" if "a \<in> set (map (cp_str p) fs)" for a
      using owns_live [OF w] that by auto
    then show ?thesis using ThreadLoads fs w o by (simp add: prompt_ok_def thread_loads_def)
  next
    case ThreadSends
    then obtain xs where xs: "t_task s = Loaded xs" using assms(2) by (auto split: task.splits)
    then have "c_reads xs m = (map (deref m) xs, m)" using assms(1) o by (intro c_reads_live) (auto simp: prompt_ok_def)
    then show ?thesis using ThreadSends xs w o by (simp add: prompt_ok_def thread_sends_def)
  qed (use assms w o owns_newCookie [OF w] owns_set_property [OF w] get_property_frame [OF w]
        in \<open>auto simp: prompt_ok_def bb_auth_prompt_password_async_def bb_auth_prompt_confirm_async_def confirm_done_def
             c_close_def\<close>)
qed

lemma prompt_ok_run: "prompt_ok s \<Longrightarrow> gcr_run pid ops s \<Longrightarrow> prompt_ok (prompt_run pid ops s)"
  by (induction pid ops s rule: gcr_run.induct) (auto simp: prompt_run_def prompt_ok_do)

lemma prompt_ok_new: "prompt_ok new_prompt"
  by (simp add: prompt_ok_def new_prompt_def owns_init)

lemma free_members:
  assumes "owns (p, m)" and "distinct fs"
  shows "owns (p\<lparr>cp_str := (\<lambda>f. if f \<in> set fs then 0 else cp_str p f)\<rparr>, fold (\<lambda>f. g_free (cp_str p f)) fs m)"
  using assms
proof (induction fs arbitrary: p m)
  case (Cons f fs)
  let ?q = "p\<lparr>cp_str := (cp_str p)(f := 0)\<rparr>"
  have "owns (?q\<lparr>cp_str := (\<lambda>g. if g \<in> set fs then 0 else cp_str ?q g)\<rparr>,
      fold (\<lambda>g. g_free (cp_str ?q g)) fs (g_free (cp_str p f) m))"
    by (rule Cons.IH [OF owns_free [OF Cons.prems(1)]]) (use Cons.prems(2) in simp)
  moreover have "fold (\<lambda>g. g_free (cp_str ?q g)) fs n = fold (\<lambda>g. g_free (cp_str p g)) fs n" for n
    using Cons.prems(2) by (intro fold_cong) auto
  moreover have "(\<lambda>g. if g \<in> set fs then 0 else cp_str ?q g) = (\<lambda>g. if g \<in> set (f # fs) then 0 else cp_str p g)"
    by auto
  ultimately show ?case by simp
qed simp

lemma finalize_frees_all:
  assumes "owns x"
  shows "m_blocks (bb_auth_prompt_finalize x) = [] \<and> \<not> m_fault (bb_auth_prompt_finalize x)"
proof -
  obtain p m where x: "x = (p, m)" by force
  have all: "f \<in> set all_members" for f by (cases f) (simp_all add: all_members_def)
  have "owns (p\<lparr>cp_str := (\<lambda>f. if f \<in> set all_members then 0 else cp_str p f)\<rparr>, bb_auth_prompt_finalize x)"
    using free_members [of p m all_members] assms
    by (simp add: x bb_auth_prompt_finalize_def) (simp add: all_members_def)
  then have o: "owns (p\<lparr>cp_str := (\<lambda>f. 0)\<rparr>, bb_auth_prompt_finalize x)" using all by simp
  then have "\<not> hash_has (m_blocks (bb_auth_prompt_finalize x)) a" for a by (auto simp: owns_def)
  then have "m_blocks (bb_auth_prompt_finalize x) = []"
    by (metis hash_has_Cons list.exhaust surj_pair)
  then show ?thesis using o by (simp add: owns_def)
qed

text \<open>C17: the prompt object manages its memory correctly.  However many properties are set and requests
  made, answered, cancelled or closed, as long as libgcr keeps to one request at a time and sets
  properties between requests, no block is used after it was freed or freed twice, the live blocks
  are exactly those the members point to, and finalizing the prompt frees them all.\<close>

theorem prompt_memory_safe:
  assumes "gcr_run pid ops new_prompt"
  shows "\<not> m_fault (snd (t_object (prompt_run pid ops new_prompt)))
    \<and> set (hash_keys (m_blocks (snd (t_object (prompt_run pid ops new_prompt)))))
        = range (cp_str (fst (t_object (prompt_run pid ops new_prompt)))) - {0}
    \<and> m_blocks (bb_auth_prompt_finalize (t_object (prompt_run pid ops new_prompt))) = []
    \<and> \<not> m_fault (bb_auth_prompt_finalize (t_object (prompt_run pid ops new_prompt)))"
proof -
  have o: "owns (t_object (prompt_run pid ops new_prompt))"
    using prompt_ok_run [OF prompt_ok_new assms] by (simp add: prompt_ok_def)
  obtain p m where x: "t_object (prompt_run pid ops new_prompt) = (p, m)" by force
  have "a \<in> set (hash_keys (m_blocks m)) \<longleftrightarrow> a \<in> range (cp_str p) - {0}" for a
    using o unfolding x owns_def hash_has_keys [symmetric] by auto
  then have "set (hash_keys (m_blocks m)) = range (cp_str p) - {0}" by blast
  then show ?thesis using o finalize_frees_all [OF o] by (simp add: x owns_def)
qed

section \<open>Refinement\<close>

text \<open>The object the pointers stand for.\<close>

definition valuesOf :: "c_object \<Rightarrow> bb_prompt" where
  "valuesOf = (\<lambda>(p, m).
     \<lparr>bp_title = deref m (cp_str p M_title), bp_message = deref m (cp_str p M_message),
      bp_description = deref m (cp_str p M_description), bp_warning = deref m (cp_str p M_warning),
      bp_choice_label = deref m (cp_str p M_choice_label), bp_choice_chosen = cp_choice_chosen p,
      bp_password_new = cp_password_new p, bp_caller_window = deref m (cp_str p M_caller_window),
      bp_continue_label = deref m (cp_str p M_continue_label), bp_cancel_label = deref m (cp_str p M_cancel_label),
      bp_password = deref m (cp_str p M_password), bp_request_cookie = deref m (cp_str p M_request_cookie),
      bp_cancelled = cp_cancelled p, bp_cookie_counter = cp_cookie_counter p\<rparr>)"

fun putMember :: "member \<Rightarrow> string option \<Rightarrow> bb_prompt \<Rightarrow> bb_prompt" where
  "putMember M_title v b = b\<lparr>bp_title := v\<rparr>"
| "putMember M_message v b = b\<lparr>bp_message := v\<rparr>"
| "putMember M_description v b = b\<lparr>bp_description := v\<rparr>"
| "putMember M_warning v b = b\<lparr>bp_warning := v\<rparr>"
| "putMember M_choice_label v b = b\<lparr>bp_choice_label := v\<rparr>"
| "putMember M_caller_window v b = b\<lparr>bp_caller_window := v\<rparr>"
| "putMember M_continue_label v b = b\<lparr>bp_continue_label := v\<rparr>"
| "putMember M_cancel_label v b = b\<lparr>bp_cancel_label := v\<rparr>"
| "putMember M_password v b = b\<lparr>bp_password := v\<rparr>"
| "putMember M_request_cookie v b = b\<lparr>bp_request_cookie := v\<rparr>"

lemma values_replace:
  assumes "owns (p, m)" shows "valuesOf (replaceStr f v (p, m)) = putMember f v (valuesOf (p, m))"
proof -
  obtain q n where r: "replaceStr f v (p, m) = (q, n)" by force
  note d = deref_replace(1) [OF assms r]
  have "cp_choice_chosen q = cp_choice_chosen p \<and> cp_password_new q = cp_password_new p
      \<and> cp_cancelled q = cp_cancelled p \<and> cp_cookie_counter q = cp_cookie_counter p"
    by (subst (1 2 3 4) deref_replace(2) [OF assms r]) simp
  then have "valuesOf (q, n) = putMember f v (valuesOf (p, m))" by (cases f) (simp_all add: valuesOf_def d)
  then show ?thesis by (simp add: r)
qed

lemma values_set_property:
  "owns x \<Longrightarrow> valuesOf (c_set_property pr v x) = bb_auth_prompt_set_property pr v (valuesOf x)"
  by (cases x; cases pr) (simp_all add: values_replace, simp_all add: valuesOf_def)

lemma values_get_property:
  "owns x \<Longrightarrow> c_get_property pr x = (bb_auth_prompt_get_property pr (valuesOf x), x)"
  by (cases x; cases pr) (simp_all add: getStr_owned valuesOf_def)

lemma values_newCookie:
  assumes "owns x"
  shows "valuesOf (newCookie pid r x) =
    (let (c, b) = generate_cookie pid r (valuesOf x) in b\<lparr>bp_request_cookie := Some c\<rparr>)"
proof -
  obtain p m where x: "x = (p, m)" by force
  have "owns (snd (c_generate_cookie pid r p), m)" using assms by (simp add: x c_generate_cookie_def)
  from values_replace [OF this, of M_request_cookie] show ?thesis
    by (simp add: x newCookie_replace) (simp add: c_generate_cookie_def generate_cookie_def valuesOf_def Let_def)
qed

lemma password_done_values:
  assumes "owns (t_object s)"
  shows "valuesOf (t_object (password_done reply c s)) =
      (if c then valuesOf (t_object s)
       else case reply of None \<Rightarrow> (valuesOf (t_object s))\<lparr>bp_cancelled := True\<rparr>
            | Some x \<Rightarrow> (valuesOf (t_object s))\<lparr>bp_password := Some x, bp_cancelled := False\<rparr>)"
    and "deref (snd (t_object (password_done reply c s))) (t_returned (password_done reply c s)) = (if c then None else reply)"
proof -
  obtain p m where o: "t_object s = (p, m)" by force
  have w: "owns (p, m)" using assms o by simp
  have fl: "valuesOf (q\<lparr>cp_cancelled := b\<rparr>, n) = (valuesOf (q, n))\<lparr>bp_cancelled := b\<rparr>" for q n b
    by (simp add: valuesOf_def)
  have nx: "valuesOf (p, m\<lparr>m_next := k\<rparr>) = valuesOf (p, m)" for k by (simp add: valuesOf_def deref_def)
  show "valuesOf (t_object (password_done reply c s)) =
      (if c then valuesOf (t_object s)
       else case reply of None \<Rightarrow> (valuesOf (t_object s))\<lparr>bp_cancelled := True\<rparr>
            | Some x \<Rightarrow> (valuesOf (t_object s))\<lparr>bp_password := Some x, bp_cancelled := False\<rparr>)"
    using values_replace [OF w, of M_password reply]
    by (cases reply) (simp_all add: password_done_object [OF w o] o fl nx Let_def case_prod_beta)
  have a: "m_next m \<noteq> 0" "cp_str p M_password \<noteq> m_next m" using owns_fresh [OF w] w by (auto simp: owns_def)
  then show "deref (snd (t_object (password_done reply c s))) (t_returned (password_done reply c s)) = (if c then None else reply)"
    by (cases reply) (auto simp: password_done_def o g_strdup_def g_free_def deref_def Let_def)
qed

text \<open>The state of the thread when it waits for the daemon: it has read the members of the object as
  they were when the request started.\<close>

definition waiting_state :: "int \<Rightarrow> prompt_op \<Rightarrow> prompt_state \<Rightarrow> prompt_state" where
  "waiting_state pid start s = prompt_run pid [start, ThreadLoads, ThreadSends] s"

lemma waiting_password:
  assumes "owns (t_object s)"
  shows "t_object (waiting_state pid (PasswordAsync r) s) = newCookie pid r (t_object s)"
    and "t_args (waiting_state pid (PasswordAsync r) s) =
      (let b = valuesOf (newCookie pid r (t_object s))
       in [bp_request_cookie b, bp_title b, bp_message b, bp_description b, bp_warning b])"
proof -
  obtain p m where n: "newCookie pid r (t_object s) = (p, m)" by force
  have w: "owns (p, m)" using owns_newCookie [OF assms, of pid r] n by simp
  note rd = c_reads_members [OF w, of password_members]
  show "t_object (waiting_state pid (PasswordAsync r) s) = newCookie pid r (t_object s)"
    "t_args (waiting_state pid (PasswordAsync r) s) =
      (let b = valuesOf (newCookie pid r (t_object s))
       in [bp_request_cookie b, bp_title b, bp_message b, bp_description b, bp_warning b])"
    using w rd n
    by (simp_all add: waiting_state_def prompt_run_def bb_auth_prompt_password_async_def thread_loads_def
        thread_sends_def Let_def, simp add: password_members_def valuesOf_def)
qed

lemma request_success:
  "bb_auth_ipc_send_keyring_request io toJson fromJson c t' m d w n = Returned (ok, pw) \<Longrightarrow> ok \<longleftrightarrow> pw \<noteq> None"
  by (auto simp: bb_auth_ipc_send_keyring_request_def split: c_run.splits option.splits) metis

text \<open>C18: the object with pointers does what the object with values does.  In every state libgcr can
  bring it to, setting and reading a property and a whole password request (started, its arguments
  loaded and read by the thread, answered or cancelled) have the effect and the result of the
  functions on values, the password being read through the pointer the task returns.\<close>

theorem prompt_memory_refines:
  assumes "gcr_run pid ops new_prompt" and "s = prompt_run pid ops new_prompt"
    and "w = waiting_state pid (PasswordAsync r) s"
  shows "valuesOf (t_object (prompt_do pid (SetProperty pr v) s)) = bb_auth_prompt_set_property pr v (valuesOf (t_object s))
    \<and> fst (c_get_property pr (t_object s)) = bb_auth_prompt_get_property pr (valuesOf (t_object s))
    \<and> bb_auth_prompt_password io toJson fromJson pid r c (valuesOf (t_object s)) =
        (case bb_auth_ipc_send_keyring_request io toJson fromJson (the (t_args w ! 0))
                (Some (orNull (t_args w ! 1) ''Unlock Keyring'')) (Some (orNull (t_args w ! 2) ''Password required''))
                (t_args w ! 3) (t_args w ! 4) (cp_password_new (fst (t_object w))) of
           Crashed \<Rightarrow> Crashed
         | Returned (ok, reply) \<Rightarrow>
             Returned (if c then TaskCancelled
                       else TaskValue (deref (snd (t_object (password_done reply c w))) (t_returned (password_done reply c w))),
                       valuesOf (t_object (password_done reply c w))))"
proof (intro conjI)
  have o: "owns (t_object s)" using prompt_ok_run [OF prompt_ok_new assms(1)] assms(2) by (simp add: prompt_ok_def)
  show "valuesOf (t_object (prompt_do pid (SetProperty pr v) s)) = bb_auth_prompt_set_property pr v (valuesOf (t_object s))"
    by (simp add: values_set_property o)
  show "fst (c_get_property pr (t_object s)) = bb_auth_prompt_get_property pr (valuesOf (t_object s))"
    by (simp add: values_get_property o)
  note w = waiting_password [OF o, of pid r, folded assms(3)]
  have ow: "owns (t_object w)" using owns_newCookie [OF o] w(1) by simp
  let ?b = "valuesOf (t_object w)"
  have b: "(let (k, b) = generate_cookie pid r (valuesOf (t_object s)) in b\<lparr>bp_request_cookie := Some k\<rparr>) = ?b"
    using values_newCookie [OF o, of pid r] w(1) by simp
  have n: "cp_password_new (fst (t_object w)) = bp_password_new ?b" by (simp add: valuesOf_def case_prod_beta)
  have "bb_auth_prompt_password io toJson fromJson pid r c (valuesOf (t_object s))
      = password_request_thread io toJson fromJson c ?b"
    using b by (simp add: bb_auth_prompt_password_def case_prod_beta)
  also have "\<dots> = (case bb_auth_ipc_send_keyring_request io toJson fromJson (the (t_args w ! 0))
                (Some (orNull (t_args w ! 1) ''Unlock Keyring'')) (Some (orNull (t_args w ! 2) ''Password required''))
                (t_args w ! 3) (t_args w ! 4) (cp_password_new (fst (t_object w))) of
           Crashed \<Rightarrow> Crashed
         | Returned (ok, reply) \<Rightarrow>
             Returned (if c then TaskCancelled
                       else TaskValue (deref (snd (t_object (password_done reply c w))) (t_returned (password_done reply c w))),
                       valuesOf (t_object (password_done reply c w))))"
    unfolding password_request_thread_def n password_done_values [OF ow]
    using request_success [of io toJson fromJson "the (bp_request_cookie ?b)"
        "Some (orNull (bp_title ?b) ''Unlock Keyring'')" "Some (orNull (bp_message ?b) ''Password required'')"
        "bp_description ?b" "bp_warning ?b" "bp_password_new ?b"]
    by (auto simp: w(2) Let_def simp flip: w(1) split: c_run.split option.split)
  finally show "bb_auth_prompt_password io toJson fromJson pid r c (valuesOf (t_object s)) = \<dots>" .
qed

section \<open>Why the discipline is needed\<close>

definition example_ops :: "prompt_op list" where
  "example_ops = [SetProperty PROP_TITLE (GString (Some ''Unlock'')), PasswordAsync 7, ThreadLoads, ThreadSends,
     PasswordDone (Some ''pw'') False, SetProperty PROP_TITLE (GString (Some ''Again'')), ConfirmAsync 8, ClosePrompt,
     ThreadLoads, ThreadSends, ConfirmDone]"

theorem prompt_memory_safe_witness:
  "gcr_run 42 example_ops new_prompt
   \<and> length (m_blocks (snd (t_object (prompt_run 42 example_ops new_prompt)))) = 5
   \<and> m_blocks (bb_auth_prompt_finalize (t_object (prompt_run 42 example_ops new_prompt))) = []"
proof -
  have r: "gcr_run 42 example_ops new_prompt" by code_simp
  have l: "length (m_blocks (snd (t_object (prompt_run 42 example_ops new_prompt)))) = 5" by code_simp
  show ?thesis using prompt_memory_safe [OF r] r l by simp
qed

theorem prompt_memory_refines_witness:
  "bp_title (valuesOf (t_object (prompt_do 42 (SetProperty PROP_TITLE (GString (Some ''New''))) (prompt_run 42 example_ops new_prompt))))
   = Some ''New''"
proof -
  have r: "gcr_run 42 example_ops new_prompt" by code_simp
  show ?thesis
    using prompt_memory_refines [OF r refl refl, of PROP_TITLE "GString (Some ''New'')"] by simp
qed

text \<open>A property that is set while the thread holds the pointers it has loaded makes it read freed memory.\<close>

lemma property_change_races:
  "m_fault (snd (t_object (prompt_run 42 [SetProperty PROP_TITLE (GString (Some ''a'')), PasswordAsync 7, ThreadLoads,
     SetProperty PROP_TITLE (GString (Some ''b'')), ThreadSends] new_prompt)))"
  by code_simp

end
