(* ===== verification/Daemon.thy ===== *)
theory Daemon
  imports Ipc_Server
begin

text \<open>
  The daemon: the IPC server of \<^verbatim>\<open>Ipc_Server\<close> with the agent's message handler installed,
  as \<^verbatim>\<open>CAgent::start\<close> wires them.  A step is one event of the Qt loop at the level of
  bytes; the daemon refines the agent's transition system, so every invariant of the agent holds
  whatever bytes the clients send.
\<close>

section \<open>A handler behind the server\<close>

text \<open>What the server is used with: a state predicate kept by the handler and by error replies.\<close>

locale message_sink =
  fixes fromJson :: "string \<Rightarrow> string + json"
    and reply :: "socket \<Rightarrow> jobject \<Rightarrow> 'a \<Rightarrow> 'a"
    and handler :: "'a message_handler"
    and good :: "'a \<Rightarrow> bool"
  assumes reply_good: "good st \<Longrightarrow> good (reply s (errorMsg err) st)"
    and handler_good: "s \<noteq> nullptr \<Longrightarrow> good st \<Longrightarrow> good (handler s ty msg st)"
begin

lemma line_good:
  assumes "s \<noteq> nullptr" and "good st"
  shows "good (handleLine fromJson reply (Some handler) s line st)"
  using assms by (simp add: handleLine_def reply_good handler_good split: sum.split)

lemma lines_good:
  assumes "s \<noteq> nullptr" and "good st"
  shows "good (fold (handleLine fromJson reply (Some handler) s) ls st)"
  using assms(2) by (induction ls arbitrary: st) (auto intro: line_good [OF assms(1)])

lemma read_good:
  assumes "is_handler srv = Some handler" and "good st"
  shows "good (snd (onReadyRead fromJson reply s bytes (srv, st)))"
  using assms lines_good [of s st] by (simp add: onReadyRead_eq Let_def)

end

section \<open>Wiring\<close>

text \<open>The handler reads the environment of its step, so it travels with the agent.\<close>

definition agentHandler :: "(env \<times> agent) message_handler" where
  "agentHandler socket ty msg s = (fst s, handleMessage (fst s) socket ty msg (snd s))"

definition agentReply :: "socket \<Rightarrow> jobject \<Rightarrow> env \<times> agent \<Rightarrow> env \<times> agent" where
  "agentReply socket json s = (fst s, sendJson (fst s) socket json False (snd s))"

type_synonym daemon = "(env \<times> agent) ipc_server \<times> agent"

text \<open>\<^verbatim>\<open>CAgent::start\<close>: \<open>None\<close> when it returns false before the event loop.\<close>

definition agentStart :: "bool \<Rightarrow> bool \<Rightarrow> (string \<Rightarrow> bool) \<Rightarrow> string \<Rightarrow> string list \<Rightarrow> string list \<Rightarrow> daemon option" where
  "agentStart skipPolkit registered listens socketPath dirs files =
     (if \<not> skipPolkit \<and> \<not> registered then None
      else let (ok, srv, files) = ipcStart listens socketPath files (setMessageHandler agentHandler newServer)
           in if \<not> ok then None else Some (srv, initAgent socketPath dirs))"

definition daemonRead :: "env \<Rightarrow> socket \<Rightarrow> string \<Rightarrow> daemon \<Rightarrow> daemon" where
  "daemonRead env socket bytes d =
     (let (srv, s) = onReadyRead (e_fromJson env) agentReply socket bytes (fst d, (env, snd d))
      in (srv, snd s))"

text \<open>\<^verbatim>\<open>onDisconnected\<close> forgets the buffer and then emits the signal the agent is connected
  to.\<close>

definition daemonDisconnect :: "env \<Rightarrow> socket \<Rightarrow> daemon \<Rightarrow> daemon" where
  "daemonDisconnect env socket d =
     (if socket = nullptr then d
      else (onDisconnected socket (fst d), onClientDisconnected env socket (snd d)))"

section \<open>Steps\<close>

text \<open>The events that do not come from a socket: timers and polkit.\<close>

inductive agent_event :: "agent \<Rightarrow> agent \<Rightarrow> bool" where
  maintenance: "agent_event a (pruneStaleProviders env a)"
| resultTimer: "agent_event a (pinentryTimeout env cookie a)"
| polkitInitiate: "agent_event a (initiateAuthentication env actionId message iconName details cookie ids a)"
| polkitCancel: "agent_event a (cancelAuthentication env a)"
| polkitRequest: "agent_event a (plSessionRequest env session request echo a)"
| polkitCompleted: "agent_event a (plSessionCompleted env session gained a)"
| polkitError: "agent_event a (plSessionError env session txt a)"
| polkitInfo: "agent_event a (plSessionInfo env session txt a)"

inductive daemon_step :: "daemon \<Rightarrow> daemon \<Rightarrow> bool" where
  connection: "daemon_step (srv, a) (onNewConnection pending srv, a)"
| bytes: "daemon_step d (daemonRead env socket bs d)"
| disconnected: "daemon_step d (daemonDisconnect env socket d)"
| event: "agent_event a b \<Longrightarrow> daemon_step (srv, a) (srv, b)"

inductive daemon_reachable :: "daemon \<Rightarrow> bool" where
  start: "agentStart skipPolkit registered listens socketPath dirs files = Some d \<Longrightarrow> daemon_reachable d"
| step: "daemon_reachable d \<Longrightarrow> daemon_step d d' \<Longrightarrow> daemon_reachable d'"

lemma agent_event_step: "agent_event a b \<Longrightarrow> agent_step a b"
  by (cases rule: agent_event.cases) (auto intro: agent_step.intros)

interpretation agent_sink: message_sink "e_fromJson env" agentReply agentHandler "\<lambda>s. fst s = env \<and> reachable (snd s)" for env
proof unfold_locales
  fix st s err
  assume "fst st = env \<and> reachable (snd st)"
  then show "fst (agentReply s (errorMsg err) st) = env \<and> reachable (snd (agentReply s (errorMsg err) st))"
    by (auto simp: agentReply_def intro: reachable.step agent_step.ipcError)
next
  fix s :: socket and st ty msg
  assume "s \<noteq> nullptr" and "fst st = env \<and> reachable (snd st)"
  then show "fst (agentHandler s ty msg st) = env \<and> reachable (snd (agentHandler s ty msg st))"
    by (auto simp: agentHandler_def intro: reachable.step agent_step.message)
qed

definition daemon_ok :: "daemon \<Rightarrow> bool" where
  "daemon_ok d \<longleftrightarrow> server_ok (fst d) \<and> is_handler (fst d) = Some agentHandler \<and> reachable (snd d)"

lemma onNewConnection_handler [simp]: "is_handler (onNewConnection pending srv) = is_handler srv"
  by (induction pending arbitrary: srv) simp_all

lemma daemon_ok_start:
  assumes "agentStart skipPolkit registered listens socketPath dirs files = Some d"
  shows "daemon_ok d"
proof -
  have "server_ok (setMessageHandler agentHandler newServer)"
    by (rule server_ok_lifecycle(2) [OF server_ok_new])
  then show ?thesis
    using assms server_ok_lifecycle(3) [of "setMessageHandler agentHandler newServer" listens socketPath files]
    by (auto simp: agentStart_def daemon_ok_def ipcStart_def setMessageHandler_def Let_def reachable.start
        split: if_splits)
qed

lemma daemon_ok_read:
  assumes "daemon_ok d" shows "daemon_ok (daemonRead env socket bs d)"
proof -
  have h: "is_handler (fst d) = Some agentHandler" and s: "server_ok (fst d)"
    and r: "fst (env, snd d) = env \<and> reachable (snd (env, snd d))"
    using assms by (simp_all add: daemon_ok_def)
  show ?thesis
    using agent_sink.read_good [OF h r, of socket bs] server_ok_read [OF s] h
    by (simp add: daemonRead_def daemon_ok_def case_prod_beta)
qed

lemma daemon_ok_step:
  assumes "daemon_ok d" and "daemon_step d d'" shows "daemon_ok d'"
  using assms(2)
proof (cases rule: daemon_step.cases)
  case (connection srv a pending)
  then show ?thesis using assms(1) by (simp add: daemon_ok_def server_ok_connection)
next
  case (bytes env socket bs)
  then show ?thesis using daemon_ok_read [OF assms(1)] by simp
next
  case (disconnected env socket)
  then show ?thesis
    using assms(1) reachable.step [OF _ agent_step.disconnect, of "snd d" socket env]
    by (simp add: daemon_ok_def daemonDisconnect_def server_ok_disconnected) (simp add: onDisconnected_def)
next
  case (event a b srv)
  then show ?thesis using assms(1) by (auto simp: daemon_ok_def intro: reachable.step agent_event_step)
qed

text \<open>C10: whatever bytes the clients send and however the events interleave, the agent inside the
  daemon only goes through states its own transition system reaches, the agent's handler stays
  installed, and every connection's buffer is one open line of at most 64 KiB unless its client is
  being disconnected.\<close>

theorem daemon_refines_agent:
  assumes "daemon_reachable d"
  shows "reachable (snd d) \<and> server_ok (fst d) \<and> is_handler (fst d) = Some agentHandler"
proof -
  have "daemon_ok d"
    using assms by (induction rule: daemon_reachable.induct) (auto intro: daemon_ok_start daemon_ok_step)
  then show ?thesis by (simp add: daemon_ok_def)
qed

section \<open>A request end to end\<close>

interpretation env_sink: message_sink "e_fromJson env" agentReply agentHandler "\<lambda>s. fst s = env" for env
  by unfold_locales (simp_all add: agentReply_def agentHandler_def)

lemma daemonRead_reads:
  assumes "is_handler (fst d) = Some agentHandler"
  shows "fold (daemonRead env socket) chunks d
    = (fst (reads (e_fromJson env) agentReply socket chunks (fst d, (env, snd d))),
       snd (snd (reads (e_fromJson env) agentReply socket chunks (fst d, (env, snd d)))))"
  using assms
proof (induction chunks arbitrary: d)
  case (Cons c cs)
  let ?r = "onReadyRead (e_fromJson env) agentReply socket c (fst d, (env, snd d))"
  have "fst (snd ?r) = env" by (rule env_sink.read_good) (simp_all add: Cons.prems)
  then have "(fst ?r, (env, snd (snd ?r))) = ?r" by (simp add: prod_eq_iff)
  then show ?case
    using Cons.IH [of "daemonRead env socket c d"] Cons.prems
    by (simp add: reads_def daemonRead_def case_prod_beta)
qed (simp add: reads_def)

lemma awaitLine_chunks:
  assumes "newline \<notin> set l" and "buffer @ concat chunks = l @ [newline]"
  shows "awaitLine buffer (map Some chunks) = Some l"
  using assms(2)
proof (induction chunks arbitrary: buffer)
  case Nil
  then have "takeLine buffer = Some (l, [])" using assms(1) by (simp add: takeLine_eq)
  then show ?case by (subst awaitLine.simps) simp
next
  case (Cons c cs)
  show ?case
  proof (cases "takeLine buffer")
    case None
    then show ?thesis using Cons.IH [of "buffer @ c"] Cons.prems by (subst awaitLine.simps) simp
  next
    case (Some lr)
    obtain l' r where lr: "lr = (l', r)" by force
    with Some have x: "newline \<notin> set l'" "buffer = l' @ newline # r" by (simp_all add: takeLine_eq)
    have "l' = l"
      using Cons.prems x assms(1) by (auto simp: append_eq_append_conv2 append_eq_Cons_conv Cons_eq_append_conv)
    then show ?thesis using Some lr by (subst awaitLine.simps) simp
  qed
qed

lemma sendRequest_chunks:
  assumes "json_codec fromJson toJson rep" and "concat chunks = requestBytes toJson rep"
  shows "sendRequest fromJson True True (map Some chunks) = Some rep"
proof -
  have nl: "newline \<notin> set (toJson rep)" using assms(1) by (simp add: json_codec_def)
  obtain c cs where c: "chunks = c # cs" using assms(2) by (cases chunks) (auto simp: requestBytes_def)
  have "awaitLine c (map Some cs) = Some (toJson rep)"
    using assms(2) by (intro awaitLine_chunks [OF nl]) (simp add: c requestBytes_def)
  then show ?thesis
    using assms(1) trimmed_json [OF assms(1)] by (simp add: sendRequest_def c parseReply_def json_codec_def)
qed

lemma handlePing_sends:
  assumes "e_connected env socket" and "socket \<noteq> nullptr"
  shows "\<exists>pong. toStr (jvalue pong ''type'') = ''pong'' \<and> handlePing env socket msg a = a\<lparr>a_sent := a_sent a @ [(socket, pong, False)]\<rparr>"
proof -
  have "\<exists>pong. toStr (jvalue pong ''type'') = ''pong'' \<and> handlePing env socket msg a = sendJson env socket pong False a"
    unfolding handlePing_def Let_def
    by (rule exI, rule conjI [rotated], rule refl) (simp split: option.split)
  then show ?thesis using assms by (auto simp: sendJson_def)
qed

text \<open>C33: the health check works end to end.  Whatever pieces the ping request arrives in, the daemon
  answers with exactly one message, which makes the client's \<^verbatim>\<open>ping()\<close> true in whatever pieces
  it reads the answer.\<close>

theorem ping_end_to_end:
  assumes "json_codec (e_fromJson env) toJson pingRequest" and "is_handler (fst d) = Some agentHandler"
    and "concat chunks = requestBytes toJson pingRequest" and "length (concat chunks) \<le> MAX_MESSAGE_SIZE"
    and "socket \<noteq> nullptr" and "e_connected env socket" and "bufferOf (fst d) socket = []"
  shows "\<exists>pong. snd (fold (daemonRead env socket) chunks d)
        = (snd d)\<lparr>a_sent := a_sent (snd d) @ [(socket, pong, False)]\<rparr>
      \<and> (\<forall>waits. json_codec fromJson printJson pong \<and> concat waits = requestBytes printJson pong
          \<longrightarrow> clientPing fromJson True True (map Some waits))"
proof -
  obtain pong where t: "toStr (jvalue pong ''type'') = ''pong''"
    and p: "handlePing env socket pingRequest (snd d) = (snd d)\<lparr>a_sent := a_sent (snd d) @ [(socket, pong, False)]\<rparr>"
    using handlePing_sends [OF assms(6,5)] by blast
  have "snd (reads (e_fromJson env) agentReply socket chunks (fst d, (env, snd d)))
      = agentHandler socket ''ping'' pingRequest (env, snd d)"
    using request_delivered [OF assms(1) _ _ assms(3,4,5,7,2), of "''ping''"] by (simp add: pingRequest_def)
  then have "snd (fold (daemonRead env socket) chunks d) = handlePing env socket pingRequest (snd d)"
    by (simp add: daemonRead_reads [OF assms(2)] agentHandler_def handleMessage_eq)
  moreover have "clientPing fromJson True True (map Some waits)"
    if "json_codec fromJson printJson pong" "concat waits = requestBytes printJson pong" for waits
    using sendRequest_chunks [OF that] t by (simp add: clientPing_def)
  ultimately show ?thesis using p by auto
qed

section \<open>A concrete daemon\<close>

definition example_ipc_env :: env where
  "example_ipc_env = example_env\<lparr>e_fromJson := example_parse\<rparr>"

definition example_daemon :: daemon where
  "example_daemon =
     (onNewConnection [7] (setMessageHandler agentHandler newServer\<lparr>is_listening := True\<rparr>), initAgent ''sock'' [])"

lemma example_daemon_started:
  "agentStart True False (\<lambda>_. True) ''sock'' [] [''sock''] =
     Some (setMessageHandler agentHandler newServer\<lparr>is_listening := True\<rparr>, initAgent ''sock'' [])"
  by (simp add: agentStart_def ipcStart_def Let_def setMessageHandler_def newServer_def)

lemma example_daemon_reachable: "daemon_reachable (daemonRead example_ipc_env 7 ''{ping'' example_daemon)"
  by (rule daemon_reachable.step [OF daemon_reachable.step
        [OF daemon_reachable.start [OF example_daemon_started] daemon_step.connection]])
    (simp only: example_daemon_def, rule daemon_step.bytes)

theorem daemon_refines_agent_witness:
  "server_ok (fst (daemonRead example_ipc_env 7 ''{ping'' example_daemon))
   \<and> reachable (snd (daemonRead example_ipc_env 7 ''{ping'' example_daemon))"
  using daemon_refines_agent [OF example_daemon_reachable] by simp

theorem ping_end_to_end_witness:
  "\<exists>pong. snd (fold (daemonRead example_ipc_env 7) [''{pi'', ''ng'', [CHR 0x7D, newline]] example_daemon)
      = (snd example_daemon)\<lparr>a_sent := [(7, pong, False)]\<rparr>"
proof -
  have "json_codec (e_fromJson example_ipc_env) example_print pingRequest"
    using example_codec by (simp add: example_ipc_env_def)
  from ping_end_to_end [OF this, of example_daemon "[''{pi'', ''ng'', [CHR 0x7D, newline]]" 7 example_parse example_print]
  show ?thesis
    by (auto simp: example_daemon_def example_ipc_env_def example_env_def setMessageHandler_def newServer_def bufferOf_def
        requestBytes_def example_print_def MAX_MESSAGE_SIZE_def)
qed

end
