(* ===== verification/Pinentry_Mode.thy ===== *)
theory Pinentry_Mode
  imports Pinentry_Manager
begin

text \<open>
  The pinentry program gpg-agent talks to: \<^verbatim>\<open>modes/pinentry.cpp\<close>.  It reads Assuan commands
  line by line, asks the daemon for passwords and confirmations, and reports how each flow ended.
  The lines it writes and the requests it sends are logged in order; the daemon's answers are a
  parameter, one per request.
\<close>

section \<open>Percent coding\<close>

text \<open>\<open>toIntHex\<close> stands for \<^verbatim>\<open>QStringView::toInt(&ok, 16)\<close>; all the code relies on is what it
  does on two hexadecimal digits.  Code units above 255 are outside the character type, so a code is
  read modulo 256.\<close>

type_synonym hex_reader = "string \<Rightarrow> int option"

definition hexChars :: string where "hexChars = ''0123456789ABCDEF''"

definition hex_reader_ok :: "hex_reader \<Rightarrow> bool" where
  "hex_reader_ok toIntHex \<longleftrightarrow>
     (\<forall>h < 16. \<forall>l < 16. toIntHex [hexChars ! h, hexChars ! l] = Some (int (16 * h + l)))"

fun assuanDecode :: "hex_reader \<Rightarrow> string \<Rightarrow> string" where
  "assuanDecode toIntHex [] = []"
| "assuanDecode toIntHex (c # s) =
     (if c = CHR 0x25 \<and> 2 \<le> length s
      then case toIntHex (take 2 s) of
             Some code \<Rightarrow> char_of code # assuanDecode toIntHex (drop 2 s)
           | None \<Rightarrow> c # assuanDecode toIntHex s
      else c # assuanDecode toIntHex s)"

definition encodeChar :: "char \<Rightarrow> string" where
  "encodeChar c =
     (if c = CHR 0x25 \<or> c = CHR 0x0A \<or> c = CHR 0x0D
      then let uc = of_char c :: nat in [CHR 0x25, hexChars ! (uc div 16), hexChars ! (uc mod 16)]
      else [c])"

definition assuanEncode :: "string \<Rightarrow> string" where
  "assuanEncode input = concat (map encodeChar input)"

section \<open>State\<close>

record pinentry_state =
  ps_description :: string
  ps_prompt :: string
  ps_title :: string
  ps_error :: string
  ps_okText :: string
  ps_cancelText :: string
  ps_notOkText :: string
  ps_keyinfo :: string
  ps_repeat :: string
  ps_confirmMode :: bool

definition emptyState :: pinentry_state where
  "emptyState = \<lparr>ps_description = [], ps_prompt = [], ps_title = [], ps_error = [], ps_okText = [],
     ps_cancelText = [], ps_notOkText = [], ps_keyinfo = [], ps_repeat = [], ps_confirmMode = False\<rparr>"

text \<open>The last four fields are the outside: lines on stdout, texts on stderr, requests with their
  timeouts, and the number of identifiers drawn.\<close>

record pinentry_session =
  se_state :: pinentry_state
  se_flowCookie :: string
  se_awaiting :: bool
  se_out :: "string list"
  se_err :: "string list"
  se_requests :: "(jobject \<times> int) list"
  se_uuids :: nat

definition newPinentrySession :: pinentry_session where
  "newPinentrySession = \<lparr>se_state = emptyState, se_flowCookie = [], se_awaiting = False, se_out = [], se_err = [],
     se_requests = [], se_uuids = 0\<rparr>"

text \<open>The answers: \<open>pe_reply n r\<close> is what \<^verbatim>\<open>sendRequest\<close> returns for the \<open>n\<close>-th request \<open>r\<close>.\<close>

record pinentry_env =
  pe_reply :: "nat \<Rightarrow> jobject \<Rightarrow> jobject option"
  pe_uuid :: "nat \<Rightarrow> string"
  pe_pid :: int
  pe_hex :: hex_reader

definition IPC_READ_TIMEOUT_MS :: int where "IPC_READ_TIMEOUT_MS = 1000"
definition PINENTRY_REQUEST_TIMEOUT_MS :: int where "PINENTRY_REQUEST_TIMEOUT_MS = 5 * 60 * 1000"

lemma newPinentrySession_simps [simp]:
  "se_state newPinentrySession = emptyState" "se_flowCookie newPinentrySession = []" "\<not> se_awaiting newPinentrySession"
  "se_out newPinentrySession = []" "se_requests newPinentrySession = []" "se_uuids newPinentrySession = 0"
  by (simp_all add: newPinentrySession_def)

section \<open>Output and requests\<close>

definition putLine :: "string \<Rightarrow> pinentry_session \<Rightarrow> pinentry_session" where
  "putLine l s = s\<lparr>se_out := se_out s @ [l]\<rparr>"

definition sendOk :: "string \<Rightarrow> pinentry_session \<Rightarrow> pinentry_session" where
  "sendOk comment s = putLine (if comment = [] then ''OK'' else ''OK '' @ comment) s"

definition sendError :: "int \<Rightarrow> string \<Rightarrow> pinentry_session \<Rightarrow> pinentry_session" where
  "sendError code message s = putLine (''ERR '' @ showInt code @ '' '' @ message) s"

definition sendData :: "string \<Rightarrow> pinentry_session \<Rightarrow> pinentry_session" where
  "sendData d s = putLine (''D '' @ assuanEncode d) s"

definition putErr :: "string \<Rightarrow> pinentry_session \<Rightarrow> pinentry_session" where
  "putErr l s = s\<lparr>se_err := se_err s @ [l]\<rparr>"

definition askDaemon :: "pinentry_env \<Rightarrow> jobject \<Rightarrow> int \<Rightarrow> pinentry_session \<Rightarrow> jobject option \<times> pinentry_session" where
  "askDaemon env request timeout s =
     (pe_reply env (length (se_requests s)) request, s\<lparr>se_requests := se_requests s @ [(request, timeout)]\<rparr>)"

section \<open>Flows\<close>

definition ensureFlowCookie :: "pinentry_env \<Rightarrow> pinentry_session \<Rightarrow> pinentry_session" where
  "ensureFlowCookie env s =
     (if se_flowCookie s = [] then s\<lparr>se_flowCookie := pe_uuid env (se_uuids s), se_uuids := Suc (se_uuids s)\<rparr> else s)"

definition clearSubmitState :: "pinentry_session \<Rightarrow> pinentry_session" where
  "clearSubmitState s = s\<lparr>se_awaiting := False\<rparr>"

definition resetFlow :: "pinentry_session \<Rightarrow> pinentry_session" where
  "resetFlow s = (clearSubmitState s)\<lparr>se_flowCookie := []\<rparr>"

definition resultRequest :: "string \<Rightarrow> string \<Rightarrow> string \<Rightarrow> jobject" where
  "resultRequest cookie result err =
     [(''type'', JStr ''pinentry_result''), (''id'', JStr cookie), (''result'', JStr result)]
     @ (if err \<noteq> [] then [(''error'', JStr err)] else [])"

definition reportTerminalResult :: "pinentry_env \<Rightarrow> string \<Rightarrow> string \<Rightarrow> pinentry_session \<Rightarrow> pinentry_session" where
  "reportTerminalResult env result err s =
     (if se_flowCookie s = [] then s
      else let (response, s) = askDaemon env (resultRequest (se_flowCookie s) result err) IPC_READ_TIMEOUT_MS s;
               s = (if response = None \<or> toStr (jvalue (the response) ''type'') = ''error''
                    then putErr (''pinentry: failed to report terminal result for cookie '' @ se_flowCookie s) s else s)
           in if result = ''retry'' then clearSubmitState s else resetFlow s)"

definition reportEnd :: "pinentry_env \<Rightarrow> string \<Rightarrow> pinentry_session \<Rightarrow> pinentry_session" where
  "reportEnd env result s =
     (if ps_error (se_state s) \<noteq> [] then reportTerminalResult env ''error'' (ps_error (se_state s)) s
      else reportTerminalResult env result [] s)"

definition finalizeOnStreamClose :: "pinentry_env \<Rightarrow> pinentry_session \<Rightarrow> pinentry_session" where
  "finalizeOnStreamClose env s =
     (if se_awaiting s then reportEnd env ''success'' s
      else if se_flowCookie s \<noteq> [] then reportEnd env ''cancelled'' s
      else s)"

section \<open>Asking the daemon\<close>

definition orDefault :: "string \<Rightarrow> string \<Rightarrow> string" where
  "orDefault d s = (if s = [] then d else s)"

definition passwordRequest :: "string \<Rightarrow> pinentry_state \<Rightarrow> jobject" where
  "passwordRequest cookie st =
     [(''type'', JStr ''pinentry_request''), (''cookie'', JStr cookie),
      (''title'', JStr (orDefault ''GPG Key'' (ps_title st))),
      (''prompt'', JStr (orDefault ''Enter passphrase:'' (ps_prompt st))),
      (''description'', JStr (ps_description st)), (''repeat'', JBool (ps_repeat st \<noteq> []))]
     @ (if ps_error st \<noteq> [] then [(''error'', JStr (ps_error st))] else [])
     @ (if ps_keyinfo st \<noteq> [] then [(''keyinfo'', JStr (ps_keyinfo st))] else [])"

text \<open>The result is \<^verbatim>\<open>None\<close> for false, otherwise the password.\<close>

definition requestPasswordFromDaemon :: "pinentry_env \<Rightarrow> pinentry_session \<Rightarrow> string option \<times> pinentry_session" where
  "requestPasswordFromDaemon env s =
     (let s = ensureFlowCookie env s;
          (response, s) = askDaemon env (passwordRequest (se_flowCookie s) (se_state s)) PINENTRY_REQUEST_TIMEOUT_MS s
      in case response of
           None \<Rightarrow> (None, resetFlow (putErr ''pinentry: failed to communicate with daemon'' s))
         | Some r \<Rightarrow>
             (let ty = toStr (jvalue r ''type'') in
              if ty = ''pinentry_response''
              then if toStr (jvalue r ''result'') = ''ok''
                   then (Some (toStr (jvalue r ''password'')), s\<lparr>se_awaiting := True\<rparr>)
                   else (None, resetFlow s)
              else if ty = ''error''
              then (None, resetFlow (putErr (''pinentry: daemon error: '' @ toStr (jvalue r ''error'')) s))
              else (None, resetFlow s)))"

definition confirmRequest :: "string \<Rightarrow> pinentry_state \<Rightarrow> jobject" where
  "confirmRequest cookie st =
     [(''type'', JStr ''pinentry_request''), (''cookie'', JStr cookie),
      (''title'', JStr (orDefault ''Confirm'' (ps_title st))),
      (''prompt'', JStr (orDefault ''Please confirm'' (ps_description st))), (''confirm_only'', JBool True)]"

definition requestConfirmFromDaemon :: "pinentry_env \<Rightarrow> pinentry_session \<Rightarrow> bool \<times> pinentry_session" where
  "requestConfirmFromDaemon env s =
     (let s = ensureFlowCookie env s;
          (response, s) = askDaemon env (confirmRequest (se_flowCookie s) (se_state s)) PINENTRY_REQUEST_TIMEOUT_MS s
      in case response of
           None \<Rightarrow> (False, resetFlow s)
         | Some r \<Rightarrow>
             (let confirmed = (toStr (jvalue r ''type'') = ''pinentry_response'' \<and> toStr (jvalue r ''result'') = ''confirmed'')
              in (confirmed, if confirmed then s\<lparr>se_awaiting := True\<rparr> else resetFlow s)))"

definition clearError :: "pinentry_session \<Rightarrow> pinentry_session" where
  "clearError s = s\<lparr>se_state := (se_state s)\<lparr>ps_error := []\<rparr>\<rparr>"

text \<open>The retry that \<^verbatim>\<open>GETPIN\<close> reports when the previous answer still awaits its result.\<close>

definition reportRetry :: "pinentry_env \<Rightarrow> pinentry_session \<Rightarrow> pinentry_session" where
  "reportRetry env s =
     (if se_awaiting s
      then reportTerminalResult env ''retry'' (orDefault ''Authentication failed'' (ps_error (se_state s))) s else s)"

definition handleGetPin :: "pinentry_env \<Rightarrow> pinentry_session \<Rightarrow> bool \<times> pinentry_session" where
  "handleGetPin env s =
     (let (password, s) = requestPasswordFromDaemon env (reportRetry env s);
          s = (case password of
                 Some pw \<Rightarrow> if pw \<noteq> [] then sendOk [] (sendData pw s) else sendError 83886179 ''Operation cancelled'' s
               | None \<Rightarrow> sendError 83886179 ''Operation cancelled'' s)
      in (True, clearError s))"

definition handleConfirm :: "pinentry_env \<Rightarrow> pinentry_session \<Rightarrow> bool \<times> pinentry_session" where
  "handleConfirm env s =
     (let (confirmed, s) = requestConfirmFromDaemon env s;
          s = (if confirmed then sendOk [] s else sendError 83886179 ''Operation cancelled'' s)
      in (True, clearError s))"

section \<open>Commands\<close>

text \<open>Command and argument: split at the first blank unless the line starts with it.\<close>

definition splitCommand :: "hex_reader \<Rightarrow> string \<Rightarrow> string \<times> string" where
  "splitCommand toIntHex line =
     (let cmd = takeWhile (\<lambda>c. c \<noteq> CHR '' '') line
      in if cmd \<noteq> [] \<and> length cmd < length line
         then (cmd, assuanDecode toIntHex (drop (Suc (length cmd)) line)) else (line, []))"

definition setField :: "(pinentry_state \<Rightarrow> pinentry_state) \<Rightarrow> pinentry_session \<Rightarrow> bool \<times> pinentry_session" where
  "setField f s = (True, sendOk [] (s\<lparr>se_state := f (se_state s)\<rparr>))"

definition handleBye :: "pinentry_env \<Rightarrow> pinentry_session \<Rightarrow> bool \<times> pinentry_session" where
  "handleBye env s =
     (let s = (if se_awaiting s then reportEnd env ''success'' s
               else if se_flowCookie s \<noteq> [] then reportEnd env ''cancelled'' s else s)
      in (False, sendOk ''closing connection'' s))"

definition handleGetInfo :: "pinentry_env \<Rightarrow> string \<Rightarrow> pinentry_session \<Rightarrow> bool \<times> pinentry_session" where
  "handleGetInfo env arg s =
     (True,
      if arg = ''pid'' then sendOk [] (sendData (showInt (pe_pid env)) s)
      else if arg = ''version'' then sendOk [] (sendData ''1.0.0'' s)
      else if arg = ''flavor'' then sendOk [] (sendData ''bb'' s)
      else if arg = ''ttyinfo'' then sendOk [] (sendData [] s)
      else sendOk [] s)"

definition handleCommand :: "pinentry_env \<Rightarrow> string \<Rightarrow> pinentry_session \<Rightarrow> bool \<times> pinentry_session" where
  "handleCommand env line s =
     (let (cmd, arg) = splitCommand (pe_hex env) line in
      if equalCI cmd ''BYE'' then handleBye env s
      else if equalCI cmd ''SETDESC'' then setField (ps_description_update (\<lambda>_. arg)) s
      else if equalCI cmd ''SETPROMPT'' then setField (ps_prompt_update (\<lambda>_. arg)) s
      else if equalCI cmd ''SETTITLE'' then setField (ps_title_update (\<lambda>_. arg)) s
      else if equalCI cmd ''SETERROR'' then setField (ps_error_update (\<lambda>_. arg)) s
      else if equalCI cmd ''SETOK'' then setField (ps_okText_update (\<lambda>_. arg)) s
      else if equalCI cmd ''SETCANCEL'' then setField (ps_cancelText_update (\<lambda>_. arg)) s
      else if equalCI cmd ''SETNOTOK'' then setField (ps_notOkText_update (\<lambda>_. arg)) s
      else if equalCI cmd ''SETKEYINFO'' then setField (ps_keyinfo_update (\<lambda>_. arg)) s
      else if equalCI cmd ''SETREPEAT'' then setField (ps_repeat_update (\<lambda>_. arg)) s
      else if equalCI cmd ''OPTION'' then (True, sendOk [] s)
      else if equalCI cmd ''GETINFO'' then handleGetInfo env arg s
      else if equalCI cmd ''GETPIN'' then handleGetPin env s
      else if equalCI cmd ''CONFIRM'' then handleConfirm env s
      else if equalCI cmd ''MESSAGE'' then (True, sendOk [] s)
      else if equalCI cmd ''RESET'' then setField (\<lambda>_. emptyState) s
      else if equalCI cmd ''NOP'' then (True, sendOk [] s)
      else (True, sendOk [] s))"

text \<open>The lines of stdin; \<^verbatim>\<open>getline\<close> has removed the newlines.\<close>

definition stripCR :: "string \<Rightarrow> string" where
  "stripCR line = (if last line = CHR 0x0D then butlast line else line)"

fun commandLoop :: "pinentry_env \<Rightarrow> string list \<Rightarrow> pinentry_session \<Rightarrow> pinentry_session" where
  "commandLoop env [] s = s"
| "commandLoop env (line # input) s =
     (if line = [] then commandLoop env input s
      else let (go, s) = handleCommand env (stripCR line) s
           in if go then commandLoop env input s else s)"

definition runPinentry :: "pinentry_env \<Rightarrow> string list \<Rightarrow> pinentry_session" where
  "runPinentry env input =
     finalizeOnStreamClose env (commandLoop env input (sendOk ''BB Auth Pinentry'' newPinentrySession))"

section \<open>Coding lemmas\<close>

lemma encodeChar_decode:
  assumes "hex_reader_ok rd"
  shows "assuanDecode rd (encodeChar c @ s) = c # assuanDecode rd s"
proof (cases "c = CHR 0x25 \<or> c = CHR 0x0A \<or> c = CHR 0x0D")
  case True
  define n :: nat where "n = of_char c"
  have "n < 256" unfolding n_def by simp
  then have "rd [hexChars ! (n div 16), hexChars ! (n mod 16)] = Some (int (16 * (n div 16) + n mod 16))"
  proof -
    have "n div 16 < 16" using \<open>n < 256\<close> less_mult_imp_div_less [of n 16 16] by simp
    moreover have "n mod 16 < 16" by simp
    ultimately show ?thesis using assms unfolding hex_reader_ok_def by blast
  qed
  then have "rd [hexChars ! (n div 16), hexChars ! (n mod 16)] = Some (int n)"
    by (simp only: mult_div_mod_eq)
  then have "rd [hexChars ! (n div 16), hexChars ! (n mod 16)] = Some (of_char c)"
    by (simp add: n_def of_nat_of_char)
  with True show ?thesis by (simp add: encodeChar_def Let_def n_def)
qed (simp add: encodeChar_def)

lemma hexChars_printable: "k < 16 \<Longrightarrow> hexChars ! k \<noteq> CHR 0x0A \<and> hexChars ! k \<noteq> CHR 0x0D"
proof -
  assume "k < 16"
  then have "hexChars ! k \<in> set hexChars" by (intro nth_mem) (simp add: hexChars_def)
  then show ?thesis by (auto simp: hexChars_def)
qed

lemma encodeChar_line: "CHR 0x0A \<notin> set (encodeChar c) \<and> CHR 0x0D \<notin> set (encodeChar c)"
  using hexChars_printable [of 0] hexChars_printable [of 2] hexChars_printable [of 5] hexChars_printable [of 10]
    hexChars_printable [of 13]
  by (auto simp: encodeChar_def Let_def)

text \<open>C34: percent encoding is undone by decoding, for every text, and its output stays on one line.\<close>

theorem assuan_roundtrip:
  assumes "hex_reader_ok rd"
  shows "assuanDecode rd (assuanEncode s) = s \<and> CHR 0x0A \<notin> set (assuanEncode s) \<and> CHR 0x0D \<notin> set (assuanEncode s)"
proof (induction s)
  case (Cons c s)
  then show ?case
    using encodeChar_decode [OF assms, of c "assuanEncode s"] encodeChar_line [of c] by (simp add: assuanEncode_def)
qed (simp add: assuanEncode_def)

definition hexValue :: "char \<Rightarrow> int option" where
  "hexValue c = map_option (\<lambda>(_, v). v) (List.find (\<lambda>(d, _). d = c) (zip hexChars [0..15]))"

definition hexPair :: hex_reader where
  "hexPair s =
     (case map hexValue s of [Some h, Some l] \<Rightarrow> Some (16 * h + l) | _ \<Rightarrow> None)"

lemma hexPair_ok: "hex_reader_ok hexPair"
proof -
  have "\<forall>h < 16. hexValue (hexChars ! h) = Some (int h)" by code_simp
  then show ?thesis by (simp add: hex_reader_ok_def hexPair_def)
qed

theorem assuan_roundtrip_witness:
  "assuanDecode hexPair (assuanEncode [CHR 0x25, CHR 0x0A, CHR ''a'']) = [CHR 0x25, CHR 0x0A, CHR ''a'']"
  using assuan_roundtrip [OF hexPair_ok] by simp

section \<open>What each part leaves alone\<close>

lemma out_frames [simp]:
  "se_out (snd (askDaemon env r t s)) = se_out s" "se_out (ensureFlowCookie env s) = se_out s"
  "se_out (putErr l s) = se_out s" "se_out (clearSubmitState s) = se_out s" "se_out (resetFlow s) = se_out s"
  "se_out (clearError s) = se_out s"
  by (simp_all add: askDaemon_def ensureFlowCookie_def putErr_def clearSubmitState_def resetFlow_def clearError_def)

lemma out_frames_report [simp]:
  "se_out (reportTerminalResult env r e s) = se_out s" "se_out (reportEnd env r s) = se_out s"
  "se_out (reportRetry env s) = se_out s" "se_out (finalizeOnStreamClose env s) = se_out s"
  by (simp_all add: reportTerminalResult_def reportEnd_def reportRetry_def finalizeOnStreamClose_def Let_def case_prod_beta)

lemma out_frames_ask [simp]:
  "se_out (snd (requestPasswordFromDaemon env s)) = se_out s" "se_out (snd (requestConfirmFromDaemon env s)) = se_out s"
  by (simp_all add: requestPasswordFromDaemon_def requestConfirmFromDaemon_def Let_def case_prod_beta split: option.split)

lemma put_frames [simp]:
  "se_requests (sendOk c s) = se_requests s" "se_requests (sendData d s) = se_requests s"
  "se_requests (sendError n c s) = se_requests s" "se_requests (clearError s) = se_requests s"
  "se_requests (putErr l s) = se_requests s" "se_requests (resetFlow s) = se_requests s"
  "se_requests (clearSubmitState s) = se_requests s" "se_requests (ensureFlowCookie env s) = se_requests s"
  "se_awaiting (sendOk c s) = se_awaiting s" "se_awaiting (sendData d s) = se_awaiting s"
  "se_awaiting (sendError n c s) = se_awaiting s" "se_awaiting (clearError s) = se_awaiting s"
  "se_awaiting (putErr l s) = se_awaiting s" "se_awaiting (ensureFlowCookie env s) = se_awaiting s"
  "se_flowCookie (sendOk c s) = se_flowCookie s" "se_flowCookie (sendData d s) = se_flowCookie s"
  "se_flowCookie (sendError n c s) = se_flowCookie s" "se_flowCookie (clearError s) = se_flowCookie s"
  "se_flowCookie (putErr l s) = se_flowCookie s" "se_flowCookie (clearSubmitState s) = se_flowCookie s"
  "se_flowCookie (resetFlow s) = []" "\<not> se_awaiting (resetFlow s)" "\<not> se_awaiting (clearSubmitState s)"
  "se_state (sendOk c s) = se_state s" "se_state (sendData d s) = se_state s"
  "se_state (sendError n c s) = se_state s" "se_state (putErr l s) = se_state s"
  "se_state (resetFlow s) = se_state s" "se_state (clearSubmitState s) = se_state s"
  "se_state (ensureFlowCookie env s) = se_state s" "se_state (snd (askDaemon env r t s)) = se_state s"
  "se_flowCookie (snd (askDaemon env r t s)) = se_flowCookie s" "se_awaiting (snd (askDaemon env r t s)) = se_awaiting s"
  "se_requests (snd (askDaemon env r t s)) = se_requests s @ [(r, t)]"
  "fst (askDaemon env r t s) = pe_reply env (length (se_requests s)) r"
  by (simp_all add: sendOk_def sendData_def sendError_def putLine_def clearError_def putErr_def resetFlow_def
      clearSubmitState_def ensureFlowCookie_def askDaemon_def)

section \<open>The Assuan dialogue\<close>

definition statusLine :: "string \<Rightarrow> bool" where
  "statusLine l \<longleftrightarrow> (startsWith l ''OK'' \<or> startsWith l ''ERR '') \<and> CHR 0x0A \<notin> set l"

definition dataLine :: "string \<Rightarrow> bool" where
  "dataLine l \<longleftrightarrow> startsWith l ''D '' \<and> CHR 0x0A \<notin> set l"

text \<open>An answer: data lines, then one status line.\<close>

definition isAnswer :: "string list \<Rightarrow> bool" where
  "isAnswer ls \<longleftrightarrow> ls \<noteq> [] \<and> list_all dataLine (butlast ls) \<and> statusLine (last ls)"

lemma ok_answer: "\<exists>ls. isAnswer ls \<and> se_out (sendOk [] s) = se_out s @ ls"
  by (rule exI [of _ "[''OK'']"]) (simp add: isAnswer_def statusLine_def startsWith_def sendOk_def putLine_def)

lemma encode_line: "CHR 0x0A \<notin> set (assuanEncode d)"
  using encodeChar_line by (auto simp: assuanEncode_def)

lemma data_answer: "\<exists>ls. isAnswer ls \<and> se_out (sendOk [] (sendData d s)) = se_out s @ ls"
  by (rule exI [of _ "[''D '' @ assuanEncode d, ''OK'']"])
    (simp add: isAnswer_def statusLine_def dataLine_def startsWith_def sendOk_def sendData_def putLine_def encode_line)

lemma error_answer: "\<exists>ls. isAnswer ls \<and> se_out (sendError 83886179 ''Operation cancelled'' s) = se_out s @ ls"
proof -
  have "CHR 0x0A \<notin> set (showNat n)" for n
    using showNat_digits [of "CHR 0x0A" n] by (auto simp: isDigit_def)
  then have "CHR 0x0A \<notin> set (showInt 83886179)" by (simp add: showInt_def)
  then show ?thesis
    by (intro exI [of _ "[''ERR '' @ showInt 83886179 @ '' Operation cancelled'']"])
      (simp add: isAnswer_def statusLine_def startsWith_def sendError_def putLine_def)
qed

lemma bye_answer: "\<exists>ls. isAnswer ls \<and> se_out (sendOk ''closing connection'' s) = se_out s @ ls"
  by (rule exI [of _ "[''OK closing connection'']"])
    (simp add: isAnswer_def statusLine_def startsWith_def sendOk_def putLine_def)

definition isBye :: "pinentry_env \<Rightarrow> string \<Rightarrow> bool" where
  "isBye env line \<longleftrightarrow> equalCI (fst (splitCommand (pe_hex env) line)) ''BYE''"

lemma handleCommand_cases [case_names bye field info pin confirm other]:
  assumes "isBye env line \<Longrightarrow> P (handleBye env s)"
    and "\<And>f. \<not> isBye env line \<Longrightarrow> P (setField f s)"
    and "\<And>arg. \<not> isBye env line \<Longrightarrow> P (handleGetInfo env arg s)"
    and "\<not> isBye env line \<Longrightarrow> P (handleGetPin env s)"
    and "\<not> isBye env line \<Longrightarrow> equalCI (fst (splitCommand (pe_hex env) line)) ''CONFIRM'' \<Longrightarrow> P (handleConfirm env s)"
    and "\<not> isBye env line \<Longrightarrow> P (True, sendOk [] s)"
  shows "P (handleCommand env line s)"
proof (cases "isBye env line")
  case True
  have "handleCommand env line s = handleBye env s"
    unfolding handleCommand_def case_prod_beta Let_def by (rule if_P) (use True in \<open>simp only: isBye_def\<close>)
  then show ?thesis using assms(1) [OF True] by simp
next
  case False
  have i: "(b \<Longrightarrow> P x) \<Longrightarrow> P y \<Longrightarrow> P (if b then x else y)" for b x y by simp
  show ?thesis
    unfolding handleCommand_def case_prod_beta Let_def
    by (intro i assms(2-) [OF False]) (use False in \<open>unfold isBye_def, blast+\<close>)
qed

lemma command_goes_on: "fst (handleCommand env line s) = (\<not> isBye env line)"
  by (rule handleCommand_cases)
    (simp_all add: handleBye_def setField_def handleGetInfo_def handleGetPin_def handleConfirm_def case_prod_beta)

lemma getpin_answer: "\<exists>ls. isAnswer ls \<and> se_out (snd (handleGetPin env s)) = se_out s @ ls"
  using data_answer error_answer
  by (auto simp: handleGetPin_def case_prod_beta Let_def split: option.split) (metis out_frames_ask(1) out_frames_report(3))+

lemma confirm_answer: "\<exists>ls. isAnswer ls \<and> se_out (snd (handleConfirm env s)) = se_out s @ ls"
  using ok_answer [of "snd (requestConfirmFromDaemon env s)"] error_answer [of "snd (requestConfirmFromDaemon env s)"]
  by (auto simp: handleConfirm_def case_prod_beta Let_def)


lemma command_answer: "\<exists>ls. isAnswer ls \<and> se_out (snd (handleCommand env line s)) = se_out s @ ls"
proof (rule handleCommand_cases)
  show "\<exists>ls. isAnswer ls \<and> se_out (snd (handleBye env s)) = se_out s @ ls"
    by (simp add: handleBye_def) (metis bye_answer out_frames_report(2))
  show "\<exists>ls. isAnswer ls \<and> se_out (snd (setField f s)) = se_out s @ ls" for f
    using ok_answer [of "s\<lparr>se_state := f (se_state s)\<rparr>"] by (simp add: setField_def)
  show "\<exists>ls. isAnswer ls \<and> se_out (snd (handleGetInfo env arg s)) = se_out s @ ls" for arg
    unfolding handleGetInfo_def snd_conv by (simp only: data_answer ok_answer split: if_split) simp
qed (simp_all add: getpin_answer confirm_answer ok_answer)

fun commandsRead :: "pinentry_env \<Rightarrow> string list \<Rightarrow> nat" where
  "commandsRead env [] = 0"
| "commandsRead env (line # input) =
     (if line = [] then commandsRead env input
      else if isBye env (stripCR line) then 1 else Suc (commandsRead env input))"

lemma loop_answers:
  "\<exists>answers. length answers = commandsRead env input \<and> list_all isAnswer answers
     \<and> se_out (commandLoop env input s) = se_out s @ concat answers"
proof (induction input arbitrary: s)
  case (Cons line input)
  show ?case
  proof (cases "line = []")
    case False
    obtain ls where ls: "isAnswer ls" "se_out (snd (handleCommand env (stripCR line) s)) = se_out s @ ls"
      using command_answer by blast
    show ?thesis
    proof (cases "isBye env (stripCR line)")
      case True
      then show ?thesis using ls False
        by (intro exI [of _ "[ls]"]) (simp add: case_prod_beta Let_def command_goes_on)
    next
      case go: False
      obtain as where "length as = commandsRead env input" "list_all isAnswer as"
        "se_out (commandLoop env input (snd (handleCommand env (stripCR line) s)))
           = se_out (snd (handleCommand env (stripCR line) s)) @ concat as"
        using Cons.IH by blast
      then show ?thesis using ls False go
        by (intro exI [of _ "ls # as"]) (simp add: case_prod_beta Let_def command_goes_on)
    qed
  qed (use Cons.IH [of s] in simp)
qed simp

text \<open>C15: gpg-agent is never left waiting and never gets a line too many: after the greeting, every
  non-empty line read, up to the first BYE, is answered by data lines followed by exactly one OK or
  ERR line, whatever the daemon answers, and no line written contains a line break.\<close>

theorem assuan_every_command_answered:
  "\<exists>answers. length answers = commandsRead env input \<and> list_all isAnswer answers
     \<and> se_out (runPinentry env input) = ''OK BB Auth Pinentry'' # concat answers"
proof -
  obtain answers where "length answers = commandsRead env input" "list_all isAnswer answers"
    "se_out (commandLoop env input (sendOk ''BB Auth Pinentry'' newPinentrySession))
       = se_out (sendOk ''BB Auth Pinentry'' newPinentrySession) @ concat answers"
    using loop_answers by blast
  moreover have "se_out (sendOk ''BB Auth Pinentry'' newPinentrySession) = [''OK BB Auth Pinentry'']"
    by (simp add: sendOk_def putLine_def newPinentrySession_def)
  ultimately show ?thesis
    by (intro exI [of _ answers]) (simp only: runPinentry_def out_frames_report append_Cons append_Nil simp_thms)
qed

section \<open>Terminal results\<close>

abbreviation msgType :: "jobject \<Rightarrow> string" where "msgType j \<equiv> toStr (jvalue j ''type'')"

text \<open>The daemon accepted the \<open>i\<close>-th request, a password request.\<close>

definition accepts :: "pinentry_env \<Rightarrow> nat \<Rightarrow> jobject \<Rightarrow> bool" where
  "accepts env i r \<longleftrightarrow> msgType r = ''pinentry_request'' \<and>
     (case pe_reply env i r of None \<Rightarrow> False
      | Some rep \<Rightarrow> msgType rep = ''pinentry_response'' \<and> toStr (jvalue rep ''result'') = ''ok'')"

definition reportsOn :: "jobject \<Rightarrow> jobject \<Rightarrow> bool" where
  "reportsOn r res \<longleftrightarrow> msgType res = ''pinentry_result'' \<and> jvalue res ''id'' = jvalue r ''cookie''
     \<and> toStr (jvalue res ''result'') \<in> {''success'', ''retry'', ''error'', ''cancelled''}"

definition log_ok :: "pinentry_env \<Rightarrow> pinentry_session \<Rightarrow> bool" where
  "log_ok env s \<longleftrightarrow> (se_awaiting s \<longrightarrow> se_flowCookie s \<noteq> []) \<and>
     (\<forall>i < length (se_requests s). accepts env i (fst (se_requests s ! i)) \<longrightarrow>
        (if Suc i < length (se_requests s) then reportsOn (fst (se_requests s ! i)) (fst (se_requests s ! Suc i))
         else se_awaiting s \<and> jvalue (fst (se_requests s ! i)) ''cookie'' = Some (JStr (se_flowCookie s))))"

lemma log_ok_same:
  assumes "log_ok env s" and "se_requests t = se_requests s" and "se_awaiting t = se_awaiting s"
    and "se_flowCookie t = se_flowCookie s"
  shows "log_ok env t"
  using assms by (simp add: log_ok_def)

text \<open>One more request in the log.\<close>

lemma log_ok_snoc:
  assumes "log_ok env s" and "se_requests t = se_requests s @ [(r, tm)]"
    and "se_awaiting t \<longrightarrow> se_flowCookie t \<noteq> []"
    and "accepts env (length (se_requests s)) r \<Longrightarrow> se_awaiting t \<and> jvalue r ''cookie'' = Some (JStr (se_flowCookie t))"
    and "\<And>q. se_awaiting s \<Longrightarrow> jvalue q ''cookie'' = Some (JStr (se_flowCookie s)) \<Longrightarrow> reportsOn q r"
  shows "log_ok env t"
  unfolding log_ok_def
proof (intro conjI allI impI)
  fix i assume i: "i < length (se_requests t)" and acc: "accepts env i (fst (se_requests t ! i))"
  show "if Suc i < length (se_requests t) then reportsOn (fst (se_requests t ! i)) (fst (se_requests t ! Suc i))
    else se_awaiting t \<and> jvalue (fst (se_requests t ! i)) ''cookie'' = Some (JStr (se_flowCookie t))"
  proof (cases "i < length (se_requests s)")
    case True
    then have e: "se_requests t ! i = se_requests s ! i" using assms(2) by (simp add: nth_append)
    have old: "if Suc i < length (se_requests s) then reportsOn (fst (se_requests s ! i)) (fst (se_requests s ! Suc i))
      else se_awaiting s \<and> jvalue (fst (se_requests s ! i)) ''cookie'' = Some (JStr (se_flowCookie s))"
      using assms(1) True acc unfolding log_ok_def e by blast
    show ?thesis
    proof (cases "Suc i < length (se_requests s)")
      case True
      then have "se_requests t ! Suc i = se_requests s ! Suc i" using assms(2) by (simp add: nth_append)
      then show ?thesis using old True assms(2) e by simp
    next
      case False
      then have "Suc i = length (se_requests s)" using \<open>i < length (se_requests s)\<close> by simp
      then have "se_requests t ! Suc i = (r, tm)" using assms(2) by (metis nth_append_length)
      then show ?thesis using old False assms(2,5) e \<open>i < length (se_requests s)\<close> by simp
    qed
  next
    case False
    then have "i = length (se_requests s)" using i assms(2) by simp
    then show ?thesis using acc assms(2,4) by simp
  qed
qed (use assms(3) in blast)

lemma request_types [simp]:
  "msgType (resultRequest c r e) = ''pinentry_result''" "msgType (passwordRequest c st) = ''pinentry_request''"
  "msgType (confirmRequest c st) = ''pinentry_request''"
  "jvalue (resultRequest c r e) ''id'' = Some (JStr c)" "toStr (jvalue (resultRequest c r e) ''result'') = r"
  "jvalue (passwordRequest c st) ''cookie'' = Some (JStr c)"
  by (simp_all add: resultRequest_def passwordRequest_def confirmRequest_def)

lemma report_log [simp]:
  "se_requests (reportTerminalResult env r e s) =
     (if se_flowCookie s = [] then se_requests s
      else se_requests s @ [(resultRequest (se_flowCookie s) r e, IPC_READ_TIMEOUT_MS)])"
  "se_awaiting (reportTerminalResult env r e s) = (se_flowCookie s = [] \<and> se_awaiting s)"
  "se_flowCookie (reportTerminalResult env r e s) = (if r = ''retry'' then se_flowCookie s else [])"
  "se_state (reportTerminalResult env r e s) = se_state s"
  by (simp_all add: reportTerminalResult_def Let_def case_prod_beta)

lemma log_ok_report:
  assumes "log_ok env s" and "r \<in> {''success'', ''retry'', ''error'', ''cancelled''}"
  shows "log_ok env (reportTerminalResult env r e s)"
proof (cases "se_flowCookie s = []")
  case True
  then have "reportTerminalResult env r e s = s" by (simp add: reportTerminalResult_def)
  then show ?thesis using assms(1) by simp
next
  case False
  show ?thesis
    by (rule log_ok_snoc [OF assms(1), of _ "resultRequest (se_flowCookie s) r e" IPC_READ_TIMEOUT_MS])
      (use False assms(2) in \<open>simp_all add: accepts_def reportsOn_def\<close>)
qed

lemma log_ok_end: "log_ok env s \<Longrightarrow> r \<in> {''success'', ''cancelled''} \<Longrightarrow> log_ok env (reportEnd env r s)"
  by (auto simp: reportEnd_def intro!: log_ok_report)

lemma ensure_nonempty: "(\<And>n. pe_uuid env n \<noteq> []) \<Longrightarrow> se_flowCookie (ensureFlowCookie env s) \<noteq> []"
  by (simp add: ensureFlowCookie_def)

lemma requestPassword_log:
  "se_requests (snd (requestPasswordFromDaemon env s)) =
     se_requests s @ [(passwordRequest (se_flowCookie (ensureFlowCookie env s)) (se_state s), PINENTRY_REQUEST_TIMEOUT_MS)]"
  by (simp add: requestPasswordFromDaemon_def Let_def case_prod_beta split: option.split)

lemma requestPassword_accepted:
  fixes env :: pinentry_env and s :: pinentry_session
  defines "c \<equiv> se_flowCookie (ensureFlowCookie env s)"
  assumes "accepts env (length (se_requests s)) (passwordRequest c (se_state s))"
  shows "se_awaiting (snd (requestPasswordFromDaemon env s))"
    and "se_flowCookie (snd (requestPasswordFromDaemon env s)) = c"
    and "fst (requestPasswordFromDaemon env s)
      = Some (toStr (jvalue (the (pe_reply env (length (se_requests s)) (passwordRequest c (se_state s)))) ''password''))"
  using assms(2)
  by (auto simp: requestPasswordFromDaemon_def Let_def case_prod_beta accepts_def c_def split: option.splits)

lemma requestPassword_refused:
  fixes env :: pinentry_env and s :: pinentry_session
  defines "c \<equiv> se_flowCookie (ensureFlowCookie env s)"
  assumes "\<not> accepts env (length (se_requests s)) (passwordRequest c (se_state s))"
  shows "\<not> se_awaiting (snd (requestPasswordFromDaemon env s))"
    and "se_flowCookie (snd (requestPasswordFromDaemon env s)) = []"
    and "fst (requestPasswordFromDaemon env s) = None"
  using assms(2)
  by (auto simp: requestPasswordFromDaemon_def Let_def case_prod_beta accepts_def c_def split: option.splits)

lemma requestPassword_state [simp]: "se_state (snd (requestPasswordFromDaemon env s)) = se_state s"
  by (simp add: requestPasswordFromDaemon_def Let_def case_prod_beta split: option.split)

lemma getPin_frames [simp]:
  "se_requests (snd (handleGetPin env s)) = se_requests (snd (requestPasswordFromDaemon env (reportRetry env s)))"
  "se_awaiting (snd (handleGetPin env s)) = se_awaiting (snd (requestPasswordFromDaemon env (reportRetry env s)))"
  "se_flowCookie (snd (handleGetPin env s)) = se_flowCookie (snd (requestPasswordFromDaemon env (reportRetry env s)))"
  by (simp_all add: handleGetPin_def Let_def case_prod_beta split: option.split)

lemma log_ok_getpin:
  assumes "log_ok env s" and "\<And>n. pe_uuid env n \<noteq> []"
  shows "log_ok env (snd (handleGetPin env s))"
proof -
  have retry: "log_ok env (reportRetry env s)" and idle: "\<not> se_awaiting (reportRetry env s)"
    using assms(1) log_ok_report [OF assms(1)] by (simp_all add: reportRetry_def) (auto simp: log_ok_def)
  let ?s = "reportRetry env s"
  let ?r = "passwordRequest (se_flowCookie (ensureFlowCookie env ?s)) (se_state ?s)"
  have "log_ok env (snd (requestPasswordFromDaemon env ?s))"
  proof (rule log_ok_snoc [OF retry requestPassword_log])
    show "se_awaiting (snd (requestPasswordFromDaemon env ?s)) \<longrightarrow> se_flowCookie (snd (requestPasswordFromDaemon env ?s)) \<noteq> []"
      using requestPassword_accepted [of env ?s] requestPassword_refused [of env ?s] ensure_nonempty [of env ?s] assms(2)
      by (cases "accepts env (length (se_requests ?s)) ?r") simp_all
  qed (use idle requestPassword_accepted [of env ?s] in simp_all)
  then show ?thesis by (rule log_ok_same) simp_all
qed

lemma log_ok_sendOk: "log_ok env s \<Longrightarrow> log_ok env (sendOk c s)"
  by (erule log_ok_same) simp_all

lemma log_ok_finalize: "log_ok env s \<Longrightarrow> log_ok env (finalizeOnStreamClose env s)"
  by (simp add: finalizeOnStreamClose_def log_ok_end)

lemma bye_finalizes: "handleBye env s = (False, sendOk ''closing connection'' (finalizeOnStreamClose env s))"
  by (simp add: handleBye_def finalizeOnStreamClose_def)

lemma log_ok_command:
  assumes "log_ok env s" and "\<And>n. pe_uuid env n \<noteq> []"
    and "\<not> equalCI (fst (splitCommand (pe_hex env) line)) ''CONFIRM''"
  shows "log_ok env (snd (handleCommand env line s))"
proof (rule handleCommand_cases)
  show "log_ok env (snd (handleBye env s))"
    by (simp add: bye_finalizes log_ok_sendOk log_ok_finalize assms(1))
  show "log_ok env (snd (setField f s))" for f
    by (rule log_ok_same [OF assms(1)]) (simp_all add: setField_def)
  show "log_ok env (snd (handleGetInfo env arg s))" for arg
    by (rule log_ok_same [OF assms(1)]) (simp_all add: handleGetInfo_def)
  show "log_ok env (snd (True, sendOk [] s))" by (rule log_ok_same [OF assms(1)]) simp_all
qed (use assms in \<open>simp_all add: log_ok_getpin\<close>)

lemma log_ok_loop:
  assumes "\<And>n. pe_uuid env n \<noteq> []"
  shows "log_ok env s \<Longrightarrow> list_all (\<lambda>l. \<not> equalCI (fst (splitCommand (pe_hex env) (stripCR l))) ''CONFIRM'') input
    \<Longrightarrow> log_ok env (commandLoop env input s)"
proof (induction input arbitrary: s)
  case (Cons line input)
  have "log_ok env (snd (handleCommand env (stripCR line) s))"
    using log_ok_command [OF Cons.prems(1) assms] Cons.prems(2) by simp
  then show ?case using Cons by (simp add: case_prod_beta)
qed simp

lemma finalize_closes:
  assumes "log_ok env s"
  shows "\<not> se_awaiting (finalizeOnStreamClose env s)" and "se_flowCookie (finalizeOnStreamClose env s) = []"
proof -
  have "se_flowCookie s \<noteq> [] \<or> \<not> se_awaiting s" using assms by (auto simp: log_ok_def)
  then show "\<not> se_awaiting (finalizeOnStreamClose env s)" "se_flowCookie (finalizeOnStreamClose env s) = []"
    by (auto simp: finalizeOnStreamClose_def reportEnd_def)
qed

text \<open>C14: no submitted password is left without a verdict.  In a dialogue without CONFIRM, every
  password request the daemon accepted is immediately followed by a \<open>pinentry_result\<close> with the
  same cookie that says success, retry, error or cancelled, however the dialogue ends, and when the
  program ends no flow is open.\<close>

theorem pinentry_reports_every_password:
  assumes "\<And>n. pe_uuid env n \<noteq> []"
    and "list_all (\<lambda>l. \<not> equalCI (fst (splitCommand (pe_hex env) (stripCR l))) ''CONFIRM'') input"
    and "reqs = map fst (se_requests (runPinentry env input))"
    and "i < length reqs" and "accepts env i (reqs ! i)"
  shows "Suc i < length reqs \<and> reportsOn (reqs ! i) (reqs ! Suc i)
    \<and> se_flowCookie (runPinentry env input) = [] \<and> \<not> se_awaiting (runPinentry env input)"
proof -
  have "log_ok env (sendOk ''BB Auth Pinentry'' newPinentrySession)"
    by (simp add: log_ok_def newPinentrySession_def sendOk_def putLine_def)
  then have l: "log_ok env (commandLoop env input (sendOk ''BB Auth Pinentry'' newPinentrySession))"
    by (rule log_ok_loop [OF assms(1) _ assms(2)])
  define s where "s = runPinentry env input"
  have "log_ok env s" and idle: "\<not> se_awaiting s" "se_flowCookie s = []"
    using log_ok_finalize [OF l] finalize_closes [OF l] unfolding s_def runPinentry_def by blast+
  moreover have i: "i < length (se_requests s)" and r: "reqs ! i = fst (se_requests s ! i)"
    using assms(3,4) by (simp_all add: s_def)
  ultimately have "if Suc i < length (se_requests s) then reportsOn (reqs ! i) (fst (se_requests s ! Suc i)) else se_awaiting s"
    using assms(5) unfolding log_ok_def by (metis (no_types, lifting))
  then show ?thesis using idle assms(3) by (simp add: s_def split: if_splits)
qed

lemma cancelled_line: "showInt 83886179 = ''83886179''"
proof -
  have "map char_of [56, 51, 56, 56, 54, 49, 55, 57 :: nat] = ''83886179''" by code_simp
  then show ?thesis by (simp add: showInt_def showNat.simps)
qed

lemma getpin_effect:
  assumes "\<not> se_awaiting s" and "c = se_flowCookie (ensureFlowCookie env s)"
    and "r = passwordRequest c (se_state s)" and "n = length (se_requests s)"
    and "pw = toStr (jvalue (the (pe_reply env n r)) ''password'')" and "t = snd (handleGetPin env s)"
  shows "se_requests t = se_requests s @ [(r, 300000)] \<and> ps_error (se_state t) = []
    \<and> se_awaiting t = accepts env n r \<and> se_flowCookie t = (if accepts env n r then c else [])
    \<and> se_out t = se_out s @ (if accepts env n r \<and> pw \<noteq> [] then [''D '' @ assuanEncode pw, ''OK'']
                             else [''ERR 83886179 Operation cancelled''])"
proof -
  have rr: "reportRetry env s = s" using assms(1) by (simp add: reportRetry_def)
  have "se_requests t = se_requests s @ [(r, 300000)]"
    by (simp add: assms(2,3,6) rr requestPassword_log PINENTRY_REQUEST_TIMEOUT_MS_def)
  moreover have "ps_error (se_state t) = []"
    by (simp add: assms(6) handleGetPin_def case_prod_beta Let_def clearError_def)
  moreover have "se_out t = se_out s @ (if accepts env n r \<and> pw \<noteq> [] then [''D '' @ assuanEncode pw, ''OK'']
      else [''ERR 83886179 Operation cancelled''])"
  proof (cases "accepts env n r")
    case True
    then have "fst (requestPasswordFromDaemon env s) = Some pw"
      using requestPassword_accepted(3) [of env s] by (simp add: assms(2-5))
    then show ?thesis using True
      by (simp add: assms(6) rr handleGetPin_def case_prod_beta Let_def)
        (simp add: sendOk_def sendData_def sendError_def putLine_def cancelled_line)
  next
    case False
    then have "fst (requestPasswordFromDaemon env s) = None"
      using requestPassword_refused(3) [of env s] by (simp add: assms(2-4))
    then show ?thesis using False
      by (simp add: assms(6) rr handleGetPin_def case_prod_beta Let_def)
        (simp add: sendError_def putLine_def cancelled_line)
  qed
  ultimately show ?thesis
    using requestPassword_accepted(1,2) [of env s] requestPassword_refused(1,2) [of env s]
    by (cases "accepts env n r") (simp_all add: assms(2-4,6) rr)
qed

text \<open>\<open>GETPIN\<close> on every branch: one request with the collected fields goes to the daemon; an
  accepted non-empty password comes out percent-encoded in one D line and its flow stays open for the
  verdict; everything else is answered with the cancel error, and a refused request ends the flow.
  The error text is used once.\<close>

theorem getpin_outcome:
  assumes "\<not> se_awaiting s" and "c = se_flowCookie (ensureFlowCookie env s)"
    and "r = passwordRequest c (se_state s)" and "n = length (se_requests s)"
    and "pw = toStr (jvalue (the (pe_reply env n r)) ''password'')" and "t = snd (handleGetPin env s)"
  shows "se_requests t = se_requests s @ [(r, 300000)] \<and> ps_error (se_state t) = []
    \<and> se_awaiting t = accepts env n r \<and> se_flowCookie t = (if accepts env n r then c else [])
    \<and> se_out t = se_out s @ (if accepts env n r \<and> pw \<noteq> [] then [''D '' @ assuanEncode pw, ''OK'']
                             else [''ERR 83886179 Operation cancelled''])"
  by (rule getpin_effect [OF assms])

text \<open>Asking again while the last password still awaits its verdict reports \<open>retry\<close> for it first, with
  the error text gpg-agent set or a default one, and asks under the same cookie.\<close>

theorem getpin_reports_retry:
  assumes "se_awaiting s" and "se_flowCookie s = c" and "c \<noteq> []"
  shows "map fst (se_requests (snd (handleGetPin env s))) = map fst (se_requests s) @
    [resultRequest c ''retry'' (orDefault ''Authentication failed'' (ps_error (se_state s))), passwordRequest c (se_state s)]"
proof -
  let ?s = "reportRetry env s"
  have c: "se_flowCookie ?s = c" using assms by (simp add: reportRetry_def)
  have st: "se_state ?s = se_state s" by (simp add: reportRetry_def)
  have r: "se_requests ?s = se_requests s @
      [(resultRequest c ''retry'' (orDefault ''Authentication failed'' (ps_error (se_state s))), IPC_READ_TIMEOUT_MS)]"
    using assms by (simp add: reportRetry_def)
  have "se_flowCookie (ensureFlowCookie env ?s) = c" using c assms(3) by (simp add: ensureFlowCookie_def)
  then show ?thesis by (simp add: requestPassword_log r st)
qed

section \<open>Two dialogues\<close>

definition okReply :: "string \<Rightarrow> jobject" where
  "okReply pw = [(''type'', JStr ''pinentry_response''), (''result'', JStr ''ok''), (''password'', JStr pw)]"

lemma lower_names:
  "toLower ''BYE'' = ''bye''" "toLower ''SETDESC'' = ''setdesc''" "toLower ''SETPROMPT'' = ''setprompt''"
  "toLower ''SETTITLE'' = ''settitle''" "toLower ''SETERROR'' = ''seterror''" "toLower ''SETOK'' = ''setok''"
  "toLower ''SETCANCEL'' = ''setcancel''" "toLower ''SETNOTOK'' = ''setnotok''" "toLower ''SETKEYINFO'' = ''setkeyinfo''"
  "toLower ''SETREPEAT'' = ''setrepeat''" "toLower ''OPTION'' = ''option''" "toLower ''GETINFO'' = ''getinfo''"
  "toLower ''GETPIN'' = ''getpin''" "toLower ''CONFIRM'' = ''confirm''"
  by (simp_all add: toLower_def lowerChar_def Let_def char_of_def bit_0)

lemma plain_commands:
  "handleCommand env ''GETPIN'' s = handleGetPin env s" "handleCommand env ''CONFIRM'' s = handleConfirm env s"
  "handleCommand env ''BYE'' s = handleBye env s"
  "stripCR ''GETPIN'' = ''GETPIN''" "stripCR ''CONFIRM'' = ''CONFIRM''" "stripCR ''BYE'' = ''BYE''"
proof -
  have sp: "splitCommand h ''GETPIN'' = (''GETPIN'', [])" "splitCommand h ''CONFIRM'' = (''CONFIRM'', [])"
    "splitCommand h ''BYE'' = (''BYE'', [])" for h
    by (simp_all add: splitCommand_def)
  show "handleCommand env ''GETPIN'' s = handleGetPin env s" "handleCommand env ''CONFIRM'' s = handleConfirm env s"
    "handleCommand env ''BYE'' s = handleBye env s"
    by (simp_all only: handleCommand_def sp equalCI_def lower_names Let_def prod.case list.inject list.distinct char.inject simp_thms if_True if_False)
qed (simp_all add: stripCR_def)

text \<open>An empty passphrase is told to gpg-agent as cancelled but to the daemon as a success: when
  the provider answers \<open>GETPIN\<close> with an empty text, the only line written is the cancel error,
  yet the flow stays open and closing the dialogue reports \<open>success\<close>.\<close>

theorem empty_passphrase_reported_success:
  assumes "\<And>r. pe_reply env 0 r = Some (okReply [])" and "pe_uuid env 0 = c" and "c \<noteq> []"
  shows "se_out (runPinentry env [''GETPIN'', ''BYE'']) =
      [''OK BB Auth Pinentry'', ''ERR 83886179 Operation cancelled'', ''OK closing connection'']
    \<and> map fst (se_requests (runPinentry env [''GETPIN'', ''BYE''])) =
      [passwordRequest c emptyState, resultRequest c ''success'' []]"
proof -
  let ?s = "sendOk ''BB Auth Pinentry'' newPinentrySession"
  let ?t = "snd (handleGetPin env ?s)"
  have s: "se_flowCookie (ensureFlowCookie env ?s) = c" "se_out ?s = [''OK BB Auth Pinentry'']"
    using assms(2) by (simp_all add: sendOk_def putLine_def ensureFlowCookie_def)
  have "accepts env 0 (passwordRequest c emptyState)" by (simp add: accepts_def assms(1) okReply_def)
  then have t: "se_awaiting ?t" "se_flowCookie ?t = c" "map fst (se_requests ?t) = [passwordRequest c emptyState]"
    "ps_error (se_state ?t) = []" "se_out ?t = [''OK BB Auth Pinentry'', ''ERR 83886179 Operation cancelled'']"
    using getpin_effect [of ?s c env _ 0 _ ?t, OF _ s(1) [symmetric] refl _ refl refl]
    by (simp_all only: s put_frames newPinentrySession_simps) (simp_all add: assms(1) okReply_def)
  have go: "fst (handleGetPin env ?s)" by (simp add: handleGetPin_def case_prod_beta Let_def)
  have run: "runPinentry env [''GETPIN'', ''BYE''] = finalizeOnStreamClose env (sendOk ''closing connection'' (finalizeOnStreamClose env ?t))"
    using go by (simp add: runPinentry_def case_prod_beta plain_commands bye_finalizes)
  have f: "finalizeOnStreamClose env ?t = reportTerminalResult env ''success'' [] ?t"
    using t(1,4) by (simp add: finalizeOnStreamClose_def reportEnd_def)
  have e: "finalizeOnStreamClose env (sendOk ''closing connection'' u) = sendOk ''closing connection'' u"
    if "\<not> se_awaiting u" "se_flowCookie u = []" for u
    using that by (simp add: finalizeOnStreamClose_def)
  have "runPinentry env [''GETPIN'', ''BYE''] = sendOk ''closing connection'' (reportTerminalResult env ''success'' [] ?t)"
    unfolding run f by (rule e) (use t(2) assms(3) in simp_all)
  then show ?thesis
    using t(2,3,5) assms(3) by (simp add: sendOk_def [of "''closing connection''"] putLine_def)
qed

lemma confirm_refused:
  assumes "pe_reply env (length (se_requests s)) (confirmRequest (se_flowCookie (ensureFlowCookie env s)) (se_state s)) = None"
  shows "se_requests (snd (handleConfirm env s)) =
      se_requests s @ [(confirmRequest (se_flowCookie (ensureFlowCookie env s)) (se_state s), PINENTRY_REQUEST_TIMEOUT_MS)]"
    and "se_flowCookie (snd (handleConfirm env s)) = []" and "\<not> se_awaiting (snd (handleConfirm env s))"
  using assms by (simp_all add: handleConfirm_def requestConfirmFromDaemon_def Let_def case_prod_beta)

text \<open>Unlike \<open>GETPIN\<close>, \<open>CONFIRM\<close> does not report on a password that still awaits its verdict: when
  the confirmation then fails, the flow is dropped and the daemon is never told how the password fared.\<close>

theorem confirm_drops_verdict:
  assumes "\<And>r. pe_reply env 0 r = Some (okReply pw)" and "\<And>r. pe_reply env 1 r = None"
    and "pe_uuid env 0 = c" and "c \<noteq> []"
  shows "map fst (se_requests (runPinentry env [''GETPIN'', ''CONFIRM'', ''BYE''])) =
      [passwordRequest c emptyState, confirmRequest c emptyState]"
proof -
  let ?s = "sendOk ''BB Auth Pinentry'' newPinentrySession"
  define t where "t = snd (handleGetPin env ?s)"
  let ?u = "snd (handleConfirm env t)"
  have s: "se_flowCookie (ensureFlowCookie env ?s) = c"
    using assms(3) by (simp add: ensureFlowCookie_def sendOk_def putLine_def)
  have acc: "accepts env 0 (passwordRequest c emptyState)" by (simp add: accepts_def assms(1) okReply_def)
  have t: "se_flowCookie t = c" "se_requests t = [(passwordRequest c emptyState, 300000)]"
    using getpin_effect [of ?s c env _ 0 _ t, OF _ s [symmetric] refl _ refl t_def] acc
    by (simp_all only: put_frames newPinentrySession_simps) simp_all
  have st: "se_state t = emptyState"
    by (simp add: t_def handleGetPin_def case_prod_beta Let_def clearError_def reportRetry_def emptyState_def split: option.split)
  have ec: "se_flowCookie (ensureFlowCookie env t) = c" using t(1) assms(4) by (simp add: ensureFlowCookie_def)
  have u: "se_flowCookie ?u = []" "\<not> se_awaiting ?u"
    "map fst (se_requests ?u) = [passwordRequest c emptyState, confirmRequest c emptyState]"
    using confirm_refused [of env t] assms(2) by (simp_all add: t(2) ec st)
  have "fst (handleGetPin env ?s)" "fst (handleConfirm env t)"
    by (simp_all add: handleGetPin_def handleConfirm_def case_prod_beta Let_def)
  then have "runPinentry env [''GETPIN'', ''CONFIRM'', ''BYE'']
      = finalizeOnStreamClose env (sendOk ''closing connection'' (finalizeOnStreamClose env ?u))"
    by (simp add: runPinentry_def case_prod_beta plain_commands bye_finalizes t_def)
  then show ?thesis using u by (simp add: finalizeOnStreamClose_def)
qed

section \<open>The daemon at the other end\<close>

text \<open>The two programs agree on the wire: the daemon reads a password request as what gpg-agent set
  (with the default prompt) and a confirmation request as a confirmation, and when it answers with the
  reply its pinentry manager builds for the provider's text, \<open>GETPIN\<close> hands exactly that text on and
  \<open>CONFIRM\<close> succeeds.\<close>

theorem pinentry_wire_compatible:
  "parsePinentryRequest (passwordRequest c st) socket pid =
     \<lparr>pr_cookie = c, pr_socket = socket, pr_peerPid = pid, pr_prompt = orDefault ''Enter passphrase:'' (ps_prompt st),
      pr_description = ps_description st, pr_error = ps_error st, pr_keyinfo = ps_keyinfo st,
      pr_repeat = (ps_repeat st \<noteq> []), pr_confirmOnly = False\<rparr>
   \<and> parsePinentryRequest (confirmRequest c st) socket pid =
     \<lparr>pr_cookie = c, pr_socket = socket, pr_peerPid = pid, pr_prompt = orDefault ''Please confirm'' (ps_description st),
      pr_description = [], pr_error = [], pr_keyinfo = [], pr_repeat = False, pr_confirmOnly = True\<rparr>
   \<and> fst (requestPasswordFromDaemon (env\<lparr>pe_reply := \<lambda>n r. Some (pinentryReply (parsePinentryRequest r socket pid) d txt)\<rparr>) s)
       = Some txt
   \<and> fst (requestConfirmFromDaemon (env\<lparr>pe_reply := \<lambda>n r. Some (pinentryReply (parsePinentryRequest r socket pid) d txt)\<rparr>) s)"
proof -
  have p: "pr_confirmOnly (parsePinentryRequest (passwordRequest c st) socket pid) = False"
    "pr_confirmOnly (parsePinentryRequest (confirmRequest c st) socket pid) = True" for c st
    by (simp_all add: parsePinentryRequest_def passwordRequest_def confirmRequest_def Let_def)
  have rep: "fst (requestPasswordFromDaemon (env\<lparr>pe_reply := \<lambda>n r. Some (pinentryReply (parsePinentryRequest r socket pid) d txt)\<rparr>) s)
       = Some txt"
    "fst (requestConfirmFromDaemon (env\<lparr>pe_reply := \<lambda>n r. Some (pinentryReply (parsePinentryRequest r socket pid) d txt)\<rparr>) s)"
    by (simp_all add: requestPasswordFromDaemon_def requestConfirmFromDaemon_def Let_def case_prod_beta pinentryReply_def p)
  have "parsePinentryRequest (passwordRequest c st) socket pid =
     \<lparr>pr_cookie = c, pr_socket = socket, pr_peerPid = pid, pr_prompt = orDefault ''Enter passphrase:'' (ps_prompt st),
      pr_description = ps_description st, pr_error = ps_error st, pr_keyinfo = ps_keyinfo st,
      pr_repeat = (ps_repeat st \<noteq> []), pr_confirmOnly = False\<rparr>"
    "parsePinentryRequest (confirmRequest c st) socket pid =
     \<lparr>pr_cookie = c, pr_socket = socket, pr_peerPid = pid, pr_prompt = orDefault ''Please confirm'' (ps_description st),
      pr_description = [], pr_error = [], pr_keyinfo = [], pr_repeat = False, pr_confirmOnly = True\<rparr>"
    by (simp_all add: parsePinentryRequest_def passwordRequest_def confirmRequest_def orDefault_def Let_def)
  with rep show ?thesis by blast
qed

section \<open>Concrete dialogues\<close>

text \<open>A daemon that answers every password request with \<open>pw\<close> and refuses its second request.\<close>

definition exampleDaemon :: "string \<Rightarrow> pinentry_env" where
  "exampleDaemon pw =
     \<lparr>pe_reply = (\<lambda>n r. if n = 1 then None else Some (okReply pw)), pe_uuid = (\<lambda>_. ''u''), pe_pid = 7, pe_hex = hexPair\<rparr>"

lemma exampleDaemon_simps [simp]:
  "pe_reply (exampleDaemon pw) n r = (if n = 1 then None else Some (okReply pw))" "pe_uuid (exampleDaemon pw) n = ''u''"
  by (simp_all add: exampleDaemon_def)

theorem getpin_outcome_witness:
  "se_out (snd (handleGetPin (exampleDaemon ''a%'') newPinentrySession)) = [''D a%25'', ''OK'']"
proof -
  have e: "assuanEncode ''a%'' = ''a%25''" by code_simp
  have "accepts (exampleDaemon ''a%'') 0 (passwordRequest ''u'' emptyState)" by (simp add: accepts_def okReply_def)
  then show ?thesis
    using getpin_outcome [of newPinentrySession "''u''" "exampleDaemon ''a%''", OF _ _ refl refl refl refl]
    by (simp add: ensureFlowCookie_def okReply_def e)
qed

theorem getpin_reports_retry_witness:
  "map fst (se_requests (snd (handleGetPin (exampleDaemon ''a'') (newPinentrySession\<lparr>se_awaiting := True, se_flowCookie := ''u''\<rparr>)))) =
     [resultRequest ''u'' ''retry'' ''Authentication failed'', passwordRequest ''u'' emptyState]"
  using getpin_reports_retry [of "newPinentrySession\<lparr>se_awaiting := True, se_flowCookie := ''u''\<rparr>" "''u''" "exampleDaemon ''a''"]
  by (simp add: orDefault_def emptyState_def)

theorem empty_passphrase_reported_success_witness:
  "map fst (se_requests (runPinentry (exampleDaemon []) [''GETPIN'', ''BYE''])) =
     [passwordRequest ''u'' emptyState, resultRequest ''u'' ''success'' []]"
  using empty_passphrase_reported_success [of "exampleDaemon []" "''u''"] by simp

theorem confirm_drops_verdict_witness:
  "map fst (se_requests (runPinentry (exampleDaemon ''a'') [''GETPIN'', ''CONFIRM'', ''BYE''])) =
     [passwordRequest ''u'' emptyState, confirmRequest ''u'' emptyState]"
  using confirm_drops_verdict [of "exampleDaemon ''a''" "''a''" "''u''"] by simp

theorem pinentry_reports_every_password_witness:
  "reportsOn (passwordRequest ''u'' emptyState) (fst (se_requests (runPinentry (exampleDaemon ''a'') [''GETPIN'']) ! 1))"
proof -
  let ?env = "exampleDaemon ''a''"
  let ?s = "sendOk ''BB Auth Pinentry'' newPinentrySession"
  define t where "t = snd (handleGetPin ?env ?s)"
  have acc: "accepts ?env 0 (passwordRequest ''u'' emptyState)" by (simp add: accepts_def okReply_def)
  have t: "se_flowCookie t = ''u''" "se_awaiting t" "se_requests t = [(passwordRequest ''u'' emptyState, 300000)]" "ps_error (se_state t) = []"
    using getpin_effect [of ?s "''u''" ?env _ 0 _ t, OF _ _ refl _ refl t_def] acc
    by (simp_all add: ensureFlowCookie_def)
  have run: "runPinentry ?env [''GETPIN''] = reportTerminalResult ?env ''success'' [] t"
    using t(2,4) by (simp add: runPinentry_def case_prod_beta plain_commands t_def [symmetric] finalizeOnStreamClose_def reportEnd_def)
  have "list_all (\<lambda>l. \<not> equalCI (fst (splitCommand (pe_hex ?env) (stripCR l))) ''CONFIRM'') [''GETPIN'']"
    by (simp add: plain_commands splitCommand_def equalCI_def lower_names)
  from pinentry_reports_every_password [OF _ this refl, of 0] acc t(1,3)
  show ?thesis by (simp add: run)
qed

end
