(* ===== verification/Entry_Points.thy ===== *)
theory Entry_Points
  imports Daemon Pinentry_Mode
begin

text \<open>
  The start of the programs: the choice of a mode in \<^verbatim>\<open>main.cpp\<close>, its command line interface,
  \<^verbatim>\<open>modes/daemon.cpp\<close>, \<^verbatim>\<open>common/Paths.cpp\<close>, and the loading of the desktop index
  (\<^verbatim>\<open>ensureDesktopIndex\<close> of \<^verbatim>\<open>core/RequestContext.cpp\<close>).  The parsed options, the
  standard paths, the connection to the daemon and the files are parameters.
\<close>

section \<open>Modes\<close>

datatype mode = DaemonMode | KeyringMode | PinentryMode | CliMode

definition detectModeFromArgv0 :: "string \<Rightarrow> mode" where
  "detectModeFromArgv0 argv0 =
     (let basename = fileName argv0
      in if containsCI basename ''pinentry'' then PinentryMode
         else if containsCI basename ''keyring'' then KeyringMode
         else CliMode)"

definition socketPathIn :: "string \<Rightarrow> string" where
  "socketPathIn runtimeDir = runtimeDir @ ''/bb-auth.sock''"

text \<open>The options as the parser of Qt found them; an option with a value is \<open>None\<close> when not set.\<close>

record cli_options =
  co_daemon :: bool
  co_keyring :: bool
  co_pinentry :: bool
  co_ping :: bool
  co_next :: bool
  co_respond :: "string option"
  co_cancel :: "string option"
  co_socket :: "string option"

text \<open>What the program does: one of its modes, or a command with its exit code and output.\<close>

datatype run_action = RunDaemon string | RunKeyring | RunPinentry | Exit int "jobject list"

text \<open>\<open>send\<close> is \<^verbatim>\<open>IpcClient::sendRequest\<close> on a socket path, \<open>password\<close> the line read from the
  standard input.\<close>

definition runCli :: "(string \<Rightarrow> jobject \<Rightarrow> int \<Rightarrow> jobject option) \<Rightarrow> string \<Rightarrow> string \<Rightarrow> string \<Rightarrow> cli_options \<Rightarrow> run_action" where
  "runCli send runtimeDir password socketPathOverride opts =
     (let path = (case co_socket opts of Some s \<Rightarrow> s
                  | None \<Rightarrow> if socketPathOverride \<noteq> [] then socketPathOverride else socketPathIn runtimeDir);
          isOk = (\<lambda>response. case response of Some r \<Rightarrow> toStr (jvalue r ''type'') = ''ok'' | None \<Rightarrow> False)
      in if co_daemon opts then RunDaemon path
         else if co_keyring opts then RunKeyring
         else if co_pinentry opts then RunPinentry
         else if co_ping opts
         then (case send path pingRequest IPC_READ_TIMEOUT_MS of
                 Some r \<Rightarrow> Exit (if toStr (jvalue r ''type'') = ''pong'' then 0 else 1) []
               | None \<Rightarrow> Exit 1 [])
         else if co_next opts
         then (case send path [(''type'', JStr ''next'')] 1000 of Some r \<Rightarrow> Exit 0 [r] | None \<Rightarrow> Exit 1 [])
         else case co_respond opts of
           Some cookie \<Rightarrow>
             Exit (if isOk (send path [(''type'', JStr ''session.respond''), (''id'', JStr cookie), (''response'', JStr password)] 1000)
                   then 0 else 1) []
         | None \<Rightarrow> (case co_cancel opts of
             Some cookie \<Rightarrow>
               Exit (if isOk (send path [(''type'', JStr ''session.cancel''), (''id'', JStr cookie)] 1000) then 0 else 1) []
           | None \<Rightarrow> RunDaemon path))"

definition mainAction ::
    "(string \<Rightarrow> jobject \<Rightarrow> int \<Rightarrow> jobject option) \<Rightarrow> string \<Rightarrow> string \<Rightarrow> string \<Rightarrow> cli_options \<Rightarrow> run_action" where
  "mainAction send runtimeDir password argv0 opts =
     (case detectModeFromArgv0 argv0 of
        PinentryMode \<Rightarrow> RunPinentry
      | KeyringMode \<Rightarrow> RunKeyring
      | _ \<Rightarrow> runCli send runtimeDir password [] opts)"

text \<open>\<^verbatim>\<open>runDaemon\<close>: the exit code when the agent does not start, else its initial state.\<close>

definition runDaemon ::
    "bool \<Rightarrow> bool \<Rightarrow> (string \<Rightarrow> bool) \<Rightarrow> string \<Rightarrow> string \<Rightarrow> string list \<Rightarrow> string list \<Rightarrow> int + daemon" where
  "runDaemon skipPolkit registered listens runtimeDir socketPathOverride dirs files =
     (let path = (if socketPathOverride = [] then socketPathIn runtimeDir else socketPathOverride)
      in case agentStart skipPolkit registered listens path dirs files of None \<Rightarrow> Inl 1 | Some d \<Rightarrow> Inr d)"

section \<open>The desktop index\<close>

text \<open>A desktop file and its keys in the group \<^verbatim>\<open>Desktop Entry\<close>, as \<^verbatim>\<open>QSettings\<close> reads
  them; \<open>toBoolStr\<close> is \<^verbatim>\<open>QVariant::toBool\<close> of a string.\<close>

definition toBoolStr :: "string \<Rightarrow> bool" where
  "toBoolStr s \<longleftrightarrow> \<not> (toLower s \<in> {''false'', ''0'', ''''})"

definition desktopEntry :: "string \<Rightarrow> (string \<Rightarrow> string option) \<Rightarrow> desktop_info option" where
  "desktopEntry file settings =
     (if (case settings ''NoDisplay'' of Some v \<Rightarrow> toBoolStr v | None \<Rightarrow> False) then None
      else let get = (\<lambda>k. case settings k of Some v \<Rightarrow> v | None \<Rightarrow> []);
               d = \<lparr>di_desktopId = fileName file, di_name = get ''Name'', di_iconName = get ''Icon'',
                    di_exec = filter (\<lambda>c. c \<noteq> CHR 0x22) (hd (splitOn (CHR '' '') (get ''Exec''))),
                    di_tryExec = get ''TryExec''\<rparr>
           in if di_name d \<noteq> [] then Some d else None)"

text \<open>The index and whether it has been built.\<close>

definition ensureDesktopIndex ::
    "(string \<times> (string \<Rightarrow> string option)) list \<Rightarrow> bool \<times> desktop_info list \<Rightarrow> bool \<times> desktop_info list" where
  "ensureDesktopIndex files st =
     (if fst st then st else (True, snd st @ List.map_filter (\<lambda>(file, settings). desktopEntry file settings) files))"

section \<open>Properties\<close>

text \<open>The index is built once, and every entry has a name and an identifier without directories.\<close>

lemma desktop_index_entries:
  "ensureDesktopIndex files' (ensureDesktopIndex files st) = ensureDesktopIndex files st
   \<and> list_all (\<lambda>d. di_name d \<noteq> [] \<and> CHR ''/'' \<notin> set (di_desktopId d)) (snd (ensureDesktopIndex files (False, [])))"
proof -
  have "di_name d \<noteq> [] \<and> CHR ''/'' \<notin> set (di_desktopId d)" if "desktopEntry f settings = Some d" for f settings d
    using that fileName_no_slash [of f] by (auto simp: desktopEntry_def Let_def split: if_splits)
  then show ?thesis
    by (auto simp: ensureDesktopIndex_def list_all_iff List.map_filter_def)
qed

text \<open>The health check exits with 0 exactly if the daemon answered with pong, and without a reply of the
  daemon no command succeeds.\<close>

lemma cli_exit_codes:
  "mainAction send dir pw argv0 \<lparr>co_daemon = False, co_keyring = False, co_pinentry = False, co_ping = True,
        co_next = nx, co_respond = rs, co_cancel = cn, co_socket = Some path\<rparr> = Exit 0 [] \<longleftrightarrow>
      detectModeFromArgv0 argv0 = CliMode
      \<and> (\<exists>r. send path pingRequest IPC_READ_TIMEOUT_MS = Some r \<and> toStr (jvalue r ''type'') = ''pong'')"
  "mainAction (\<lambda>_ _ _. None) dir pw argv0 opts \<noteq> Exit 0 out"
proof -
  have "detectModeFromArgv0 argv0 \<noteq> DaemonMode" by (simp add: detectModeFromArgv0_def Let_def)
  then show "mainAction send dir pw argv0 \<lparr>co_daemon = False, co_keyring = False, co_pinentry = False, co_ping = True,
        co_next = nx, co_respond = rs, co_cancel = cn, co_socket = Some path\<rparr> = Exit 0 [] \<longleftrightarrow>
      detectModeFromArgv0 argv0 = CliMode
      \<and> (\<exists>r. send path pingRequest IPC_READ_TIMEOUT_MS = Some r \<and> toStr (jvalue r ''type'') = ''pong'')"
    by (cases "detectModeFromArgv0 argv0") (auto simp: mainAction_def runCli_def Let_def split: option.split)
  show "mainAction (\<lambda>_ _ _. None) dir pw argv0 opts \<noteq> Exit 0 out"
    by (cases "detectModeFromArgv0 argv0") (auto simp: mainAction_def runCli_def Let_def split: option.split)
qed

text \<open>A daemon that starts serves the socket the clients compute, and its state is one of the reachable ones.\<close>

lemma runDaemon_reachable:
  assumes "runDaemon skipPolkit registered listens dir override dirs files = Inr d"
  shows "daemon_reachable d"
  using assms by (auto simp: runDaemon_def Let_def intro: daemon_reachable.start split: option.splits)

end
