(* ===== verification/Fallback_Geometry.thy ===== *)
theory Fallback_Geometry
  imports Prompt_Model
begin

text \<open>
  The size and the timers of the fallback window: \<^verbatim>\<open>configureSizingForIntent\<close>,
  \<^verbatim>\<open>ensureContentFits\<close>, \<^verbatim>\<open>scheduleEnsureContentFits\<close>, \<^verbatim>\<open>syncToCompositorSize\<close> and the
  show and resize events of \<^verbatim>\<open>FallbackWindow.cpp\<close>, and the intervals of its timers.  What Qt knows of screen, layout and
  margins is an argument.
\<close>

definition qBound :: "int \<Rightarrow> int \<Rightarrow> int \<Rightarrow> int" where
  "qBound lo v hi = max lo (min hi v)"

section \<open>Timers\<close>

text \<open>\<^verbatim>\<open>QString::toInt\<close>: 0 unless the text is a decimal number within \<^verbatim>\<open>int\<close>.\<close>

definition stringToInt :: "string \<Rightarrow> int" where
  "stringToInt s =
     (let t = trimmed s;
          negative = (t \<noteq> [] \<and> hd t = CHR ''-'');
          digits = (if t \<noteq> [] \<and> hd t \<in> {CHR ''-'', CHR ''+''} then tl t else t);
          n = foldl (\<lambda>n c. n * 10 + (int (of_char c) - 48)) 0 digits;
          v = (if negative then - n else n)
      in if digits = [] \<or> \<not> list_all isDigit digits \<or> v < - 2147483648 \<or> 2147483647 < v then 0 else v)"

definition idleIntervalMs :: "string \<Rightarrow> int" where
  "idleIntervalMs env = max 5000 (if env = [] then 30000 else stringToInt env)"

definition actionIntervalMs :: "string \<Rightarrow> int" where
  "actionIntervalMs env = qBound 250 (if env = [] then 12000 else stringToInt env) 120000"

section \<open>Sizes\<close>

record sizing =
  sz_baseWidth :: int
  sz_baseHeight :: int
  sz_minWidth :: int
  sz_minHeight :: int

definition configureSizingForIntent :: "prompt_intent \<Rightarrow> sizing" where
  "configureSizingForIntent intent =
     (if intent = OpenPgp then \<lparr>sz_baseWidth = 540, sz_baseHeight = 360, sz_minWidth = 500, sz_minHeight = 336\<rparr>
      else if intent = Unlock \<or> intent = RunCommand \<or> intent = Fingerprint \<or> intent = Fido2
      then \<lparr>sz_baseWidth = 540, sz_baseHeight = 280, sz_minWidth = 500, sz_minHeight = 240\<rparr>
      else \<lparr>sz_baseWidth = 540, sz_baseHeight = 290, sz_minWidth = 500, sz_minHeight = 240\<rparr>)"

text \<open>The size hint of a layout and, when it has one, its height for a width.\<close>

record layout_hint =
  lh_width :: int
  lh_height :: int
  lh_heightForWidth :: "(int \<Rightarrow> int) option"

record surroundings =
  sr_left :: int
  sr_top :: int
  sr_right :: int
  sr_bottom :: int
  sr_screen :: "(int \<times> int) option"
  sr_widget :: "int \<times> int"
  sr_content :: "layout_hint option"

text \<open>The widget's size, its minimum size and whether it is visible.\<close>

record geometry =
  ge_width :: int
  ge_height :: int
  ge_minWidth :: int
  ge_minHeight :: int
  ge_visible :: bool

definition QWIDGETSIZE_MAX :: int where "QWIDGETSIZE_MAX = 16777215"

definition availableSize :: "surroundings \<Rightarrow> int \<times> int" where
  "availableSize env = (case sr_screen env of Some (w, h) \<Rightarrow> (max 320 (w - 32), max 220 (h - 32)) | None \<Rightarrow> (680, 640))"

definition requiredContent :: "surroundings \<Rightarrow> int \<Rightarrow> int \<times> int" where
  "requiredContent env currentContentWidth =
     (case sr_content env of
        None \<Rightarrow> sr_widget env
      | Some hint \<Rightarrow>
          (lh_width hint,
           case lh_heightForWidth hint of
             None \<Rightarrow> lh_height hint
           | Some hfw \<Rightarrow> if hfw currentContentWidth > 0 \<and> hfw currentContentWidth < QWIDGETSIZE_MAX div 2
                         then hfw currentContentWidth else lh_height hint))"

definition ensureContentFits :: "sizing \<Rightarrow> surroundings \<Rightarrow> geometry \<Rightarrow> geometry" where
  "ensureContentFits sz env g =
     (let (availableWidth, availableHeight) = availableSize env;
          minWidth = min (sz_minWidth sz) availableWidth;
          minHeight = min (sz_minHeight sz) availableHeight;
          softMaxWidth = min 680 availableWidth;
          softMaxHeight = min 640 availableHeight;
          widthForHeight = qBound minWidth (max (ge_width g) (sz_baseWidth sz)) softMaxWidth;
          currentContentWidth = max 320 (widthForHeight - sr_left env - sr_right env);
          (requiredContentWidth, requiredContentHeight) = requiredContent env currentContentWidth;
          baselineWidth = qBound minWidth (sz_baseWidth sz) softMaxWidth;
          targetWidth = qBound minWidth (max baselineWidth (requiredContentWidth + sr_left env + sr_right env)) softMaxWidth;
          targetHeight = qBound minHeight (requiredContentHeight + sr_top env + sr_bottom env + 8) softMaxHeight;
          g = g\<lparr>ge_minWidth := minWidth, ge_minHeight := minHeight\<rparr>
      in if ge_visible g then g else g\<lparr>ge_width := targetWidth, ge_height := targetHeight\<rparr>)"

text \<open>The single shots that are due: calls of \<^verbatim>\<open>ensureContentFits\<close> and of
  \<^verbatim>\<open>syncToCompositorSize\<close>, each with its delay.  Immediate fits are merged into one.\<close>

record fit_timers =
  ft_scheduled :: bool
  ft_fits :: "int list"
  ft_syncs :: "int list"

definition scheduleEnsureContentFits :: "int \<Rightarrow> fit_timers \<Rightarrow> fit_timers" where
  "scheduleEnsureContentFits delayMs t =
     (if delayMs \<le> 0
      then if ft_scheduled t then t else t\<lparr>ft_scheduled := True, ft_fits := ft_fits t @ [0]\<rparr>
      else t\<lparr>ft_fits := ft_fits t @ [delayMs]\<rparr>)"

text \<open>The immediate fit fires.\<close>

definition fitNow :: "sizing \<Rightarrow> surroundings \<Rightarrow> geometry \<times> fit_timers \<Rightarrow> geometry \<times> fit_timers" where
  "fitNow sz env st =
     (let (g, t) = st
      in if 0 \<in> set (ft_fits t)
         then (ensureContentFits sz env g, t\<lparr>ft_scheduled := False, ft_fits := remove1 0 (ft_fits t)\<rparr>) else st)"

text \<open>\<^verbatim>\<open>syncToCompositorSize\<close>; the handle's size is \<open>None\<close> when there is no window handle.  The guard
  against re-entrance is only set while \<^verbatim>\<open>resize\<close> runs.\<close>

definition syncToCompositorSize :: "bool \<Rightarrow> (int \<times> int) option \<Rightarrow> geometry \<Rightarrow> geometry" where
  "syncToCompositorSize syncing handleSize g =
     (if syncing then g
      else case handleSize of
             None \<Rightarrow> g
           | Some (w, h) \<Rightarrow>
               if w \<le> 0 \<or> h \<le> 0 then g
               else if (ge_width g, ge_height g) = (w, h) then g
               else g\<lparr>ge_width := w, ge_height := h\<rparr>)"

definition showEvent :: "bool \<Rightarrow> (int \<times> int) option \<Rightarrow> geometry \<times> fit_timers \<Rightarrow> geometry \<times> fit_timers" where
  "showEvent syncing handleSize st =
     (let (g, t) = st;
          t = scheduleEnsureContentFits 140 (scheduleEnsureContentFits 40 (scheduleEnsureContentFits 0 t))
      in (syncToCompositorSize syncing handleSize g, t\<lparr>ft_syncs := ft_syncs t @ [0, 120, 260]\<rparr>))"

definition resizeEvent :: "bool \<Rightarrow> (int \<times> int) option \<Rightarrow> geometry \<times> fit_timers \<Rightarrow> geometry \<times> fit_timers" where
  "resizeEvent syncing handleSize st =
     (let (g, t) = st; g = syncToCompositorSize syncing handleSize g
      in (g, if ge_visible g
             then scheduleEnsureContentFits 260 (scheduleEnsureContentFits 90 (scheduleEnsureContentFits 0 t)) else t))"

text \<open>Following the compositor settles at once: a second run changes nothing, so the resize events it
  causes do not cause further ones.  And at most one immediate fit is ever due.\<close>

lemma sync_idempotent:
  "syncToCompositorSize False h (syncToCompositorSize False h g) = syncToCompositorSize False h g"
  by (auto simp: syncToCompositorSize_def split: option.split)

definition fits_ok :: "fit_timers \<Rightarrow> bool" where
  "fits_ok t \<longleftrightarrow> count_list (ft_fits t) 0 = (if ft_scheduled t then 1 else 0)"

lemma fits_ok_schedule: "fits_ok t \<Longrightarrow> fits_ok (scheduleEnsureContentFits d t)"
  by (simp add: fits_ok_def scheduleEnsureContentFits_def)

lemma count_list_remove1: "count_list (remove1 x xs) x = count_list xs x - 1"
  by (induction xs) auto

lemma fits_ok_events:
  assumes "fits_ok (snd st)"
  shows "fits_ok (snd (showEvent b h st))" "fits_ok (snd (resizeEvent b h st))" "fits_ok (snd (fitNow sz env st))"
proof -
  have "fits_ok (t\<lparr>ft_syncs := x\<rparr>) = fits_ok t" for t x by (simp add: fits_ok_def)
  then show "fits_ok (snd (showEvent b h st))" "fits_ok (snd (resizeEvent b h st))"
    using assms by (simp_all add: showEvent_def resizeEvent_def Let_def case_prod_beta fits_ok_schedule)
  show "fits_ok (snd (fitNow sz env st))"
    using assms count_notin [of 0 "ft_fits (snd st)"]
    by (auto simp: fitNow_def Let_def case_prod_beta fits_ok_def count_list_remove1)
qed

section \<open>Bounds\<close>

lemma qBound_range: "lo \<le> hi \<Longrightarrow> lo \<le> qBound lo v hi \<and> qBound lo v hi \<le> hi"
  by (simp add: qBound_def)

lemma qBound_reaches: "v \<le> hi \<Longrightarrow> v \<le> qBound lo v hi"
  by (simp add: qBound_def)

lemma configured_sizes:
  "240 \<le> sz_minHeight (configureSizingForIntent i) \<and> sz_minHeight (configureSizingForIntent i) \<le> 336
   \<and> sz_minWidth (configureSizingForIntent i) = 500 \<and> sz_baseWidth (configureSizingForIntent i) = 540"
  by (simp add: configureSizingForIntent_def)

text \<open>Whatever the environment says, the fallback process stays at least five seconds, and a pending
  action times out after a quarter of a second to two minutes.\<close>

theorem timer_intervals_bounded:
  "5000 \<le> idleIntervalMs env \<and> 250 \<le> actionIntervalMs env \<and> actionIntervalMs env \<le> 120000"
  by (simp add: idleIntervalMs_def actionIntervalMs_def qBound_def)

text \<open>A prompt that is not shown yet gets a size that leaves 32 pixels of the screen free in both
  directions, is at most 680 by 640 and at least the configured minimum as far as the screen allows, and
  is high enough for the content whenever the screen is.\<close>

theorem prompt_fits_screen:
  fixes i :: prompt_intent and env :: surroundings and g :: geometry
  assumes "sr_screen env = Some (sw, sh)" and "352 \<le> sw" and "252 \<le> sh" and "\<not> ge_visible g"
  defines "v \<equiv> ensureContentFits (configureSizingForIntent i) env g"
  shows "ge_width v \<le> min 680 (sw - 32) \<and> ge_height v \<le> min 640 (sh - 32)
    \<and> ge_width v \<ge> ge_minWidth v \<and> ge_height v \<ge> ge_minHeight v
    \<and> ge_minWidth v = min 500 (sw - 32) \<and> ge_minHeight v = min (sz_minHeight (configureSizingForIntent i)) (sh - 32)
    \<and> (\<exists>cw \<ge> 320. ge_height v = min 640 (sh - 32) \<or>
        snd (requiredContent env cw) + sr_top env + sr_bottom env + 8 \<le> ge_height v)"
proof -
  define cw where "cw = max 320 (qBound (min 500 (sw - 32)) (max (ge_width g) 540) (min 680 (sw - 32)) - sr_left env - sr_right env)"
  define req where "req = snd (requiredContent env cw) + sr_top env + sr_bottom env + 8"
  note c = configured_sizes [of i]
  have a: "availableSize env = (sw - 32, sh - 32)" using assms(1-3) by (simp add: availableSize_def)
  let ?mh = "min (sz_minHeight (configureSizingForIntent i)) (sh - 32)"
  have v: "ge_height v = qBound ?mh req (min 640 (sh - 32))" "ge_minHeight v = ?mh" "ge_minWidth v = min 500 (sw - 32)"
    "\<exists>x. ge_width v = qBound (min 500 (sw - 32)) x (min 680 (sw - 32))"
    using c assms(4) a by (auto simp: v_def ensureContentFits_def Let_def case_prod_beta cw_def req_def)
  have h: "?mh \<le> min 640 (sh - 32)" using c by linarith
  have w: "min 500 (sw - 32) \<le> min 680 (sw - 32)" by simp
  have "ge_height v = min 640 (sh - 32) \<or> req \<le> ge_height v"
    using h unfolding v(1) qBound_def by (cases "req \<le> min 640 (sh - 32)") (auto simp: max_absorb2 min_absorb1 min_absorb2)
  moreover have "320 \<le> cw" by (simp add: cw_def)
  ultimately have ex: "\<exists>cw \<ge> 320. ge_height v = min 640 (sh - 32) \<or>
      snd (requiredContent env cw) + sr_top env + sr_bottom env + 8 \<le> ge_height v"
    unfolding req_def by blast
  show ?thesis
    using v qBound_range [OF h, of req] qBound_range [OF w] ex by auto
qed

lemma prompt_fits_screen_witness:
  "ge_width (ensureContentFits (configureSizingForIntent Generic)
      \<lparr>sr_left = 18, sr_top = 18, sr_right = 18, sr_bottom = 18, sr_screen = Some (1920, 1080), sr_widget = (400, 200),
       sr_content = None\<rparr> \<lparr>ge_width = 540, ge_height = 290, ge_minWidth = 0, ge_minHeight = 0, ge_visible = False\<rparr>) \<le> 680"
  using prompt_fits_screen [of "\<lparr>sr_left = 18, sr_top = 18, sr_right = 18, sr_bottom = 18, sr_screen = Some (1920, 1080),
      sr_widget = (400, 200), sr_content = None\<rparr>" 1920 1080
      "\<lparr>ge_width = 540, ge_height = 290, ge_minWidth = 0, ge_minHeight = 0, ge_visible = False\<rparr>" Generic]
  by simp

end
