(* ===== verification/Agent_View.thy ===== *)
theory Agent_View
  imports Agent_Closure
begin

text \<open>
  What a user interface knows of the daemon's sessions.  A provider keeps a mirror of the
  sessions it is told about with the three session events; this theory shows that the mirror of
  the client in charge (the active provider or, without providers, every subscriber) is at every
  moment the daemon's own table, \<^verbatim>\<open>src/core/Agent.cpp\<close> with
  \<^verbatim>\<open>src/core/agent/EventRouter.cpp\<close>: no session is missed, none is left over, and prompt,
  error, hint and retry counters are the current ones.
\<close>

section \<open>The mirror\<close>

text \<open>What the events disclose of one session; the counters are compared as JSON values.\<close>

record mirror =
  mi_source :: string
  mi_prompt :: string
  mi_echo :: bool
  mi_error :: string
  mi_info :: string
  mi_retry :: "json option \<times> json option"

definition shown :: "session \<Rightarrow> mirror" where
  "shown s = \<lparr>mi_source = sourceToString (s_source s), mi_prompt = s_prompt s, mi_echo = s_echo s,
     mi_error = s_error s, mi_info = s_info s,
     mi_retry = (if s_source s = Pinentry
        then (Some (JInt (cx_curRetry (s_context s))), Some (JInt (cx_maxRetries (s_context s)))) else (None, None))\<rparr>"

definition shownSessions :: "session_store \<Rightarrow> string \<Rightarrow> mirror option" where
  "shownSessions st i = map_option shown (hash_find st i)"

text \<open>How a client reads an event; any other message leaves the mirror alone.\<close>

definition tell :: "jobject \<Rightarrow> (string \<Rightarrow> mirror option) \<Rightarrow> string \<Rightarrow> mirror option" where
  "tell e m =
     (let i = toStr (jvalue e ''id''); ty = toStr (jvalue e ''type'') in
      if ty = ''session.created''
      then m(i \<mapsto> \<lparr>mi_source = toStr (jvalue e ''source''), mi_prompt = [], mi_echo = False, mi_error = [],
                 mi_info = [],
                 mi_retry = (jvalue (toObject (jvalue e ''context'')) ''curRetry'',
                             jvalue (toObject (jvalue e ''context'')) ''maxRetries'')\<rparr>)
      else if ty = ''session.updated''
      then (case m i of
              None \<Rightarrow> m
            | Some x \<Rightarrow> m(i \<mapsto> \<lparr>mi_source = mi_source x, mi_prompt = toStr (jvalue e ''prompt''),
                 mi_echo = toBool (jvalue e ''echo''), mi_error = toStr (jvalue e ''error''),
                 mi_info = toStr (jvalue e ''info''),
                 mi_retry = (jvalue e ''curRetry'', jvalue e ''maxRetries'')\<rparr>))
      else if ty = ''session.closed'' then m(i := None)
      else m)"

definition toldBy :: "socket \<Rightarrow> (socket \<times> jobject \<times> bool) list \<Rightarrow> (string \<Rightarrow> mirror option) \<Rightarrow> string \<Rightarrow> mirror option" where
  "toldBy s xs m = fold (\<lambda>(t, j, w) m. if t = s then tell j m else m) xs m"

abbreviation told :: "socket \<Rightarrow> agent \<Rightarrow> string \<Rightarrow> mirror option" where
  "told s a \<equiv> toldBy s (a_sent a) Map.empty"

lemma toldBy_simps [simp]:
  "toldBy s [] m = m" "toldBy s (xs @ ys) m = toldBy s ys (toldBy s xs m)"
  "toldBy s ((t, j, w) # xs) m = toldBy s xs (if t = s then tell j m else m)"
  by (simp_all add: toldBy_def)

lemma tell_plain: "plain j \<Longrightarrow> tell j m = m"
  by (auto simp: tell_def isSessionEventForProviderRouting_def startsWith_def Let_def)

lemma context_retry:
  "jvalue (contextToJson s) ''curRetry'' = (if s_source s = Pinentry then Some (JInt (cx_curRetry (s_context s))) else None)"
  "jvalue (contextToJson s) ''maxRetries'' = (if s_source s = Pinentry then Some (JInt (cx_maxRetries (s_context s))) else None)"
  by (cases "s_source s"; simp add: contextToJson_def Let_def jvalue_addStr)+

lemma tell_created: "tell (toCreatedEvent (newSession i src ctx)) m = m(i \<mapsto> shown (newSession i src ctx))"
  unfolding tell_def Let_def event_types event_ids
  by (simp add: toCreatedEvent_def context_retry shown_def newSession_def)

lemma tell_updated:
  "m (s_id s) \<noteq> None \<Longrightarrow> map_option mi_source (m (s_id s)) = Some (sourceToString (s_source s)) \<Longrightarrow>
   tell (toUpdatedEvent s) m = m(s_id s \<mapsto> shown s)"
  unfolding tell_def Let_def event_types event_ids
  by (auto simp: toUpdatedEvent_retry toUpdatedEvent_texts shown_def)

lemma tell_closed: "tell (toClosedEvent s) m = m(s_id s := None)"
  unfolding tell_def Let_def event_types event_ids by simp

lemma tell_replay: "tell (toUpdatedEvent s) (tell (toCreatedEvent s) m) = m(s_id s \<mapsto> shown s)"
proof -
  have "tell (toCreatedEvent s) m (s_id s) \<noteq> None"
    "map_option mi_source (tell (toCreatedEvent s) m (s_id s)) = Some (sourceToString (s_source s))"
    "(tell (toCreatedEvent s) m)(s_id s \<mapsto> shown s) = m(s_id s \<mapsto> shown s)"
    by (simp_all add: tell_def Let_def toCreatedEvent_def)
  then show ?thesis using tell_updated [of "tell (toCreatedEvent s) m" s] by simp
qed

text \<open>A client that is told one event twice is not misled.\<close>

lemma tell_twice: "tell e (tell e m) = tell e m"
  by (auto simp: tell_def Let_def split: option.split)

lemma toldBy_repeat:
  assumes "\<forall>j \<in> set js. j = e" and "js \<noteq> []"
  shows "fold tell js m = tell e m"
  using assms
proof (induction js arbitrary: m)
  case (Cons j js)
  then show ?case by (cases "js = []") (auto simp: tell_twice)
qed simp

section \<open>The client in charge\<close>

text \<open>
  \<open>stays\<close>: the client is the active provider and remains it through every recomputation of
  this step: its heartbeat is recent at every time the clock shows, it is connected, and every
  other provider ranks below it.  \<open>attended\<close> adds the other case, a subscriber while no
  provider is registered.
\<close>

definition stays :: "env \<Rightarrow> socket \<Rightarrow> provider_registry \<Rightarrow> bool" where
  "stays e s r \<longleftrightarrow> hash_wf (uiProviders r) \<and> activeProvider r = s
     \<and> (\<exists>p. hash_find (uiProviders r) s = Some p \<and> (\<forall>n. alive (e_clock e n) (e_connected e) (s, p))
          \<and> (\<forall>(t, q) \<in> set (uiProviders r). t = s \<or> \<not> outranks q p))"

definition attended :: "env \<Rightarrow> socket \<Rightarrow> agent \<Rightarrow> bool" where
  "attended e s a \<longleftrightarrow> s \<noteq> nullptr \<and> e_connected e s \<and> e_valid e s
     \<and> (stays e s (a_registry a)
        \<or> (a_registry a = emptyRegistry \<and> s \<in> set (a_subscribers a)))"

lemma stays_recompute:
  assumes "stays e s r" shows "stays e s (snd (recomputeActiveProvider (e_clock e n) (e_connected e) r))"
proof -
  let ?ys = "filter (alive (e_clock e n) (e_connected e)) (uiProviders r)"
  let ?b = "snd (recomputeLoop (e_clock e n) (e_connected e) (uiProviders r) (nullptr, - 2147483648, 0))"
  obtain p where wf: "hash_wf (uiProviders r)" and p: "hash_find (uiProviders r) s = Some p"
    and al: "\<And>n. alive (e_clock e n) (e_connected e) (s, p)"
    and top: "\<forall>(t, q) \<in> set (uiProviders r). t = s \<or> \<not> outranks q p"
    using assms by (auto simp: stays_def)
  have mem: "(s, p) \<in> set ?ys" using map_of_SomeD [OF p] al by simp
  then obtain q where q: "(fst ?b, q) \<in> set ?ys" "\<forall>(t, x) \<in> set ?ys. outranks q x"
    using recompute_best [of "e_clock e n" "e_connected e" r] unfolding is_best_def
    by (metis empty_iff list.set(1))
  have "outranks q p" using q(2) mem by blast
  then have "fst ?b = s" using q(1) top by auto
  moreover have "hash_find ?ys s = Some p" using hash_find_filter [OF wf] p al by simp
  ultimately show ?thesis
    using hash_wf_filter [OF wf] al top by (auto simp: stays_def recompute_eq)
qed

lemma recompute_idle: "snd (recomputeActiveProvider now conn emptyRegistry) = emptyRegistry"
  by (simp add: recompute_eq emptyRegistry_def)

lemma stays_active: "stays e s r \<Longrightarrow> s \<noteq> nullptr \<Longrightarrow> hasActiveProvider r \<and> activeProvider r = s"
  by (auto simp: stays_def hasActiveProvider_def hash_has_def)

lemma attended_recompute: "attended e s a \<Longrightarrow> attended e s (snd (agentRecompute e a))"
  using stays_recompute recompute_idle by (auto simp: attended_def agentRecompute_registry)

lemma attended_same:
  "attended e s a \<Longrightarrow> a_registry b = a_registry a \<Longrightarrow> a_subscribers b = a_subscribers a \<Longrightarrow> attended e s b"
  by (simp add: attended_def)

lemma told_sendAll:
  "told s (sendAll e xs a) =
     (if s \<noteq> nullptr \<and> e_connected e s then fold tell (map snd (filter (\<lambda>x. fst x = s) xs)) (told s a) else told s a)"
  by (induction xs arbitrary: a) (auto simp: sendJson_def)

text \<open>Routing reaches the client in charge, whatever else it does.\<close>

lemma routeDirect_reaches:
  assumes "attended e s a" and "isSessionEventForProviderRouting ev"
  shows "(s, ev) \<in> set (routeDirect (e_valid e) ev (a_subscribers a) (a_registry a))"
    and "x \<in> set (routeDirect (e_valid e) ev (a_subscribers a) (a_registry a)) \<Longrightarrow> snd x = ev"
proof -
  show "(s, ev) \<in> set (routeDirect (e_valid e) ev (a_subscribers a) (a_registry a))"
    using assms stays_active [of e s "a_registry a"]
    by (auto simp: attended_def routeDirect_def hasActiveProvider_def emptyRegistry_def Let_def)
  show "x \<in> set (routeDirect (e_valid e) ev (a_subscribers a) (a_registry a)) \<Longrightarrow> snd x = ev"
    by (auto simp: routeDirect_def Let_def split: if_splits)
qed

lemma emit_waiters: "set (q_waiters (a_queue (emitSessionEvent e ev a))) \<subseteq> set (q_waiters (a_queue a))"
  using set_drop_subset by (force simp: emit_queue route_def Let_def drainToWaiters_eq enqueue_def split: if_splits)

lemma told_emit:
  assumes "attended e s a" and "isSessionEventForProviderRouting ev" and "s \<notin> set (q_waiters (a_queue a))"
  shows "told s (emitSessionEvent e ev a) = tell ev (told s a)"
proof -
  let ?d = "routeDirect (e_valid e) ev (a_subscribers a) (a_registry a)"
  let ?z = "fst (drainToWaiters (enqueue ev (a_queue a)))"
  have "q_waiters (enqueue ev (a_queue a)) = q_waiters (a_queue a)" by (simp add: enqueue_def Let_def)
  then have none: "filter (\<lambda>x. fst x = s) ?z = []"
    using assms(3) by (auto simp: drainToWaiters_eq filter_empty_conv dest: set_zip_leftD)
  let ?js = "map snd (filter (\<lambda>x. fst x = s) ?d)"
  have "\<forall>j \<in> set ?js. j = ev" using routeDirect_reaches(2) [OF assms(1,2)] by auto
  moreover have "?js \<noteq> []" using routeDirect_reaches(1) [OF assms(1,2)] by (force simp: filter_empty_conv)
  ultimately have "fold tell ?js m = tell ev m" for m by (rule toldBy_repeat)
  with none show ?thesis
    using assms(1) by (simp add: emitSessionEvent_def route_def Let_def case_prod_beta told_sendAll attended_def)
qed

section \<open>What keeps the mirror\<close>

definition mirrors :: "socket \<Rightarrow> agent \<Rightarrow> bool" where
  "mirrors s a \<longleftrightarrow> told s a = shownSessions (a_store a) \<and> s \<notin> set (q_waiters (a_queue a)) \<and> store_wf (a_store a)"

definition sees :: "env \<Rightarrow> socket \<Rightarrow> agent \<Rightarrow> bool" where
  "sees e s a \<longleftrightarrow> mirrors s a \<and> attended e s a"

text \<open>Steps that send no session event and change no session.\<close>

definition silent :: "agent \<Rightarrow> agent \<Rightarrow> bool" where
  "silent a b \<longleftrightarrow> a_store b = a_store a \<and> set (q_waiters (a_queue b)) \<subseteq> set (q_waiters (a_queue a))
     \<and> (\<exists>xs. a_sent b = a_sent a @ xs \<and> (\<forall>(t, j, w) \<in> set xs. plain j))"

lemma toldBy_plain: "\<forall>(t, j, w) \<in> set xs. plain j \<Longrightarrow> toldBy s xs m = m"
  by (induction xs) (auto simp: tell_plain)

lemma mirrors_silent: "mirrors s a \<Longrightarrow> silent a b \<Longrightarrow> mirrors s b"
  by (auto simp: mirrors_def silent_def toldBy_plain)

lemma silent_refl [simp]: "silent a a"
  by (simp add: silent_def)

lemma silent_trans: "silent a b \<Longrightarrow> silent b c \<Longrightarrow> silent a c"
  by (fastforce simp: silent_def)

named_theorems silent_intros \<open>operations that send no session event\<close>

lemma silent_same [silent_intros]:
  "a_store b = a_store a \<Longrightarrow> a_queue b = a_queue a \<Longrightarrow> a_sent b = a_sent a \<Longrightarrow> silent a b"
  by (simp add: silent_def)

lemma silent_send: "plain j \<Longrightarrow> silent a b \<Longrightarrow> silent a (sendJson e t j w b)"
  by (rule silent_trans) (auto simp: silent_def sendJson_def)

lemma silent_sendAll: "(\<And>t j. (t, j) \<in> set xs \<Longrightarrow> plain j) \<Longrightarrow> silent a b \<Longrightarrow> silent a (sendAll e xs b)"
  by (rule silent_trans) (auto simp: silent_def sendAll_sent)

lemma silent_announce:
  assumes "silent a b"
  shows "silent a (emitProviderStatus e b)" and "silent a (snd (agentRecompute e b))"
    and "silent a (recomputeAndAnnounce e b)" and "silent a (recomputeIfIdle e b)"
    and "silent a (ensureFallbackUiRunning e t b)" and "silent a (launchIfNeeded e t b)"
    and "silent a (snd (readClock e b))" and "silent a (snd (createUuid e b))"
proof -
  have s: "silent a (emitProviderStatus e c)" if "silent a c" for c
    using that by (auto simp: emitProviderStatus_def Let_def intro!: silent_sendAll)
  then show "silent a (emitProviderStatus e b)" using assms .
  have same: "silent a c" if "a_store c = a_store b" "a_queue c = a_queue b" "a_sent c = a_sent b" for c
    using assms that by (auto intro: silent_trans silent_same)
  then show r: "silent a (snd (agentRecompute e b))" by simp
  show "silent a (recomputeAndAnnounce e b)" "silent a (recomputeIfIdle e b)"
    using assms r s by (simp_all add: recomputeIfIdle_def recomputeAndAnnounce_def case_prod_beta)
  show "silent a (ensureFallbackUiRunning e t b)" by (rule same) simp_all
  then show "silent a (launchIfNeeded e t b)" using assms by (simp add: launchIfNeeded_def)
  show "silent a (snd (readClock e b))" by (rule same) simp_all
  show "silent a (snd (createUuid e b))" by (rule same) (simp_all add: createUuid_def)
qed

lemma attended_announce:
  assumes "attended e s a"
  shows "attended e s (emitProviderStatus e a)" and "attended e s (recomputeAndAnnounce e a)"
    and "attended e s (recomputeIfIdle e a)" and "attended e s (ensureFallbackUiRunning e t a)"
    and "attended e s (launchIfNeeded e t a)" and "attended e s (snd (readClock e a))"
proof -
  have same: "attended e s b" if "a_registry b = a_registry a" "a_subscribers b = a_subscribers a" for b
    using attended_same [OF assms] that by simp
  show "attended e s (emitProviderStatus e a)" by (rule same) simp_all
  show r: "attended e s (recomputeAndAnnounce e a)"
    using attended_same [OF attended_recompute [OF assms]] by simp
  show "attended e s (recomputeIfIdle e a)" using r assms by (simp add: recomputeIfIdle_def)
  show "attended e s (ensureFallbackUiRunning e t a)" by (rule same) simp_all
  then show "attended e s (launchIfNeeded e t a)" using assms by (simp add: launchIfNeeded_def)
  show "attended e s (snd (readClock e a))" by (rule same) simp_all
qed

lemma sees_silent: "sees e s a \<Longrightarrow> silent a b \<Longrightarrow> attended e s b \<Longrightarrow> sees e s b"
  by (auto simp: sees_def intro: mirrors_silent)

lemma sees_quiet:
  "sees e s a \<Longrightarrow> silent a b \<Longrightarrow> a_registry b = a_registry a \<Longrightarrow> a_subscribers b = a_subscribers a \<Longrightarrow> sees e s b"
  by (auto simp: sees_def intro: mirrors_silent attended_same)

lemma sees_announce:
  assumes "sees e s a"
  shows "sees e s (emitProviderStatus e a)" and "sees e s (recomputeAndAnnounce e a)"
    and "sees e s (recomputeIfIdle e a)" and "sees e s (ensureFallbackUiRunning e t a)"
    and "sees e s (launchIfNeeded e t a)" and "sees e s (snd (readClock e a))"
  using sees_silent [OF assms] attended_announce silent_announce [OF silent_refl] assms
  by (auto simp: sees_def)

lemma sees_send: "sees e s a \<Longrightarrow> plain j \<Longrightarrow> sees e s (sendJson e' t j w a)"
  by (rule sees_quiet) (auto intro: silent_send)

text \<open>The general step: the table has changed and the event says how.\<close>

lemma sees_emit:
  assumes "attended e s a" and "s \<notin> set (q_waiters (a_queue a))" and "store_wf (a_store a)"
    and "isSessionEventForProviderRouting ev" and "tell ev (told s a) = shownSessions (a_store a)"
  shows "sees e s (emitSessionEvent e ev a)"
  using assms emit_waiters [of e ev a] attended_same [OF assms(1), of "emitSessionEvent e ev a"]
  by (auto simp: sees_def mirrors_def told_emit)

lemma seesD:
  assumes "sees e s a"
  shows "attended e s a" "s \<notin> set (q_waiters (a_queue a))" "store_wf (a_store a)"
    "told s a = shownSessions (a_store a)"
  using assms by (simp_all add: sees_def mirrors_def)

lemma sees_create:
  assumes "sees e s a" shows "sees e s (snd (agentCreateSession e i src c a))"
proof (cases "hash_find (a_store a) i")
  case None
  let ?n = "newSession i src c"
  let ?b = "a\<lparr>a_store := hash_put i ?n (a_store a)\<rparr>"
  have "sees e s (emitSessionEvent e (toCreatedEvent ?n) ?b)"
    by (rule sees_emit)
       (auto simp: seesD [OF assms] tell_created shownSessions_def fun_eq_iff
        intro: attended_same [OF seesD(1) [OF assms]] store_wf_put [OF seesD(3) [OF assms]])
  then show ?thesis
    using None by (simp add: agentCreateSession_def storeCreate_def hash_has_def Let_def sees_announce)
next
  case (Some x)
  then show ?thesis using assms by (simp add: agentCreateSession_def storeCreate_def hash_has_def)
qed

text \<open>An update may follow a change that was not announced, as long as it concerns the same
  session: the event carries everything.\<close>

lemma sees_update_from:
  assumes "sees e s a" and "hash_find (a_store b) i = Some x" and "s_id x = i" and "s_state x = Prompting"
    and "map_option s_source (hash_find (a_store a) i) = Some (s_source x)"
    and "\<And>j. j \<noteq> i \<Longrightarrow> hash_find (a_store b) j = hash_find (a_store a) j" and "store_wf (a_store b)"
    and "a_registry b = a_registry a" "a_subscribers b = a_subscribers a" "a_queue b = a_queue a" "a_sent b = a_sent a"
  shows "sees e s (emitSessionEvent e (toUpdatedEvent x) b)"
proof (rule sees_emit)
  have t: "told s b = shownSessions (a_store a)" using assms(11) seesD(4) [OF assms(1)] by simp
  obtain z where "hash_find (a_store a) i = Some z" "s_source z = s_source x" using assms(5) by auto
  then have z: "shownSessions (a_store a) i = Some (shown z)" "mi_source (shown z) = sourceToString (s_source x)"
    by (simp_all add: shownSessions_def shown_def)
  have "tell (toUpdatedEvent x) (told s b) = (shownSessions (a_store a))(i \<mapsto> shown x)"
    using assms(3) z by (simp add: tell_updated t)
  also have "\<dots> = shownSessions (a_store b)"
    using assms(2,6) by (auto simp: shownSessions_def fun_eq_iff)
  finally show "tell (toUpdatedEvent x) (told s b) = shownSessions (a_store b)" .
qed (use assms seesD [OF assms(1)] in \<open>auto intro: attended_same\<close>)

lemma sees_updateWith:
  assumes "sees e s a" and "\<And>x. s_id (f x) = s_id x" "\<And>x. s_source (f x) = s_source x"
    "\<And>x. s_state x = Prompting \<Longrightarrow> s_state (f x) = Prompting"
  shows "sees e s (storeAndEmit e (storeUpdateWith f i) a)"
proof (cases "hash_find (a_store a) i")
  case (Some x)
  then have x: "s_id x = i" "s_state x = Prompting" using seesD(3) [OF assms(1)] by (auto simp: store_wf_def)
  have "sees e s (emitSessionEvent e (toUpdatedEvent (f x)) (a\<lparr>a_store := hash_put i (f x) (a_store a)\<rparr>))"
    by (rule sees_update_from [OF assms(1), of _ i])
       (use x Some assms(2-4) seesD(3) [OF assms(1)] in \<open>auto intro: store_wf_put\<close>)
  then show ?thesis using Some by (simp add: storeAndEmit_def storeUpdateWith_def)
qed (use assms in \<open>simp add: storeAndEmit_def storeUpdateWith_def\<close>)

lemma sees_updates:
  assumes "sees e s a"
  shows "sees e s (updateSessionPrompt e i t ec cl a)" and "sees e s (updateSessionError e i t a)"
    and "sees e s (onSessionRequest e i t ec a)" and "sees e s (onSessionRetry e i t a)"
    and "sees e s (onSessionInfo e i t a)"
  unfolding update_ops_defs storeUpdates_as_with by (rule sees_updateWith [OF assms]; simp)+

lemma sees_retry_prompt:
  assumes "sees e s a"
  shows "sees e s (updateSessionPrompt e i t ec cl (updateSessionPinentryRetry i x y a))"
proof (cases "hash_find (a_store a) i")
  case (Some u)
  let ?b = "updateSessionPinentryRetry i x y a"
  obtain v where v: "hash_find (a_store ?b) i = Some v" "s_id v = s_id u" "s_source v = s_source u" "s_state v = s_state u"
    using Some by (cases "s_source u = Pinentry") (auto simp: updateSessionPinentryRetry_def storeUpdatePinentryRetry_def)
  have o: "hash_find (a_store ?b) j = hash_find (a_store a) j" if "j \<noteq> i" for j
    using that by (auto simp: updateSessionPinentryRetry_def storeUpdatePinentryRetry_def split: option.split)
  have u: "s_id u = i" "s_state u = Prompting" using Some seesD(3) [OF assms] by (auto simp: store_wf_def)
  have w: "store_wf (a_store ?b)"
    using store_wf_ops(5) [OF seesD(3) [OF assms]] by (simp add: updateSessionPinentryRetry_def)
  let ?n = "setPrompt t ec cl v"
  have "sees e s (emitSessionEvent e (toUpdatedEvent ?n) (?b\<lparr>a_store := hash_put i ?n (a_store ?b)\<rparr>))"
    by (rule sees_update_from [OF assms, of _ i])
       (use u v o w Some in \<open>auto simp: updateSessionPinentryRetry_def intro: store_wf_put\<close>)
  then show ?thesis
    using v by (simp add: updateSessionPrompt_def storeAndEmit_def storeUpdatePrompt_def Let_def)
next
  case None
  then have "a_store (updateSessionPinentryRetry i x y a) = a_store a"
    by (simp add: updateSessionPinentryRetry_def storeUpdatePinentryRetry_def)
  then have "updateSessionPinentryRetry i x y a = a" by (simp add: updateSessionPinentryRetry_def)
  then show ?thesis using assms by (simp add: sees_updates)
qed

lemma sees_close_event:
  assumes "sees e s a" and "hash_find (a_store a) i = Some x"
    and "a_store b = hash_del i (a_store a)" and "attended e s b" and "told s b = told s a"
    and "set (q_waiters (a_queue b)) \<subseteq> set (q_waiters (a_queue a))"
  shows "sees e s (emitSessionEvent e (toClosedEvent (closeWith r x)) b)"
proof (rule sees_emit)
  have "s_id x = i" using assms(2) seesD(3) [OF assms(1)] by (simp add: store_wf_def)
  then show "tell (toClosedEvent (closeWith r x)) (told s b) = shownSessions (a_store b)"
    using assms(3,5) seesD(4) [OF assms(1)] by (auto simp: tell_closed shownSessions_def fun_eq_iff)
  show "store_wf (a_store b)" using seesD(3) [OF assms(1)] assms(3) by (auto simp: store_wf_def)
qed (use assms seesD [OF assms(1)] in auto)

lemma sees_closes:
  assumes "sees e s a"
  shows "sees e s (closeSession e i r a)" and "sees e s (onSessionComplete e i ok a)"
proof -
  have "sees e s (closeSession e i r a) \<and> sees e s (onSessionComplete e i ok a)"
  proof (cases "hash_find (a_store a) i")
    case (Some x)
    let ?c = "a\<lparr>a_store := hash_del i (a_store a)\<rparr>"
    have at: "attended e s ?c" using attended_same [OF seesD(1) [OF assms]] by simp
    have "told s (recomputeIfIdle e ?c) = told s a"
      using silent_announce(4) [OF silent_refl, of ?c e] by (auto simp: silent_def toldBy_plain)
    then have 1: "sees e s (emitSessionEvent e (toClosedEvent (closeWith r x)) (recomputeIfIdle e ?c))"
      by (intro sees_close_event [OF assms Some]) (use at in \<open>auto intro: attended_announce\<close>)
    have 2: "sees e s (emitSessionEvent e (toClosedEvent (closeWith r' x)) ?c)" for r'
      by (rule sees_close_event [OF assms Some]) (use at in auto)
    show ?thesis
      using Some 1 2 [THEN sees_announce(3)]
      by (simp add: agentCloseSession_def onSessionComplete_def storeClose_def Let_def)
  qed (use assms in \<open>simp add: agentCloseSession_def onSessionComplete_def storeClose_def\<close>)
  then show "sees e s (closeSession e i r a)" and "sees e s (onSessionComplete e i ok a)" by simp_all
qed

section \<open>Every event keeps it\<close>

lemma sees_fields: "sees e s a \<Longrightarrow> sees e s (a\<lparr>a_keyring := k, a_pinentry := pm, a_listener := l, a_uuids := n,
    a_polkit := pc, a_fault := b\<rparr>)"
  by (simp add: sees_def mirrors_def attended_def)

interpretation client: agent_closed e "sees e s" for e s
proof unfold_locales
  fix a j t w assume a: "sees e s a" and "ordinary j"
  then have "silent a (a\<lparr>a_sent := a_sent a @ [(t, j, w)]\<rparr>)" by (simp add: silent_def ordinary_def harmless_plain)
  with a show "sees e s (a\<lparr>a_sent := a_sent a @ [(t, j, w)]\<rparr>)" by (rule sees_quiet) simp_all
qed (simp_all add: sees_fields sees_create sees_updates sees_retry_prompt sees_closes sees_announce)

lemma plain_passwords [simp]: "plain (keyringReplyOk c x)" "plain (pinentryReply rq c x)"
  by (simp_all add: isSessionEventForProviderRouting_def startsWith_def keyringReplyOk_def pinentryReply_def)

lemma sees_respond: "sees e s a \<Longrightarrow> sees e s (handleRespond e t m a)"
  by (rule client.respond) (auto intro: sees_send)

lemma mirrors_of: "sees e s a \<Longrightarrow> mirrors s a"
  by (simp add: sees_def)

lemma silent_providers:
  "silent a (handleUIRegister e t m a)" "silent a (handleUIHeartbeat e t m a)" "silent a (handleUIUnregister e t m a)"
proof -
  note rules = silent_send silent_announce
  have r: "silent b (c\<lparr>a_registry := x\<rparr>) = silent b c" for b c x by (simp add: silent_def)
  show "silent a (handleUIRegister e t m a)"
    by (simp add: handleUIRegister_def agentRegister_def Let_def case_prod_beta r rules)
  show "silent a (handleUIHeartbeat e t m a)" "silent a (handleUIUnregister e t m a)"
    by (simp_all add: handleUIHeartbeat_def handleUIUnregister_def Let_def case_prod_beta r rules)
qed

text \<open>The list of tables, applied to \<^verbatim>\<open>handleSubscribe\<close>: a client that subscribes is told every
  live session once more, on top of what it knew.\<close>

lemma told_replay:
  assumes "s \<noteq> nullptr" and "e_connected e s" and "\<forall>(i, x) \<in> set st. s_id x = i" and "hash_wf st"
  shows "told s (fold (\<lambda>(c, x) a. sendJson e s (toUpdatedEvent x) False (sendJson e s (toCreatedEvent x) False a)) st a)
    = told s a ++ shownSessions st"
  using assms(3,4)
proof (induction st arbitrary: a)
  case Nil
  have "shownSessions [] = Map.empty" by (simp add: shownSessions_def fun_eq_iff)
  then show ?case by simp
next
  case (Cons ix st)
  obtain i x where ix: "ix = (i, x)" by force
  have x: "s_id x = i" and fresh: "hash_find st i = None" and st: "hash_wf st"
    using Cons.prems by (auto simp: ix hash_wf_def map_of_eq_None_iff)
  have 1: "told s (sendJson e s (toUpdatedEvent x) False (sendJson e s (toCreatedEvent x) False a))
      = (told s a)(i \<mapsto> shown x)"
    using assms(1,2) x by (simp add: sendJson_def tell_replay)
  have 2: "(m(i \<mapsto> shown x)) ++ shownSessions st = m ++ shownSessions (ix # st)" for m
    using fresh by (intro ext) (simp add: ix map_add_def shownSessions_def split: option.split)
  show ?case
    using Cons.IH [OF _ st, of "sendJson e s (toUpdatedEvent x) False (sendJson e s (toCreatedEvent x) False a)"]
      Cons.prems(1) 1 2 [of "told s a"] by (simp add: ix del: fun_upd_apply)
qed

lemma fold_replay_frame:
  "a_store (fold (\<lambda>(c, x) a. sendJson e t (toUpdatedEvent x) False (sendJson e t (toCreatedEvent x) False a)) st a) = a_store a"
  "a_queue (fold (\<lambda>(c, x) a. sendJson e t (toUpdatedEvent x) False (sendJson e t (toCreatedEvent x) False a)) st a) = a_queue a"
  "a_registry (fold (\<lambda>(c, x) a. sendJson e t (toUpdatedEvent x) False (sendJson e t (toCreatedEvent x) False a)) st a) = a_registry a"
  "a_subscribers (fold (\<lambda>(c, x) a. sendJson e t (toUpdatedEvent x) False (sendJson e t (toCreatedEvent x) False a)) st a)
     = a_subscribers a"
  by (induction st arbitrary: a) auto

lemma told_replay_other:
  "t \<noteq> s \<Longrightarrow> told s (fold (\<lambda>(c, x) a. sendJson e t (toUpdatedEvent x) False
      (sendJson e t (toCreatedEvent x) False a)) st a) = told s a"
proof (induction st arbitrary: a)
  case (Cons ix st)
  have "told s (sendJson e t j w b) = told s b" for j w b using Cons.prems by (simp add: sendJson_def)
  with Cons show ?case by (simp add: case_prod_beta)
qed simp

lemma told_plain: "plain j \<Longrightarrow> told u (sendJson e t j w a) = told u a"
  by (simp add: sendJson_def tell_plain)

definition canReceive :: "socket \<Rightarrow> agent \<Rightarrow> bool" where
  "canReceive t a \<longleftrightarrow> \<not> registryContains t (a_registry a) \<or> t = activeProvider (a_registry a)"

lemma subscribe_effect:
  fixes e t m a defines "b \<equiv> handleSubscribe e t m a"
  shows "a_store b = a_store a" "a_queue b = a_queue a" "a_registry b = a_registry a"
    "set (a_subscribers b) = insert t (set (a_subscribers a))"
    "t \<noteq> s \<Longrightarrow> told s b = told s a"
    "store_wf (a_store a) \<Longrightarrow> t \<noteq> nullptr \<Longrightarrow> e_connected e t \<Longrightarrow> canReceive t a \<Longrightarrow>
       told t b = told t a ++ shownSessions (a_store a)"
proof -
  let ?a = "if t \<in> set (a_subscribers a) then a else a\<lparr>a_subscribers := a_subscribers a @ [t]\<rparr>"
  let ?f = "\<lambda>st a. fold (\<lambda>(c, x) a. sendJson e t (toUpdatedEvent x) False (sendJson e t (toCreatedEvent x) False a)) st a"
  let ?r = "registryContains t (a_registry a)" and ?v = "t = activeProvider (a_registry a)"
  let ?c = "\<not> ?r \<or> ?v"
  let ?m = "[(''type'', JStr ''subscribed''),
             (''sessionCount'', JInt (if ?c then int (storeSize (a_store a)) else 0))]
             @ (if ?r then [(''active'', JBool ?v)] else [])"
  have b: "b = sendJson e t ?m False (if ?c then ?f (a_store a) ?a else ?a)"
    unfolding b_def handleSubscribe_def Let_def by (auto simp: fold_replay_frame)
  have p: "plain ?m" by (simp add: isSessionEventForProviderRouting_def startsWith_def)
  have tb: "told u b = told u (if ?c then ?f (a_store a) ?a else ?a)" for u unfolding b by (rule told_plain [OF p])
  show "a_store b = a_store a" "a_queue b = a_queue a" "a_registry b = a_registry a"
    "set (a_subscribers b) = insert t (set (a_subscribers a))"
    by (auto simp: b fold_replay_frame)
  show "t \<noteq> s \<Longrightarrow> told s b = told s a" by (simp add: tb told_replay_other)
  show "told t b = told t a ++ shownSessions (a_store a)"
    if "store_wf (a_store a)" "t \<noteq> nullptr" "e_connected e t" "canReceive t a"
  proof -
    have "\<forall>(i, x) \<in> set (a_store a). s_id x = i" "hash_wf (a_store a)"
      using that(1) hash_find_mem by (fastforce simp: store_wf_def)+
    then have "told t (?f (a_store a) ?a) = told t ?a ++ shownSessions (a_store a)"
      by (rule told_replay [OF that(2,3)])
    then show ?thesis using that(4) by (simp add: tb canReceive_def)
  qed
qed

lemma attended_receives: "attended e s a \<Longrightarrow> canReceive s a"
  by (auto simp: attended_def canReceive_def stays_def emptyRegistry_def registryContains_def)

lemma sees_subscribe:
  assumes "sees e s a" shows "sees e s (handleSubscribe e t m a)"
proof -
  note eff = subscribe_effect [where e = e and t = t and m = m and a = a]
  have at: "attended e s (handleSubscribe e t m a)"
    using seesD(1) [OF assms] eff(3,4) by (auto simp: attended_def)
  have "told s (handleSubscribe e t m a) = shownSessions (a_store a)"
  proof (cases "t = s")
    case True
    have "shownSessions (a_store a) ++ shownSessions (a_store a) = shownSessions (a_store a)"
      by (intro ext) (simp add: map_add_def split: option.split)
    then show ?thesis
      using True eff(6) attended_receives [OF seesD(1) [OF assms]] seesD [OF assms] by (simp add: attended_def)
  qed (simp add: eff(5) seesD(4) [OF assms])
  with at eff(1,2) assms show ?thesis by (simp add: sees_def mirrors_def)
qed

lemma sees_next:
  assumes "sees e s a" and "t \<noteq> s" shows "sees e s (handleNext e t m a)"
proof -
  have at: "attended e s (handleNext e t m a)"
    by (rule attended_same [OF seesD(1) [OF assms(1)]]) (simp_all add: handleNext_def case_prod_beta)
  have "a_store (handleNext e t m a) = a_store a" "told s (handleNext e t m a) = told s a"
    using assms(2) by (simp_all add: handleNext_def case_prod_beta sendJson_def)
  moreover have "set (q_waiters (a_queue (handleNext e t m a))) \<subseteq> insert t (set (q_waiters (a_queue a)))"
    by (auto simp: handleNext_def case_prod_beta subscribeNext_def takeNext_def split: list.split)
  ultimately show ?thesis using at assms by (auto simp: sees_def mirrors_def)
qed

lemma hash_del_mem: "x \<in> set (hash_del k t) \<Longrightarrow> x \<in> set t"
  by (induction t) (auto split: if_splits)

lemma stays_remove: "stays e s r \<Longrightarrow> t \<noteq> s \<Longrightarrow> stays e s (snd (removeSocket t r))"
  by (auto simp: stays_def removeSocket_def unregisterProvider_def dest!: hash_del_mem)

lemma sees_disconnect:
  assumes "sees e s a" and "t \<noteq> s" shows "sees e s (onClientDisconnected e t a)"
proof -
  define a1 where "a1 = a\<lparr>a_subscribers := removeOne t (a_subscribers a)\<rparr>"
  define a2 where "a2 = (if fst (removeSocket t (a_registry a1))
     then recomputeAndAnnounce e (a1\<lparr>a_registry := snd (removeSocket t (a_registry a1))\<rparr>) else a1)"
  define a3 where "a3 = a2\<lparr>a_queue := removeWaiter t (a_queue a2)\<rparr>"
  have e: "snd (removeSocket t emptyRegistry) = emptyRegistry"
    by (simp add: removeSocket_def unregisterProvider_def emptyRegistry_def)
  have at: "attended e s b"
    if "a_registry b = a_registry a \<or> a_registry b = snd (removeSocket t (a_registry a))"
      "a_subscribers b = removeOne t (a_subscribers a)" for b
    using that assms(2) seesD(1) [OF assms(1)] stays_remove [of e s _ t] e
    by (auto simp: attended_def)
  have 1: "sees e s a1"
    using sees_silent [OF assms(1), of a1] by (simp add: a1_def silent_def at)
  have "sees e s (a1\<lparr>a_registry := snd (removeSocket t (a_registry a1))\<rparr>)"
    using sees_silent [OF 1, of "a1\<lparr>a_registry := snd (removeSocket t (a_registry a1))\<rparr>"]
    by (simp add: a1_def silent_def at)
  then have 2: "sees e s a2" using 1 by (simp add: a2_def sees_announce)
  have 3: "sees e s a3"
    using sees_quiet [OF 2, of a3] by (auto simp: a3_def silent_def removeWaiter_def)
  have "onClientDisconnected e t a =
      launchIfNeeded e ''provider-disconnected'' (pinentryCleanupForSocket e t (keyringCleanupForSocket e t a3))"
    by (simp add: onClientDisconnected_def a3_def a2_def a1_def Let_def case_prod_beta)
  then show ?thesis by (simp add: client.launchIfNeeded client.managers 3)
qed

text \<open>Events that do not end the client's own part: it neither disconnects nor asks for queued events
  with \<open>next\<close>.\<close>

fun keepsClient :: "socket \<Rightarrow> happening \<Rightarrow> bool" where
  "keepsClient s (Message t ty msg) \<longleftrightarrow> t \<noteq> nullptr \<and> (t \<noteq> s \<or> ty \<noteq> ''next'')"
| "keepsClient s (Disconnect t) \<longleftrightarrow> t \<noteq> nullptr \<and> t \<noteq> s"
| "keepsClient s ev \<longleftrightarrow> True"

lemma mirrors_perform:
  assumes "sees e s a" and "keepsClient s ev" shows "mirrors s (perform e ev a)"
proof (cases ev)
  case (Message t ty m)
  have "mirrors s (handleUIRegister e t m a)" "mirrors s (handleUIHeartbeat e t m a)" "mirrors s (handleUIUnregister e t m a)"
    using mirrors_silent [OF mirrors_of [OF assms(1)]] silent_providers by blast+
  moreover have "mirrors s (handleNext e t m a)" if "ty = ''next''"
    using sees_next [OF assms(1)] assms(2) that by (auto simp: Message intro: mirrors_of)
  moreover note [simp] = mirrors_of [OF client.handlers(1) [OF assms(1)]] mirrors_of [OF client.handlers(2) [OF assms(1)]]
    mirrors_of [OF client.handlers(3) [OF assms(1)]] mirrors_of [OF client.handlers(4) [OF assms(1)]]
    mirrors_of [OF sees_respond [OF assms(1)]] mirrors_of [OF client.ping [OF assms(1)]]
    mirrors_of [OF sees_subscribe [OF assms(1)]] mirrors_of [OF sees_send [OF assms(1)]]
  ultimately show ?thesis by (simp add: Message handleMessage_eq split: if_split)
next
  case (Disconnect t)
  then show ?thesis using mirrors_of [OF sees_disconnect [OF assms(1), of t]] assms(2) by simp
qed (use assms(1) in \<open>auto intro!: mirrors_of [of e] client.managers client.listener client.pruneStale client.sends\<close>)

fun run :: "(env \<times> happening) list \<Rightarrow> agent \<Rightarrow> agent" where
  "run [] a = a"
| "run ((env, ev) # evs) a = run evs (perform env ev a)"

text \<open>The client is in charge before each event of the run.\<close>

fun inCharge :: "socket \<Rightarrow> (env \<times> happening) list \<Rightarrow> agent \<Rightarrow> bool" where
  "inCharge s [] a \<longleftrightarrow> True"
| "inCharge s ((env, ev) # evs) a \<longleftrightarrow> attended env s a \<and> keepsClient s ev \<and> inCharge s evs (perform env ev a)"

lemma mirrors_run: "mirrors s a \<Longrightarrow> inCharge s evs a \<Longrightarrow> mirrors s (run evs a)"
proof (induction s evs a rule: inCharge.induct)
  case (2 s env ev evs a)
  then show ?case using mirrors_perform [of env s a ev] by (simp add: sees_def)
qed simp

lemma store_wf_reachable: assumes "reachable a" shows "store_wf (a_store a)"
proof -
  have "agent_ok a" by (rule reachable_ok [OF assms])
  then show ?thesis by (simp add: agent_ok_def core_ok_def)
qed


definition still_env :: env where
  "still_env = example_env\<lparr>e_clock := (\<lambda>_. 10000)\<rparr>"

definition example_shell_msg :: jobject where
  "example_shell_msg = [(''name'', JStr ''shell''), (''kind'', JStr ''quickshell'')]"

definition example_with_shell :: agent where
  "example_with_shell = perform still_env (Message 7 ''ui.register'' example_shell_msg)
     (perform still_env (Message 4 ''pinentry_request'' example_pinentry_msg) (initAgent [] []))"

definition example_later :: "(env \<times> happening) list" where
  "example_later =
     [(still_env, Message 9 ''keyring_request'' example_keyring_msg),
      (still_env, Message 7 ''session.respond'' [(''id'', JStr ''p1''), (''response'', JStr ''secret'')]),
      (still_env, Message 7 ''session.cancel'' [(''id'', JStr ''k1'')])]"

definition shell_registry :: provider_registry where
  "shell_registry = \<lparr>uiProviders = [(7, \<lparr>p_id = ''uuid0'', p_name = ''shell'', p_kind = ''quickshell'',
     p_priority = 100, p_lastHeartbeatMs = 10000\<rparr>)], activeProvider = 7\<rparr>"

lemma toldBy_none:
  "filter (\<lambda>(t, j, w). t = s \<and> isSessionEventForProviderRouting j) xs = [] \<Longrightarrow> toldBy s xs m = m"
  by (induction xs arbitrary: m) (auto simp: tell_plain split: if_splits)

lemma shownSessions_facts:
  "shownSessions st i = None \<longleftrightarrow> hash_find st i = None"
  "map_option mi_prompt (shownSessions st i) = map_option s_prompt (hash_find st i)"
  by (cases "hash_find st i"; simp add: shownSessions_def shown_def)+

lemma shell_attended: "a_registry a = shell_registry \<Longrightarrow> attended still_env 7 a"
  by (simp add: attended_def stays_def shell_registry_def hash_wf_def alive_def still_env_def example_env_def
      PROVIDER_HEARTBEAT_TIMEOUT_MS_def)


end
