(* ===== verification/Agent_Belief.thy ===== *)
theory Agent_Belief
  imports Agent_Security Agent_View Fallback_Client
begin

text \<open>
  What the fallback client believes once it has read everything the daemon sent it, and that it is
  right: the sessions it would show are live in the daemon, and it takes itself for the active
  provider only while the daemon routes the session events to it.  Here the daemon's side
  (\<^verbatim>\<open>src/core/Agent.cpp\<close>, \<^verbatim>\<open>agent/ProviderRegistry.cpp\<close>) meets the reader's side
  (\<^verbatim>\<open>FallbackClient::handleMessage\<close>) over the log of what was sent.
\<close>

section \<open>The reader\<close>

text \<open>The sessions a window connected to the client's signals may be showing, with their sources.\<close>

definition heed :: "fb_signal \<Rightarrow> (string \<Rightarrow> string option) \<Rightarrow> string \<Rightarrow> string option" where
  "heed x k =
     (case x of
        SessionCreated e \<Rightarrow>
          if toStr (jvalue e ''id'') = [] then k else k(toStr (jvalue e ''id'') \<mapsto> toStr (jvalue e ''source''))
      | SessionClosed e \<Rightarrow> k(toStr (jvalue e ''id'') := None)
      | ProviderState active \<Rightarrow> if active then k else Map.empty
      | _ \<Rightarrow> k)"

definition knows :: "fb_client \<Rightarrow> string \<Rightarrow> string option" where
  "knows c = fold heed (fc_signals c) Map.empty"

definition sentTo :: "socket \<Rightarrow> (socket \<times> jobject \<times> bool) list \<Rightarrow> jobject list" where
  "sentTo s xs = map (\<lambda>m. fst (snd m)) (filter (\<lambda>m. fst m = s) xs)"

text \<open>The client on socket \<open>s\<close>, in state \<open>c\<close> when the connection was made, after reading all of it.\<close>

definition reader :: "socket \<Rightarrow> fb_client \<Rightarrow> agent \<Rightarrow> fb_client" where
  "reader s c a = fold clientMessage (sentTo s (a_sent a)) c"

lemma knows_emit [simp]: "knows (fcEmit x c) = heed x (knows c)"
  by (simp add: knows_def fcEmit_def)

lemma knows_cong: "fc_signals d = fc_signals c \<Longrightarrow> knows d = knows c"
  by (simp add: knows_def)

lemma knows_frames [simp]:
  "knows (fcSend j c) = knows c" "knows (clearPending c) = knows c" "knows (fcSubscribe c) = knows c"
  "knows (c\<lparr>fc_registered := b\<rparr>) = knows c" "knows (c\<lparr>fc_providerId := i\<rparr>) = knows c"
  "knows (c\<lparr>fc_subscribed := b\<rparr>) = knows c" "knows (c\<lparr>fc_providerActive := b\<rparr>) = knows c"
  "knows (c\<lparr>fc_pendingKnown := b, fc_pendingActive := b', fc_pendingId := i\<rparr>) = knows c"
  by (simp_all add: knows_def fcSend_def clearPending_def fcSubscribe_def)

lemma heed_simps [simp]:
  "heed (StatusMessage t) k = k" "heed (ConnectionState b) k = k" "heed (SessionUpdated ev) k = k"
  "heed (ProviderState True) k = k" "heed (ProviderState False) k = Map.empty"
  by (simp_all add: heed_def)

lemma heed_twice: "heed x (heed x k) = heed x k"
  by (auto simp: heed_def split: fb_signal.split)

text \<open>What the client thinks of itself.\<close>

definition stance :: "fb_client \<Rightarrow> bool \<times> bool \<times> string \<times> bool" where
  "stance c = (fc_registered c, fc_providerActive c, fc_providerId c, fc_pendingKnown c)"

lemma stance_simps [simp]:
  "stance (fcSend j c) = stance c" "stance (fcEmit x c) = stance c" "stance (fcSubscribe c) = stance c"
  "stance (c\<lparr>fc_subscribed := b\<rparr>) = stance c"
  by (simp_all add: stance_def fcSubscribe_def fcEmit_def)

lemma setActive_stance [simp]:
  "fc_registered (setProviderActive b c) = fc_registered c" "fc_providerActive (setProviderActive b c) = b"
  "fc_providerId (setProviderActive b c) = fc_providerId c" "fc_pendingKnown (setProviderActive b c) = fc_pendingKnown c"
  "knows (setProviderActive b c) = (if b \<or> \<not> fc_providerActive c then knows c else Map.empty)"
  by (auto simp: setProviderActive_def Let_def fcSubscribe_def fcEmit_def)
    (simp_all add: knows_def heed_def)

lemma clearPending_stance [simp]:
  "fc_registered (clearPending c) = fc_registered c" "fc_providerActive (clearPending c) = fc_providerActive c"
  "fc_providerId (clearPending c) = fc_providerId c" "\<not> fc_pendingKnown (clearPending c)"
  by (simp_all add: clearPending_def)


section \<open>Reading one message\<close>

lemma plain_types: "plain j \<Longrightarrow> toStr (jvalue j ''type'') \<notin> {''session.created'', ''session.updated'', ''session.closed''}"
  by (auto simp: isSessionEventForProviderRouting_def startsWith_def)

text \<open>Either nothing of interest changes, or the client gives up its role and forgets what it knew.\<close>

definition lapses :: "fb_client \<Rightarrow> fb_client \<Rightarrow> bool" where
  "lapses c d \<longleftrightarrow> fc_registered d = fc_registered c \<and> fc_providerId d = fc_providerId c
     \<and> fc_pendingKnown d = fc_pendingKnown c
     \<and> (fc_providerActive d = fc_providerActive c \<and> knows d = knows c
        \<or> \<not> fc_providerActive d \<and> knows d = (if fc_providerActive c then Map.empty else knows c))"

lemma lapses_refl [simp]: "lapses c c"
  by (simp add: lapses_def)

lemma lapses_emit [simp]: "lapses c (fcEmit (StatusMessage t) d) = lapses c d"
  by (simp add: lapses_def)

lemma read_ordinary:
  assumes "plain j" and "toStr (jvalue j ''type'') \<notin> {''ui.registered'', ''ui.active'', ''subscribed''}"
  shows "lapses c (clientMessage j c)"
proof -
  have "lapses c (setProviderActive False c)" by (auto simp: lapses_def)
  then show ?thesis using assms plain_types [OF assms(1)] by (simp add: clientMessage_def Let_def)
qed

lemma read_registered:
  "clientMessage [(''type'', JStr ''ui.registered''), (''id'', JStr i), (''active'', JBool b), (''priority'', p)] c
     = clearPending (setProviderActive b (c\<lparr>fc_registered := True, fc_providerId := i\<rparr>))"
  by (simp add: clientMessage_def onUiRegistered_def Let_def hash_has_def)

lemma read_status:
  assumes "fc_registered c" and "fc_providerId c \<noteq> []"
  shows "clientMessage (providerStatus r) c =
    (case activeProviderInfo r of
       None \<Rightarrow> clearPending (setProviderActive True c)
     | Some p \<Rightarrow> setProviderActive (p_id p = fc_providerId c) c)"
proof -
  have "activeProviderInfo r = None \<longleftrightarrow> \<not> hasActiveProvider r"
    by (auto simp: activeProviderInfo_def hasActiveProvider_def hash_has_def)
  then show ?thesis
    using assms by (auto simp: clientMessage_def providerStatus_def onUiActive_def Let_def split: option.split)
qed

lemma read_subscribed:
  "clientMessage ([(''type'', JStr ''subscribed''), (''sessionCount'', n)] @ (if r then [(''active'', JBool b)] else [])) c
     = (if r then setProviderActive b (c\<lparr>fc_subscribed := True\<rparr>) else c\<lparr>fc_subscribed := True\<rparr>)"
  by (simp add: clientMessage_def Let_def hash_has_def)

text \<open>Session events are heeded unless the client is registered without being active.\<close>

definition heeds :: "fb_client \<Rightarrow> bool" where
  "heeds c \<longleftrightarrow> fc_providerActive c \<or> \<not> fc_registered c"

lemma read_events:
  "clientMessage (toCreatedEvent x) c = (if heeds c then fcEmit (SessionCreated (toCreatedEvent x)) c else c)"
  "clientMessage (toUpdatedEvent x) c = (if heeds c then fcEmit (SessionUpdated (toUpdatedEvent x)) c else c)"
  "clientMessage (toClosedEvent x) c = (if heeds c then fcEmit (SessionClosed (toClosedEvent x)) c else c)"
  by (auto simp: clientMessage_def Let_def event_types heeds_def)

lemma heed_events:
  "heed (SessionCreated (toCreatedEvent x)) k =
     (if s_id x = [] then k else k(s_id x \<mapsto> sourceToString (s_source x)))"
  "heed (SessionClosed (toClosedEvent x)) k = k(s_id x := None)"
  by (simp_all add: heed_def event_ids) (simp add: toCreatedEvent_def)

text \<open>Reading an event more than once is like reading it once.\<close>

definition eventSignal :: "jobject \<Rightarrow> fb_signal \<Rightarrow> bool" where
  "eventSignal ev x \<longleftrightarrow> (\<forall>c. clientMessage ev c = (if heeds c then fcEmit x c else c))"

lemma heeds_emit [simp]: "heeds (fcEmit x c) = heeds c"
  by (simp add: heeds_def fcEmit_def)

lemma read_event_repeat:
  assumes "eventSignal ev x" and "\<forall>j \<in> set js. j = ev"
  shows "stance (fold clientMessage js c) = stance c"
    and "js \<noteq> [] \<Longrightarrow> knows (fold clientMessage js c) = (if heeds c then heed x (knows c) else knows c)"
proof -
  have "stance (fold clientMessage js c) = stance c
    \<and> knows (fold clientMessage js c) = (if heeds c \<and> js \<noteq> [] then heed x (knows c) else knows c)"
    using assms(2)
  proof (induction js arbitrary: c)
    case (Cons j js)
    then have "clientMessage j c = (if heeds c then fcEmit x c else c)" using assms(1) by (simp add: eventSignal_def)
    with Cons show ?case by (auto simp: heed_twice)
  qed simp
  then show "stance (fold clientMessage js c) = stance c"
    and "js \<noteq> [] \<Longrightarrow> knows (fold clientMessage js c) = (if heeds c then heed x (knows c) else knows c)"
    by auto
qed

section \<open>The log\<close>

lemma reader_log [simp]:
  "reader s c (a\<lparr>a_sent := xs @ [(t, j, w)]\<rparr>) =
     (if t = s then clientMessage j (reader s c (a\<lparr>a_sent := xs\<rparr>)) else reader s c (a\<lparr>a_sent := xs\<rparr>))"
  by (simp add: reader_def sentTo_def)

lemma reader_cong: "a_sent b = a_sent a \<Longrightarrow> reader s c b = reader s c a"
  by (simp add: reader_def)

lemma reader_send:
  "reader s c (sendJson e t j w a) =
     (if t = s \<and> s \<noteq> nullptr \<and> e_connected e s then clientMessage j (reader s c a) else reader s c a)"
  by (auto simp: sendJson_def)

lemma reader_sendAll:
  "reader s c (sendAll e xs a) =
     (if s \<noteq> nullptr \<and> e_connected e s then fold clientMessage (map snd (filter (\<lambda>x. fst x = s) xs)) (reader s c a)
      else reader s c a)"
  by (induction xs arbitrary: a) (auto simp: reader_send)


section \<open>The beliefs that are right\<close>

text \<open>The daemon knows a registered client, by its own identifier; it does not know one that is not.\<close>

definition placed :: "socket \<Rightarrow> fb_client \<Rightarrow> agent \<Rightarrow> bool" where
  "placed s v a \<longleftrightarrow> \<not> fc_pendingKnown v
     \<and> (if fc_registered v
        then fc_providerId v \<noteq> [] \<and> (s \<in> set (a_subscribers a) \<or> hash_has (uiProviders (a_registry a)) s)
          \<and> (\<forall>(t, p) \<in> set (uiProviders (a_registry a)). p_id p = fc_providerId v \<longleftrightarrow> t = s)
        else \<not> fc_providerActive v \<and> s \<notin> set (a_subscribers a) \<and> \<not> hash_has (uiProviders (a_registry a)) s)"

text \<open>Session events are routed to a client that takes itself for the active provider.\<close>

definition reached :: "socket \<Rightarrow> fb_client \<Rightarrow> agent \<Rightarrow> bool" where
  "reached s v a \<longleftrightarrow> (fc_providerActive v \<longrightarrow>
     activeProvider (a_registry a) = s \<or> activeProvider (a_registry a) = nullptr \<and> s \<in> set (a_subscribers a))"

definition sourceOf :: "session_store \<Rightarrow> string \<Rightarrow> string option" where
  "sourceOf st i = map_option (\<lambda>x. sourceToString (s_source x)) (hash_find st i)"

lemma sourceOf_simps [simp]:
  "sourceOf (hash_put j x st) i = (if i = j then Some (sourceToString (s_source x)) else sourceOf st i)"
  "sourceOf (hash_del j st) i = (if i = j then None else sourceOf st i)"
  by (simp_all add: sourceOf_def)

text \<open>What it knows of is live, with the right source, but for the sessions \<open>X\<close> that are just ending.\<close>

definition known :: "string set \<Rightarrow> fb_client \<Rightarrow> session_store \<Rightarrow> bool" where
  "known X v st \<longleftrightarrow>
     (if fc_providerActive v
      then \<forall>i src. knows v i = Some src \<longrightarrow>
        i \<in> X \<or> sourceOf st i = Some src
      else knows v = Map.empty)"

definition posted :: "socket \<Rightarrow> fb_client \<Rightarrow> string set \<Rightarrow> agent \<Rightarrow> bool" where
  "posted s c X a \<longleftrightarrow> placed s (reader s c a) a \<and> reached s (reader s c a) a \<and> known X (reader s c a) (a_store a)
     \<and> s \<notin> set (q_waiters (a_queue a)) \<and> store_wf (a_store a) \<and> registry_wf (a_registry a)"

text \<open>The registry after a recomputation: there is an active provider as soon as there is any.\<close>

definition elected :: "provider_registry \<Rightarrow> bool" where
  "elected r \<longleftrightarrow> registry_ok r \<and> (activeProvider r = nullptr \<longrightarrow> uiProviders r = [])"

text \<open>
  What the environment guarantees while one event is handled: the connection is up, the event takes
  less than the 15 s of the heartbeat timeout, and a client that has not subscribed yet is not
  overdue with its heartbeat.
\<close>

definition steady :: "env \<Rightarrow> socket \<Rightarrow> agent \<Rightarrow> bool" where
  "steady e s a \<longleftrightarrow> s \<noteq> nullptr \<and> e_connected e s \<and> e_valid e s
     \<and> (\<forall>m n. e_clock e m - e_clock e n \<le> PROVIDER_HEARTBEAT_TIMEOUT_MS)
     \<and> (s \<in> set (a_subscribers a)
        \<or> (\<forall>p n. hash_find (uiProviders (a_registry a)) s = Some p \<longrightarrow> alive (e_clock e n) (e_connected e) (s, p)))"

definition abreast :: "env \<Rightarrow> socket \<Rightarrow> fb_client \<Rightarrow> string set \<Rightarrow> agent \<Rightarrow> bool" where
  "abreast e s c X a \<longleftrightarrow> posted s c X a \<and> elected (a_registry a) \<and> steady e s a"

lemma recompute_elected: "registry_wf r \<Longrightarrow> elected (snd (recomputeActiveProvider now conn r))"
  using recompute_best [of now conn r] recompute_registry_ok [of r now conn]
  by (auto simp: elected_def recompute_eq is_best_def alive_def split: if_splits)

lemma elected_info:
  assumes "elected r"
  shows "activeProviderInfo r = None \<Longrightarrow> activeProvider r = nullptr \<and> uiProviders r = []"
    and "activeProviderInfo r = Some p \<Longrightarrow> (activeProvider r, p) \<in> set (uiProviders r)"
  using assms
  by (auto simp: elected_def registry_ok_def activeProviderInfo_def hasActiveProvider_def hash_has_def
      split: if_splits dest: map_of_SomeD)

lemma fold_settles:
  "\<forall>j \<in> set js. j = x \<Longrightarrow> js \<noteq> [] \<Longrightarrow> P (f x c) \<Longrightarrow> (\<And>d. P d \<Longrightarrow> P (f x d)) \<Longrightarrow> P (fold f js c)"
proof (induction js arbitrary: c)
  case (Cons j js)
  then show ?case by (cases "js = []") auto
qed simp

text \<open>An announcement puts everything right: whatever the client thought, it now knows its role.\<close>

lemma reader_status:
  assumes "steady e s a"
  obtains js where "\<forall>j \<in> set js. j = providerStatus (a_registry a)"
    and "reader s c (emitProviderStatus e a) = fold clientMessage js (reader s c a)"
    and "js \<noteq> [] \<longleftrightarrow> s \<in> set (a_subscribers a) \<or> hash_has (uiProviders (a_registry a)) s"
proof
  let ?provs = "filter (\<lambda>s. s \<noteq> nullptr \<and> e_valid e s) (registrySockets (a_registry a))"
  let ?subs = "filter (\<lambda>s. s \<noteq> nullptr \<and> e_valid e s \<and> s \<notin> set ?provs) (a_subscribers a)"
  let ?xs = "map (\<lambda>s. (s, providerStatus (a_registry a))) (?provs @ ?subs)"
  let ?js = "map snd (filter (\<lambda>x. fst x = s) ?xs)"
  show "\<forall>j \<in> set ?js. j = providerStatus (a_registry a)" by auto
  show "reader s c (emitProviderStatus e a) = fold clientMessage ?js (reader s c a)"
    using assms by (simp add: emitProviderStatus_def Let_def reader_sendAll steady_def)
  have "s \<in> set (?provs @ ?subs) \<longleftrightarrow> s \<in> set (a_subscribers a) \<or> hash_has (uiProviders (a_registry a)) s"
    using assms by (auto simp: steady_def registrySockets_def hash_has_keys)
  moreover have "?js \<noteq> [] \<longleftrightarrow> s \<in> set (?provs @ ?subs)" by (force simp: filter_empty_conv)
  ultimately show "?js \<noteq> [] \<longleftrightarrow> s \<in> set (a_subscribers a) \<or> hash_has (uiProviders (a_registry a)) s" by simp
qed

lemma posted_status:
  assumes "placed s (reader s c a) a" and "known X (reader s c a) (a_store a)"
    and "s \<notin> set (q_waiters (a_queue a))" "store_wf (a_store a)" and el: "elected (a_registry a)" and st: "steady e s a"
  shows "posted s c X (emitProviderStatus e a)"
proof -
  let ?v = "reader s c a" and ?r = "a_registry a" and ?b = "emitProviderStatus e a"
  have wf: "registry_wf ?r" using el by (simp add: elected_def registry_ok_wf)
  obtain js where js: "\<forall>j \<in> set js. j = providerStatus ?r" "reader s c ?b = fold clientMessage js ?v"
    "js \<noteq> [] \<longleftrightarrow> s \<in> set (a_subscribers a) \<or> hash_has (uiProviders ?r) s"
    using reader_status [OF st] by blast
  show ?thesis
  proof (cases "fc_registered ?v")
    case False
    then have "js = []" using js(3) assms(1) by (simp add: placed_def)
    with False assms wf js(2) show ?thesis by (simp add: posted_def placed_def reached_def)
  next
    case True
    then have i: "fc_providerId ?v \<noteq> []" and np: "\<not> fc_pendingKnown ?v" and ne: "js \<noteq> []"
      and ids: "\<forall>(t, p) \<in> set (uiProviders ?r). p_id p = fc_providerId ?v \<longleftrightarrow> t = s"
      using assms(1) js(3) by (simp_all add: placed_def)
    define B where "B = (case activeProviderInfo ?r of None \<Rightarrow> True | Some p \<Rightarrow> p_id p = fc_providerId ?v)"
    define P where "P d \<longleftrightarrow> fc_registered d \<and> fc_providerId d = fc_providerId ?v \<and> \<not> fc_pendingKnown d
      \<and> fc_providerActive d = B \<and> knows d = (if B \<or> \<not> fc_providerActive ?v then knows ?v else Map.empty)" for d
    have "P (reader s c ?b)"
      unfolding js(2)
    proof (rule fold_settles [OF js(1) ne])
      show "P (clientMessage (providerStatus ?r) ?v)"
        using True i np by (auto simp: read_status P_def B_def split: option.split)
      fix d assume "P d"
      then show "P (clientMessage (providerStatus ?r) d)"
        using i by (auto simp: read_status P_def B_def split: option.split)
    qed
    moreover have "B \<Longrightarrow> activeProvider ?r = s \<or> activeProvider ?r = nullptr \<and> s \<in> set (a_subscribers a)"
      using elected_info [OF el] ids assms(1) True
      by (fastforce simp: B_def placed_def hash_has_def split: option.splits)
    ultimately show ?thesis
      using assms True wf by (auto simp: posted_def P_def placed_def reached_def known_def split: if_splits)
  qed
qed


lemma alive_kept:
  "hash_wf (uiProviders r) \<Longrightarrow> hash_find (uiProviders (snd (recomputeActiveProvider now conn r))) t = Some p \<longleftrightarrow>
     hash_find (uiProviders r) t = Some p \<and> alive now conn (t, p)"
  by (auto simp: recompute_eq hash_find_filter split: option.split)

lemma steady_recompute:
  assumes "steady e s a" and "registry_wf (a_registry a)" shows "steady e s (snd (agentRecompute e a))"
  using assms by (auto simp: steady_def agentRecompute_registry alive_kept registry_wf_def)

lemma placed_recompute:
  assumes "placed s v a" and "steady e s a" and "registry_wf (a_registry a)"
  shows "placed s v (snd (agentRecompute e a))"
proof -
  let ?p = "uiProviders (a_registry a)" and ?q = "uiProviders (a_registry (snd (agentRecompute e a)))"
  have "set ?q \<subseteq> set ?p" by (auto simp: agentRecompute_registry recompute_eq)
  moreover have "hash_has ?q s \<longrightarrow> hash_has ?p s"
    using assms(3) by (auto simp: agentRecompute_registry alive_kept registry_wf_def hash_has_def)
  moreover have "hash_has ?p s \<Longrightarrow> s \<in> set (a_subscribers a) \<or> hash_has ?q s"
    using assms(2,3) by (fastforce simp: agentRecompute_registry alive_kept registry_wf_def hash_has_def steady_def)
  ultimately show ?thesis using assms(1) by (auto simp: placed_def split: if_splits)
qed

text \<open>Where a recomputation leads, before it is announced.\<close>

lemma recomputed:
  assumes "posted s c X a" and "steady e s a"
  defines "b \<equiv> snd (agentRecompute e a)"
  shows "placed s (reader s c b) b" "known X (reader s c b) (a_store b)" "s \<notin> set (q_waiters (a_queue b))"
    "store_wf (a_store b)" "elected (a_registry b)" "steady e s b"
    "\<not> fst (agentRecompute e a) \<Longrightarrow> reached s (reader s c b) b" "reader s c b = reader s c a"
proof -
  have wf: "registry_wf (a_registry a)" using assms(1) by (simp add: posted_def)
  show v: "reader s c b = reader s c a" by (rule reader_cong) (simp add: b_def)
  show "elected (a_registry b)" by (simp add: b_def agentRecompute_registry recompute_elected [OF wf])
  show "steady e s b" unfolding b_def by (rule steady_recompute [OF assms(2) wf])
  show "placed s (reader s c b) b"
    unfolding v using placed_recompute [OF _ assms(2) wf] assms(1) by (simp add: b_def posted_def)
  show "known X (reader s c b) (a_store b)" "s \<notin> set (q_waiters (a_queue b))" "store_wf (a_store b)"
    using assms(1) unfolding v by (simp_all add: posted_def b_def)
  assume "\<not> fst (agentRecompute e a)"
  then have "activeProvider (a_registry b) = activeProvider (a_registry a)"
    using recompute_changed [of "e_clock e (a_clockReads a)" "e_connected e" "a_registry a"]
    by (simp add: b_def agentRecompute_def readClock_def Let_def case_prod_beta)
  then show "reached s (reader s c b) b" using assms(1) unfolding v by (simp add: posted_def reached_def b_def)
qed

lemma abreast_announce:
  assumes "posted s c X a" and "steady e s a" shows "abreast e s c X (recomputeAndAnnounce e a)"
proof -
  define b where "b = snd (agentRecompute e a)"
  note r = recomputed [OF assms, folded b_def]
  have "posted s c X (if fst (agentRecompute e a) then emitProviderStatus e b else b)"
    using posted_status [OF r(1-6)] r by (simp add: posted_def elected_def registry_ok_wf)
  then show ?thesis
    using r(5,6) by (simp add: abreast_def recomputeAndAnnounce_def case_prod_beta b_def [symmetric]) (simp add: steady_def)
qed

section \<open>Session events\<close>

lemma abreastD:
  assumes "abreast e s c X a"
  shows "posted s c X a" "elected (a_registry a)" "steady e s a" "s \<noteq> nullptr" "e_connected e s"
    "placed s (reader s c a) a" "reached s (reader s c a) a" "known X (reader s c a) (a_store a)"
    "s \<notin> set (q_waiters (a_queue a))" "store_wf (a_store a)" "registry_wf (a_registry a)"
  using assms by (simp_all add: abreast_def posted_def steady_def)

lemma abreast_cong:
  assumes "abreast e s c X a" and "a_store b = a_store a" "a_registry b = a_registry a"
    "a_subscribers b = a_subscribers a" "a_sent b = a_sent a" "set (q_waiters (a_queue b)) \<subseteq> set (q_waiters (a_queue a))"
  shows "abreast e s c X b"
proof -
  have "reader s c b = reader s c a" by (rule reader_cong) (rule assms(5))
  then show ?thesis
    using assms by (auto simp: abreast_def posted_def placed_def reached_def steady_def)
qed

lemma reader_emit:
  assumes "s \<noteq> nullptr" "e_connected e s" "e_valid e s" and "s \<notin> set (q_waiters (a_queue a))"
    and "isSessionEventForProviderRouting ev" and "elected (a_registry a)"
  obtains js where "\<forall>j \<in> set js. j = ev"
    and "reader s c (emitSessionEvent e ev a) = fold clientMessage js (reader s c a)"
    and "activeProvider (a_registry a) = s \<or> activeProvider (a_registry a) = nullptr \<and> s \<in> set (a_subscribers a) \<Longrightarrow> js \<noteq> []"
    and "s \<notin> set (a_subscribers a) \<Longrightarrow> \<not> hash_has (uiProviders (a_registry a)) s \<Longrightarrow> js = []"
proof
  let ?d = "routeDirect (e_valid e) ev (a_subscribers a) (a_registry a)"
  let ?z = "fst (drainToWaiters (enqueue ev (a_queue a)))"
  let ?js = "map snd (filter (\<lambda>x. fst x = s) ?d)"
  have ok: "registry_ok (a_registry a)" using assms(6) by (simp add: elected_def)
  have "q_waiters (enqueue ev (a_queue a)) = q_waiters (a_queue a)" by (simp add: enqueue_def Let_def)
  then have "filter (\<lambda>x. fst x = s) ?z = []"
    using assms(4) by (auto simp: drainToWaiters_eq filter_empty_conv dest: set_zip_leftD)
  then show "reader s c (emitSessionEvent e ev a) = fold clientMessage ?js (reader s c a)"
    using assms(1,2) reader_cong [of "a\<lparr>a_queue := x\<rparr>" a for x]
    by (simp add: emitSessionEvent_def route_def Let_def case_prod_beta reader_sendAll)
  show "\<forall>j \<in> set ?js. j = ev"
    by (auto simp: routeDirect_def Let_def split: if_splits)
  show "?js \<noteq> []" if "activeProvider (a_registry a) = s \<or> activeProvider (a_registry a) = nullptr \<and> s \<in> set (a_subscribers a)"
  proof -
    have "(s, ev) \<in> set ?d"
      using that assms(1,3,5) ok by (auto simp: routeDirect_def Let_def hasActiveProvider_def registry_ok_def)
    then show ?thesis by (force simp: filter_empty_conv)
  qed
  show "?js = []" if "s \<notin> set (a_subscribers a)" "\<not> hash_has (uiProviders (a_registry a)) s"
    using that by (auto simp: routeDirect_def Let_def hasActiveProvider_def filter_empty_conv split: if_splits)
qed

text \<open>The general step: the table has changed and the event says how.\<close>

lemma abreast_emit:
  assumes "placed s (reader s c a) a" and "reached s (reader s c a) a" and "s \<notin> set (q_waiters (a_queue a))"
    and "store_wf (a_store a)" and "elected (a_registry a)" and "steady e s a"
    and ev: "isSessionEventForProviderRouting ev" "eventSignal ev x"
    and known: "\<And>d. knows d = heed x (knows (reader s c a)) \<Longrightarrow> fc_providerActive d \<Longrightarrow>
      fc_providerActive (reader s c a) \<Longrightarrow> known X d (a_store a)"
    and idle: "\<not> fc_providerActive (reader s c a) \<Longrightarrow> knows (reader s c a) = Map.empty"
  shows "abreast e s c X (emitSessionEvent e ev a)"
proof -
  let ?v = "reader s c a" and ?b = "emitSessionEvent e ev a"
  have st: "s \<noteq> nullptr" "e_connected e s" "e_valid e s" using assms(6) by (simp_all add: steady_def)
  obtain js where js: "\<forall>j \<in> set js. j = ev" "reader s c ?b = fold clientMessage js ?v"
    "activeProvider (a_registry a) = s \<or> activeProvider (a_registry a) = nullptr \<and> s \<in> set (a_subscribers a) \<Longrightarrow> js \<noteq> []"
    "s \<notin> set (a_subscribers a) \<Longrightarrow> \<not> hash_has (uiProviders (a_registry a)) s \<Longrightarrow> js = []"
    using reader_emit [OF st assms(3) ev(1) assms(5)] by metis
  have same: "fc_registered (reader s c ?b) = fc_registered ?v" "fc_providerActive (reader s c ?b) = fc_providerActive ?v"
    "fc_providerId (reader s c ?b) = fc_providerId ?v" "fc_pendingKnown (reader s c ?b) = fc_pendingKnown ?v"
    using read_event_repeat(1) [OF ev(2) js(1), of ?v] by (simp_all add: js(2) stance_def)
  have "known X (reader s c ?b) (a_store a)"
  proof (cases "fc_providerActive ?v")
    case True
    then have ne: "js \<noteq> []" using assms(2) js(3) by (auto simp: reached_def)
    have "knows (reader s c ?b) = heed x (knows ?v)"
      using read_event_repeat(2) [OF ev(2) js(1) ne, of ?v] True by (simp add: js(2) heeds_def)
    then show ?thesis using known True same by simp
  next
    case False
    have "knows (reader s c ?b) = knows ?v"
    proof (cases "fc_registered ?v")
      case True
      with False have "\<not> heeds ?v" by (simp add: heeds_def)
      then show ?thesis using read_event_repeat(2) [OF ev(2) js(1), of ?v] by (cases "js = []") (simp_all add: js(2))
    next
      case False
      then have "js = []" using js(4) assms(1) by (simp add: placed_def)
      then show ?thesis by (simp add: js(2))
    qed
    then show ?thesis using False idle same by (simp add: known_def)
  qed
  moreover have "s \<notin> set (q_waiters (a_queue ?b))" using assms(3) emit_waiters by blast
  ultimately show ?thesis
    using assms(1,2,4-6) same
    by (simp add: abreast_def posted_def placed_def reached_def steady_def elected_def registry_ok_wf)
qed


lemma eventSignals:
  "eventSignal (toCreatedEvent x) (SessionCreated (toCreatedEvent x))"
  "eventSignal (toUpdatedEvent x) (SessionUpdated (toUpdatedEvent x))"
  "eventSignal (toClosedEvent x) (SessionClosed (toClosedEvent x))"
  by (simp_all add: eventSignal_def read_events)

lemma abreast_announces:
  assumes "abreast e s c X a"
  shows "abreast e s c X (recomputeAndAnnounce e a)" and "abreast e s c X (recomputeIfIdle e a)"
    and "abreast e s c X (ensureFallbackUiRunning e t a)" and "abreast e s c X (launchIfNeeded e t a)"
proof -
  show 1: "abreast e s c X (recomputeAndAnnounce e a)" by (rule abreast_announce) (rule abreastD [OF assms])+
  then show "abreast e s c X (recomputeIfIdle e a)" using assms by (simp add: recomputeIfIdle_def)
  show 2: "abreast e s c X (ensureFallbackUiRunning e t a)" by (rule abreast_cong [OF assms]) simp_all
  then show "abreast e s c X (launchIfNeeded e t a)" using assms by (simp add: launchIfNeeded_def)
qed

lemma abreast_create:
  assumes "abreast e s c X a" shows "abreast e s c X (snd (agentCreateSession e i src ctx a))"
proof (cases "hash_find (a_store a) i")
  case None
  let ?n = "newSession i src ctx"
  let ?b = "a\<lparr>a_store := hash_put i ?n (a_store a)\<rparr>"
  note D = abreastD [OF assms]
  have v: "reader s c ?b = reader s c a" by (rule reader_cong) simp
  have "abreast e s c X (emitSessionEvent e (toCreatedEvent ?n) ?b)"
  proof (rule abreast_emit [OF _ _ _ _ _ _ _ eventSignals(1)])
    show "placed s (reader s c ?b) ?b" "reached s (reader s c ?b) ?b" "steady e s ?b"
      using D(3,6,7) by (simp_all add: v placed_def reached_def steady_def)
    show "store_wf (a_store ?b)" using store_wf_put [OF D(10), of ?n i] by (simp add: newSession_def)
    fix d assume d: "knows d = heed (SessionCreated (toCreatedEvent ?n)) (knows (reader s c ?b))"
      "fc_providerActive d" "fc_providerActive (reader s c ?b)"
    have old: "knows (reader s c a) j = Some src' \<Longrightarrow>
        j \<in> X \<or> sourceOf (a_store a) j = Some src'" for j src'
      using D(8) d(3) unfolding v known_def by simp
    have new: "s_id ?n = i" "s_source ?n = src" by (simp_all add: newSession_def)
    have "knows d j = Some src' \<Longrightarrow>
        j \<in> X \<or> sourceOf (a_store ?b) j = Some src'" for j src'
      using old [of j src'] None unfolding d(1) v heed_events new by (auto simp: new sourceOf_def split: if_splits)
    then show "known X d (a_store ?b)" using d(2) by (simp add: known_def)
  qed (use D in \<open>simp_all add: v known_def\<close>)
  then show ?thesis
    using None by (simp add: agentCreateSession_def storeCreate_def hash_has_def Let_def abreast_announces)
next
  case (Some x)
  then show ?thesis using assms by (simp add: agentCreateSession_def storeCreate_def hash_has_def)
qed

lemma abreast_update_from:
  assumes "abreast e s c X a" and "hash_find (a_store b) i = Some x" and "s_id x = i"
    and "map_option s_source (hash_find (a_store a) i) = Some (s_source x)"
    and "\<And>j. j \<noteq> i \<Longrightarrow> hash_find (a_store b) j = hash_find (a_store a) j" and "store_wf (a_store b)"
    and "a_registry b = a_registry a" "a_subscribers b = a_subscribers a" "a_queue b = a_queue a" "a_sent b = a_sent a"
  shows "abreast e s c X (emitSessionEvent e (toUpdatedEvent x) b)"
proof -
  note D = abreastD [OF assms(1)]
  have v: "reader s c b = reader s c a" by (rule reader_cong) (rule assms(10))
  have src: "sourceOf (a_store b) j = sourceOf (a_store a) j" for j
    using assms(2,4,5) by (cases "j = i") (auto simp: sourceOf_def)
  show ?thesis
    by (rule abreast_emit [OF _ _ _ _ _ _ _ eventSignals(2)])
       (use D assms(6-9) in \<open>simp_all add: v placed_def reached_def steady_def known_def src split: if_splits\<close>)
qed

lemma abreast_updateWith:
  assumes "abreast e s c X a" and "\<And>x. s_id (f x) = s_id x" "\<And>x. s_source (f x) = s_source x"
    "\<And>x. s_state x = Prompting \<Longrightarrow> s_state (f x) = Prompting"
  shows "abreast e s c X (storeAndEmit e (storeUpdateWith f i) a)"
proof (cases "hash_find (a_store a) i")
  case (Some x)
  then have x: "s_id x = i" "s_state x = Prompting" using abreastD(10) [OF assms(1)] by (auto simp: store_wf_def)
  have "abreast e s c X (emitSessionEvent e (toUpdatedEvent (f x)) (a\<lparr>a_store := hash_put i (f x) (a_store a)\<rparr>))"
    by (rule abreast_update_from [OF assms(1), of _ i])
       (use x Some assms(2-4) abreastD(10) [OF assms(1)] in \<open>auto intro: store_wf_put\<close>)
  then show ?thesis using Some by (simp add: storeAndEmit_def storeUpdateWith_def)
qed (use assms in \<open>simp add: storeAndEmit_def storeUpdateWith_def\<close>)

lemma abreast_updates:
  assumes "abreast e s c X a"
  shows "abreast e s c X (updateSessionPrompt e i t ec cl a)" and "abreast e s c X (updateSessionError e i t a)"
    and "abreast e s c X (onSessionInfo e i t a)"
  unfolding update_ops_defs storeUpdates_as_with by (rule abreast_updateWith [OF assms]; simp)+

lemma abreast_retry_prompt:
  assumes "abreast e s c X a"
  shows "abreast e s c X (updateSessionPrompt e i t ec cl (updateSessionPinentryRetry i x y a))"
proof -
  let ?b = "updateSessionPinentryRetry i x y a"
  have v: "reader s c ?b = reader s c a" by (rule reader_cong) (simp add: updateSessionPinentryRetry_def)
  have src: "sourceOf (a_store ?b) j = sourceOf (a_store a) j" for j
    by (auto simp: updateSessionPinentryRetry_def storeUpdatePinentryRetry_def sourceOf_def split: option.split)
  have "abreast e s c X ?b"
    using abreastD [OF assms] store_wf_ops(5) [of "a_store a" i x y]
    by (simp add: abreast_def posted_def known_def src v)
      (simp add: updateSessionPinentryRetry_def placed_def reached_def steady_def split: if_splits)
  then show ?thesis by (rule abreast_updates)
qed

lemma abreast_ending:
  assumes "abreast e s c X a" shows "abreast e s c (insert i X) (a\<lparr>a_store := hash_del i (a_store a)\<rparr>)"
proof -
  have v: "reader s c (a\<lparr>a_store := st\<rparr>) = reader s c a" for st by (rule reader_cong) simp
  have "store_wf (hash_del i (a_store a))" using abreastD(10) [OF assms] by (auto simp: store_wf_def)
  then show ?thesis
    using abreastD [OF assms]
    by (auto simp: abreast_def posted_def v placed_def reached_def steady_def known_def split: if_splits)
qed

lemma abreast_closed_event:
  assumes "abreast e s c (insert i X) a" and "s_id x = i" and "hash_find (a_store a) i = None"
  shows "abreast e s c X (emitSessionEvent e (toClosedEvent x) a)"
  by (rule abreast_emit [OF _ _ _ _ _ _ _ eventSignals(3)])
     (use abreastD [OF assms(1)] assms(2) in \<open>auto simp: known_def heed_events split: if_splits\<close>)

lemma abreast_closes:
  assumes "abreast e s c X a"
  shows "abreast e s c X (closeSession e i r a)" and "abreast e s c X (onSessionComplete e i ok a)"
proof -
  have "abreast e s c X (closeSession e i r a) \<and> abreast e s c X (onSessionComplete e i ok a)"
  proof (cases "hash_find (a_store a) i")
    case (Some x)
    let ?c = "a\<lparr>a_store := hash_del i (a_store a)\<rparr>"
    have x: "s_id (closeWith r' x) = i" for r'
      using Some abreastD(10) [OF assms] by (simp add: store_wf_def)
    have c: "abreast e s c (insert i X) ?c" by (rule abreast_ending [OF assms])
    have 1: "abreast e s c X (emitSessionEvent e (toClosedEvent (closeWith r x)) (recomputeIfIdle e ?c))"
      by (rule abreast_closed_event [OF abreast_announces(2) [OF c] x]) simp
    have 2: "abreast e s c X (emitSessionEvent e (toClosedEvent (closeWith r' x)) ?c)" for r'
      by (rule abreast_closed_event [OF c x]) simp
    show ?thesis
      using Some 1 2 [THEN abreast_announces(2)]
      by (simp add: agentCloseSession_def onSessionComplete_def storeClose_def Let_def)
  qed (use assms in \<open>simp add: agentCloseSession_def onSessionComplete_def storeClose_def\<close>)
  then show "abreast e s c X (closeSession e i r a)" and "abreast e s c X (onSessionComplete e i ok a)" by simp_all
qed

section \<open>The client's own messages and those of others\<close>

lemma lapsed:
  assumes "abreast e s c X a" and "lapses (reader s c a) (reader s c b)" and "a_store b = a_store a"
    "a_registry b = a_registry a" "a_subscribers b = a_subscribers a" "a_queue b = a_queue a"
  shows "abreast e s c X b"
proof -
  note D = abreastD [OF assms(1)] and l = assms(2) [unfolded lapses_def]
  have "placed s (reader s c b) b" using D(6) l assms(4,5) by (auto simp: placed_def split: if_splits)
  moreover have "reached s (reader s c b) b" using D(7) l assms(4,5) by (auto simp: reached_def)
  moreover have "known X (reader s c b) (a_store b)"
  proof (cases "fc_providerActive (reader s c b)")
    case True
    then show ?thesis using D(8) l assms(3) by (simp add: known_def)
  next
    case False
    then show ?thesis using D(8) l by (auto simp: known_def)
  qed
  ultimately show ?thesis using D assms by (simp add: abreast_def posted_def steady_def)
qed

lemma abreast_ordinary:
  assumes "abreast e s c X a" and "plain j" and "toStr (jvalue j ''type'') \<notin> {''ui.registered'', ''ui.active'', ''subscribed''}"
  shows "abreast e s c X (a\<lparr>a_sent := a_sent a @ [(t, j, w)]\<rparr>)"
  by (rule lapsed [OF assms(1)]) (use read_ordinary [OF assms(2,3)] in \<open>simp_all\<close>)

lemma abreast_send:
  "abreast e s c X a \<Longrightarrow> plain j \<Longrightarrow> toStr (jvalue j ''type'') \<notin> {''ui.registered'', ''ui.active'', ''subscribed''} \<Longrightarrow>
   abreast e s c X (sendJson e' t j w a)"
  by (simp add: sendJson_def abreast_ordinary)

interpretation told: agent_closed e "abreast e s c X" for e s c X
proof unfold_locales
  fix a j t w assume "abreast e s c X a" "ordinary j"
  then show "abreast e s c X (a\<lparr>a_sent := a_sent a @ [(t, j, w)]\<rparr>)"
    by (intro abreast_ordinary) (simp_all add: ordinary_def harmless_plain)
qed (simp_all add: abreast_create abreast_updates abreast_retry_prompt abreast_closes abreast_announces abreast_cong)

lemma abreast_respond: "abreast e s c X a \<Longrightarrow> abreast e s c X (handleRespond e t m a)"
  by (rule told.respond) (auto intro!: abreast_send simp: isSessionEventForProviderRouting_def startsWith_def keyringReplyOk_def pinentryReply_def)


text \<open>A message to somebody else is none of the client's business.\<close>

lemma abreast_other:
  assumes "abreast e s c X a" and "t \<noteq> s" shows "abreast e s c X (sendJson e' t j w a)"
proof (rule lapsed [OF assms(1)])
  have "reader s c (sendJson e' t j w a) = reader s c a" using assms(2) by (simp add: sendJson_def)
  then show "lapses (reader s c a) (reader s c (sendJson e' t j w a))" by simp
qed simp_all

lemma posted_registry:
  assumes "abreast e s c X a" and "a_store b = a_store a" "a_subscribers b = a_subscribers a" "a_queue b = a_queue a"
    "a_sent b = a_sent a" and "activeProvider (a_registry b) = activeProvider (a_registry a)" "registry_wf (a_registry b)"
    and "hash_has (uiProviders (a_registry b)) s = hash_has (uiProviders (a_registry a)) s"
    and "\<And>p. fc_registered (reader s c a) \<Longrightarrow> (t, p) \<in> set (uiProviders (a_registry b)) \<Longrightarrow>
      p_id p = fc_providerId (reader s c a) \<longleftrightarrow> t = s"
    and "\<And>u p. u \<noteq> t \<Longrightarrow> (u, p) \<in> set (uiProviders (a_registry b)) \<Longrightarrow> (u, p) \<in> set (uiProviders (a_registry a))"
  shows "posted s c X b"
proof -
  have v: "reader s c b = reader s c a" by (rule reader_cong) (rule assms(5))
  have "p_id p = fc_providerId (reader s c a) \<longleftrightarrow> u = s"
    if "fc_registered (reader s c a)" "(u, p) \<in> set (uiProviders (a_registry b))" for u p
  proof (cases "u = t")
    case False
    then have "(u, p) \<in> set (uiProviders (a_registry a))" using assms(10) that(2) by blast
    then show ?thesis using abreastD(6) [OF assms(1)] that(1) by (fastforce simp: placed_def)
  qed (use assms(9) that in simp)
  then show ?thesis
    using abreastD [OF assms(1)] assms(2-8) by (auto simp: posted_def v placed_def reached_def split: if_splits)
qed

lemma hash_put_mem: "(u, q) \<in> set (hash_put t p xs) \<Longrightarrow> u = t \<and> q = p \<or> (u, q) \<in> set xs"
  by (induction xs) (auto split: if_splits)

lemma hash_put_mem_key: "hash_wf xs \<Longrightarrow> (t, q) \<in> set (hash_put t p xs) \<Longrightarrow> q = p"
  using hash_find_mem [of "hash_put t p xs" t q] by auto


lemma abreast_heartbeat:
  assumes "abreast e s c X a" shows "abreast e s c X (handleUIHeartbeat e t m a)"
proof (cases "hash_find (uiProviders (a_registry a)) t")
  case None
  then show ?thesis
    using assms by (simp add: handleUIHeartbeat_def registryContains_def hash_has_def told.sends)
next
  case (Some p)
  let ?b = "(snd (readClock e a))\<lparr>a_registry := snd (heartbeat (e_clock e (a_clockReads a)) t (a_registry a))\<rparr>"
  let ?p = "p\<lparr>p_lastHeartbeatMs := e_clock e (a_clockReads a)\<rparr>"
  note D = abreastD [OF assms]
  have r: "a_registry ?b = (a_registry a)\<lparr>uiProviders := hash_put t ?p (uiProviders (a_registry a))\<rparr>"
    by (simp add: heartbeat_def Some)
  have has: "hash_has (uiProviders (a_registry a)) t" and wf: "hash_wf (uiProviders (a_registry a))"
    using Some D(11) by (simp_all add: hash_has_def registry_wf_def)
  have "posted s c X ?b"
  proof (rule posted_registry [OF assms, where t = t])
    show "registry_wf (a_registry ?b)" using registry_wf_ops(2) [OF D(11)] by simp
    fix q assume "fc_registered (reader s c a)" "(t, q) \<in> set (uiProviders (a_registry ?b))"
    then show "p_id q = fc_providerId (reader s c a) \<longleftrightarrow> t = s"
      using hash_put_mem_key [OF wf, of t q ?p] D(6) map_of_SomeD [OF Some] unfolding r by (auto simp: placed_def)
  next
    fix u q assume "u \<noteq> t" "(u, q) \<in> set (uiProviders (a_registry ?b))"
    then show "(u, q) \<in> set (uiProviders (a_registry a))" unfolding r by (auto dest: hash_put_mem)
  qed (use has in \<open>auto simp: r\<close>)
  moreover have "steady e s ?b"
    using D(3) Some unfolding steady_def r by (auto simp: alive_def)
  ultimately have "abreast e s c X (recomputeAndAnnounce e ?b)" by (rule abreast_announce)
  then show ?thesis
    using has by (simp add: handleUIHeartbeat_def registryContains_def Let_def case_prod_beta readClock_def told.sends)
qed

lemma posted_removed:
  assumes "abreast e s c X a" and "t \<noteq> s"
  shows "posted s c X (a\<lparr>a_registry := (a_registry a)\<lparr>uiProviders := hash_del t (uiProviders (a_registry a))\<rparr>\<rparr>)"
    and "steady e s (a\<lparr>a_registry := (a_registry a)\<lparr>uiProviders := hash_del t (uiProviders (a_registry a))\<rparr>\<rparr>)"
proof -
  let ?r = "(a_registry a)\<lparr>uiProviders := hash_del t (uiProviders (a_registry a))\<rparr>"
  note D = abreastD [OF assms(1)]
  show "posted s c X (a\<lparr>a_registry := ?r\<rparr>)"
  proof (rule posted_registry [OF assms(1), where t = t])
    show "registry_wf (a_registry (a\<lparr>a_registry := ?r\<rparr>))"
      using registry_wf_ops(3) [OF D(11), of t] by (simp add: unregisterProvider_def)
    show "(t, p) \<in> set (uiProviders (a_registry (a\<lparr>a_registry := ?r\<rparr>))) \<Longrightarrow>
        p_id p = fc_providerId (reader s c a) \<longleftrightarrow> t = s" for p
      using hash_has_keys [of "hash_del t (uiProviders (a_registry a))" t] by force
  qed (use assms(2) in \<open>auto dest: hash_del_mem\<close>)
  show "steady e s (a\<lparr>a_registry := ?r\<rparr>)" using D(3) assms(2) by (simp add: steady_def)
qed

lemma abreast_unregister:
  assumes "abreast e s c X a" and "t \<noteq> s" shows "abreast e s c X (handleUIUnregister e t m a)"
  using assms abreast_announce [OF posted_removed [OF assms]]
  by (simp add: handleUIUnregister_def unregisterProvider_def told.sends abreast_announces)

lemma abreast_next:
  assumes "abreast e s c X a" and "t \<noteq> s" shows "abreast e s c X (handleNext e t m a)"
proof -
  have q: "abreast e s c X (a\<lparr>a_queue := q\<rparr>)" if "s \<notin> set (q_waiters q)" for q
    using that abreastD [OF assms(1)] reader_cong [of "a\<lparr>a_queue := q\<rparr>" a s c]
    by (simp add: abreast_def posted_def placed_def reached_def steady_def)
  show ?thesis
    using abreastD(9) [OF assms(1)] assms(2)
    by (auto simp: handleNext_def subscribeNext_def takeNext_def queueIsEmpty_def split: list.split
        intro!: abreast_other q)
qed

lemma abreast_disconnect:
  assumes "abreast e s c X a" and "t \<noteq> s" shows "abreast e s c X (onClientDisconnected e t a)"
proof -
  define a1 where "a1 = a\<lparr>a_subscribers := removeOne t (a_subscribers a)\<rparr>"
  define a2 where "a2 = (if fst (removeSocket t (a_registry a1))
     then recomputeAndAnnounce e (a1\<lparr>a_registry := snd (removeSocket t (a_registry a1))\<rparr>) else a1)"
  define a3 where "a3 = a2\<lparr>a_queue := removeWaiter t (a_queue a2)\<rparr>"
  have v: "reader s c a1 = reader s c a" by (rule reader_cong) (simp add: a1_def)
  have 1: "abreast e s c X a1"
    using abreastD [OF assms(1)] assms(2)
    by (simp add: abreast_def posted_def v) (simp add: a1_def placed_def reached_def steady_def split: if_splits)
  have 2: "abreast e s c X a2"
    using 1 abreast_announce [OF posted_removed [OF 1 assms(2)]]
    by (simp add: a2_def removeSocket_def unregisterProvider_def)
  have 3: "abreast e s c X a3"
    by (rule abreast_cong [OF 2]) (auto simp: a3_def removeWaiter_def)
  have "onClientDisconnected e t a =
      launchIfNeeded e ''provider-disconnected'' (pinentryCleanupForSocket e t (keyringCleanupForSocket e t a3))"
    by (simp add: onClientDisconnected_def a3_def a2_def a1_def Let_def case_prod_beta)
  then show ?thesis by (simp add: abreast_announces told.managers 3)
qed


text \<open>A client that registers gets an identifier nobody has.\<close>

definition freshUuid :: "env \<Rightarrow> fb_client \<Rightarrow> agent \<Rightarrow> bool" where
  "freshUuid e v a \<longleftrightarrow> e_uuid e (a_uuids a) \<noteq> [] \<and> e_uuid e (a_uuids a) \<noteq> fc_providerId v
     \<and> (\<forall>(t, p) \<in> set (uiProviders (a_registry a)). p_id p \<noteq> e_uuid e (a_uuids a))"

lemma agentRegister_effect:
  fixes e t m a defines "p \<equiv> fst (agentRegister e t m a)" and "b \<equiv> snd (agentRegister e t m a)"
  shows "a_registry b = (a_registry a)\<lparr>uiProviders := hash_put t p (uiProviders (a_registry a))\<rparr>"
    "a_store b = a_store a" "a_subscribers b = a_subscribers a" "a_queue b = a_queue a" "a_sent b = a_sent a"
    "\<exists>n. p_lastHeartbeatMs p = e_clock e n"
    "p_id p = (case hash_find (uiProviders (a_registry a)) t of
       Some q \<Rightarrow> if p_id q \<noteq> [] then p_id q else e_uuid e (a_uuids a) | None \<Rightarrow> e_uuid e (a_uuids a))"
  unfolding p_def b_def
  by (auto simp: agentRegister_def registerProvider_def registryProvider_def createUuid_def readClock_def Let_def
      case_prod_beta emptyProvider_def split: option.split)

lemma register_shape:
  "handleUIRegister e t m a =
     (let b = snd (agentRegister e t m a); d = snd (agentRecompute e b);
          nowActive = (t = activeProvider (a_registry d));
          f = sendJson e t [(''type'', JStr ''ui.registered''), (''id'', JStr (p_id (fst (agentRegister e t m a)))),
                (''active'', JBool nowActive), (''priority'', JInt (p_priority (fst (agentRegister e t m a))))] False d
      in if fst (agentRecompute e b) \<or> nowActive then emitProviderStatus e f else f)"
  by (simp add: handleUIRegister_def Let_def case_prod_beta)

lemma settle:
  assumes "placed s (reader s c f) f" "known X (reader s c f) (a_store f)" "s \<notin> set (q_waiters (a_queue f))"
    "store_wf (a_store f)" "elected (a_registry f)" "steady e s f" "\<not> x \<Longrightarrow> reached s (reader s c f) f"
  shows "abreast e s c X (if x then emitProviderStatus e f else f)"
  using posted_status [OF assms(1-6)] assms
  by (simp add: abreast_def) (auto simp: posted_def elected_def registry_ok_wf steady_def)

lemma abreast_register_other:
  assumes "abreast e s c X a" and "t \<noteq> s" and "t \<noteq> nullptr" and "freshUuid e (reader s c a) a"
  shows "abreast e s c X (handleUIRegister e t m a)"
proof -
  define p where "p = fst (agentRegister e t m a)"
  define b where "b = snd (agentRegister e t m a)"
  note eff = agentRegister_effect [of e t m a, folded p_def b_def]
  note D = abreastD [OF assms(1)]
  have wf: "hash_wf (uiProviders (a_registry a))" using D(11) by (simp add: registry_wf_def)
  have p: "p_id p \<noteq> fc_providerId (reader s c a)" if "fc_registered (reader s c a)"
    using eff(7) assms(2,4) D(6) that map_of_SomeD [of "uiProviders (a_registry a)" t]
    by (auto simp: freshUuid_def placed_def split: option.splits)
  have post: "posted s c X b"
  proof (rule posted_registry [OF assms(1) eff(2-5), where t = t])
    show "registry_wf (a_registry b)" using D(11) assms(3) by (auto simp: eff(1) registry_wf_def)
    show "fc_registered (reader s c a) \<Longrightarrow> (t, q) \<in> set (uiProviders (a_registry b)) \<Longrightarrow>
        p_id q = fc_providerId (reader s c a) \<longleftrightarrow> t = s" for q
      using hash_put_mem_key [OF wf, of t q p] p assms(2) by (auto simp: eff(1))
    show "u \<noteq> t \<Longrightarrow> (u, q) \<in> set (uiProviders (a_registry b)) \<Longrightarrow> (u, q) \<in> set (uiProviders (a_registry a))" for u q
      unfolding eff(1) by (auto dest: hash_put_mem)
  qed (use assms(2) in \<open>simp_all add: eff(1)\<close>)
  have st: "steady e s b" using D(3) assms(2) by (simp add: steady_def eff(1,3))
  define d where "d = snd (agentRecompute e b)"
  note r = recomputed [OF post st, folded d_def]
  define f where "f = sendJson e t [(''type'', JStr ''ui.registered''), (''id'', JStr (p_id p)),
                (''active'', JBool (t = activeProvider (a_registry d))), (''priority'', JInt (p_priority p))] False d"
  have v: "reader s c f = reader s c d" using assms(2) by (simp add: f_def reader_send)
  have ff: "a_registry f = a_registry d" "a_store f = a_store d" "a_subscribers f = a_subscribers d" "a_queue f = a_queue d"
    by (simp_all add: f_def)
  have "abreast e s c X (if fst (agentRecompute e b) \<or> t = activeProvider (a_registry d) then emitProviderStatus e f else f)"
    by (rule settle) (use r in \<open>simp_all add: v ff placed_def reached_def steady_def\<close>)
  moreover have "handleUIRegister e t m a =
      (if fst (agentRecompute e b) \<or> t = activeProvider (a_registry d) then emitProviderStatus e f else f)"
    by (simp add: register_shape Let_def b_def d_def p_def f_def)
  ultimately show ?thesis by simp
qed

lemma abreast_register_self:
  assumes "abreast e s c X a" and "freshUuid e (reader s c a) a"
  shows "abreast e s c X (handleUIRegister e s m a)" "fc_registered (reader s c (handleUIRegister e s m a))"
proof -
  define p where "p = fst (agentRegister e s m a)"
  define b where "b = snd (agentRegister e s m a)"
  define d where "d = snd (agentRecompute e b)"
  define now where "now \<longleftrightarrow> s = activeProvider (a_registry d)"
  let ?v = "reader s c a"
  note eff = agentRegister_effect [of e s m a, folded p_def b_def]
  note D = abreastD [OF assms(1)]
  have wf: "hash_wf (uiProviders (a_registry a))" using D(11) by (simp add: registry_wf_def)
  have pid: "p_id p \<noteq> []" using eff(7) assms(2) by (auto simp: freshUuid_def split: option.splits)
  have others: "p_id q \<noteq> p_id p" if "(t, q) \<in> set (uiProviders (a_registry a))" "t \<noteq> s" for t q
  proof (cases "hash_find (uiProviders (a_registry a)) s")
    case None
    then show ?thesis using that(1) assms(2) eff(7) by (auto simp: freshUuid_def)
  next
    case (Some r)
    then have "fc_registered ?v" using D(6) by (auto simp: placed_def hash_has_def split: if_splits)
    then have "p_id r = fc_providerId ?v" "p_id r \<noteq> []" "p_id q \<noteq> fc_providerId ?v"
      using D(6) map_of_SomeD [OF Some] that by (auto simp: placed_def)
    then show ?thesis using eff(7) Some by simp
  qed
  have ids: "p_id q = p_id p \<longleftrightarrow> t = s" if "(t, q) \<in> set (uiProviders (a_registry b))" for t q
    using that hash_put_mem [of t q s p] hash_put_mem_key [OF wf, of s q p] others unfolding eff(1) by auto
  have rw: "registry_wf (a_registry b)" using D(4,11) by (auto simp: eff(1) registry_wf_def)
  obtain n0 where n0: "p_lastHeartbeatMs p = e_clock e n0" using eff(6) by blast
  have al: "alive (e_clock e n) (e_connected e) (s, p)" for n
    using D(3) n0 by (simp add: alive_def steady_def)
  have sb: "steady e s b" using D(3) al by (simp add: steady_def eff(1,3))
  have sd: "steady e s d" unfolding d_def by (rule steady_recompute [OF sb rw])
  have el: "elected (a_registry d)" by (simp add: d_def agentRecompute_registry recompute_elected [OF rw])
  have hs: "hash_has (uiProviders (a_registry d)) s"
    using al rw by (simp add: d_def agentRecompute_registry hash_has_def alive_kept registry_wf_def eff(1))
  have sub: "set (uiProviders (a_registry d)) \<subseteq> set (uiProviders (a_registry b))"
    by (auto simp: d_def agentRecompute_registry recompute_eq)
  define f where "f = sendJson e s [(''type'', JStr ''ui.registered''), (''id'', JStr (p_id p)),
                (''active'', JBool now), (''priority'', JInt (p_priority p))] False d"
  have vd: "reader s c d = ?v" by (rule reader_cong) (simp add: d_def eff(5))
  have v: "reader s c f = clearPending (setProviderActive now (?v\<lparr>fc_registered := True, fc_providerId := p_id p\<rparr>))"
    using D(4,5) by (simp add: f_def reader_send read_registered vd)
  have ff: "a_registry f = a_registry d" "a_store f = a_store a" "a_subscribers f = a_subscribers d" "a_queue f = a_queue a"
    by (simp_all add: f_def d_def eff(2,4))
  have k: "knows (?v\<lparr>fc_registered := True, fc_providerId := i\<rparr>) = knows ?v" for i
    by (rule knows_cong) simp
  have pl: "placed s (reader s c f) f"
    using pid hs ids sub by (auto simp: v placed_def ff)
  have kn: "known X (reader s c f) (a_store f)"
    using D(8) by (simp add: v known_def k ff split: if_splits)
  have re: "reached s (reader s c f) f" by (auto simp: v reached_def now_def ff)
  have sf: "steady e s f" using sd by (simp add: steady_def ff)
  have ab: "abreast e s c X (if fst (agentRecompute e b) \<or> now then emitProviderStatus e f else f)"
    by (rule settle [OF pl kn _ _ _ sf]) (use D re el in \<open>simp_all add: ff\<close>)
  have eq: "handleUIRegister e s m a = (if fst (agentRecompute e b) \<or> now then emitProviderStatus e f else f)"
    by (simp add: register_shape Let_def b_def [symmetric] d_def [symmetric] p_def [symmetric] f_def now_def)
  show "abreast e s c X (handleUIRegister e s m a)" using ab by (simp add: eq)
  have "hash_has (uiProviders (a_registry (handleUIRegister e s m a))) s" using hs by (simp add: eq ff)
  then show "fc_registered (reader s c (handleUIRegister e s m a))"
    using abreastD(6) [OF ab] by (auto simp: eq placed_def split: if_splits)
qed


lemma abreast_replayed:
  assumes "abreast e s c X a" and "fc_registered (reader s c a)" and "hash_find (a_store a) (s_id x) = Some x"
    and "ev \<in> {toCreatedEvent x, toUpdatedEvent x}"
  shows "abreast e s c X (sendJson e s ev False a) \<and> fc_registered (reader s c (sendJson e s ev False a))"
proof -
  note D = abreastD [OF assms(1)]
  let ?v = "reader s c a" and ?b = "sendJson e s ev False a"
  have v: "reader s c ?b = clientMessage ev ?v" using D(4,5) by (simp add: reader_send)
  have st: "stance (reader s c ?b) = stance ?v"
    using assms(4) by (auto simp: v read_events)
  have kn: "knows (reader s c ?b) = knows ?v \<or>
      fc_providerActive ?v \<and> knows (reader s c ?b) = (knows ?v)(s_id x \<mapsto> sourceToString (s_source x))"
    using assms(2,4) by (cases "fc_providerActive ?v"; cases "s_id x = []") (auto simp: v read_events heed_events heeds_def)
  have "known X (reader s c ?b) (a_store a)"
  proof (cases "fc_providerActive ?v")
    case True
    have k: "i \<in> X \<or> sourceOf (a_store a) i = Some y" if "knows (reader s c ?b) i = Some y" for i y
    proof -
      have "knows ?v i = Some y \<or> i = s_id x \<and> y = sourceToString (s_source x)"
        using kn that by (auto split: if_splits)
      then show ?thesis using D(8) True assms(3) unfolding known_def by (auto simp: sourceOf_def)
    qed
    have "fc_providerActive (reader s c ?b)" using True st by (simp add: stance_def)
    with k show ?thesis by (simp add: known_def)
  next
    case False
    then show ?thesis using D(8) kn st by (simp add: known_def stance_def)
  qed
  then show ?thesis
    using D st assms(2) by (simp add: abreast_def posted_def placed_def reached_def steady_def stance_def)
qed

lemma abreast_replay:
  assumes "abreast e s c X a" and "fc_registered (reader s c a)"
    and "\<And>i x. (i, x) \<in> set xs \<Longrightarrow> hash_find (a_store a) (s_id x) = Some x"
  shows "abreast e s c X (fold (\<lambda>(c, x) a. sendJson e s (toUpdatedEvent x) False (sendJson e s (toCreatedEvent x) False a)) xs a)"
  using assms
proof (induction xs arbitrary: a)
  case (Cons ix xs)
  obtain i x where ix: "ix = (i, x)" by force
  have x: "hash_find (a_store a) (s_id x) = Some x" using Cons.prems(3) [of i x] by (simp add: ix)
  let ?a1 = "sendJson e s (toCreatedEvent x) False a" and ?a2 = "sendJson e s (toUpdatedEvent x) False (sendJson e s (toCreatedEvent x) False a)"
  have 1: "abreast e s c X ?a1" "fc_registered (reader s c ?a1)"
    using abreast_replayed [OF Cons.prems(1,2) x] by simp_all
  have 2: "abreast e s c X ?a2" "fc_registered (reader s c ?a2)"
    using abreast_replayed [OF 1, of x "toUpdatedEvent x"] x by simp_all
  have "abreast e s c X (fold (\<lambda>(c, x) a. sendJson e s (toUpdatedEvent x) False (sendJson e s (toCreatedEvent x) False a)) xs ?a2)"
    by (rule Cons.IH [OF 2]) (use Cons.prems(3) in auto)
  then show ?case by (simp add: ix)
qed simp

lemma abreast_subscribe:
  assumes "abreast e s c X a" and "t = s \<Longrightarrow> fc_registered (reader s c a)"
  shows "abreast e s c X (handleSubscribe e t m a)"
proof -
  note D = abreastD [OF assms(1)]
  let ?a = "if t \<in> set (a_subscribers a) then a else a\<lparr>a_subscribers := a_subscribers a @ [t]\<rparr>"
  let ?f = "\<lambda>st a. fold (\<lambda>(c, x) a. sendJson e t (toUpdatedEvent x) False (sendJson e t (toCreatedEvent x) False a)) st a"
  let ?r = "registryContains t (a_registry a)" and ?v = "t = activeProvider (a_registry a)"
  let ?c = "\<not> ?r \<or> ?v"
  let ?m = "[(''type'', JStr ''subscribed''),
             (''sessionCount'', JInt (if ?c then int (storeSize (a_store a)) else 0))]
             @ (if ?r then [(''active'', JBool ?v)] else [])"
  define b where "b = (if ?c then ?f (a_store a) ?a else ?a)"
  have eq: "handleSubscribe e t m a = sendJson e t ?m False b"
    unfolding b_def handleSubscribe_def Let_def by (auto simp: fold_replay_frame)
  have va: "reader s c ?a = reader s c a" by (rule reader_cong) simp
  have 1: "abreast e s c X ?a"
    using D assms(2) by (simp add: abreast_def posted_def va) (auto simp: placed_def reached_def steady_def split: if_splits)
  have fr: "a_registry b = a_registry a" "a_subscribers b = a_subscribers ?a" "a_store b = a_store a" "a_queue b = a_queue a"
    by (simp_all add: b_def fold_replay_frame)
  have i: "abreast e s c X u \<Longrightarrow> abreast e s c X w \<Longrightarrow> abreast e s c X (if z then u else w)" for u w z by simp
  show ?thesis
  proof (cases "t = s")
    case False
    have f: "abreast e s c X (?f xs d)" if "abreast e s c X d" for xs d
      using that by (induction xs arbitrary: d) (auto intro: abreast_other [OF _ False])
    have "abreast e s c X b" unfolding b_def by (rule i [OF f [OF 1] 1])
    then show ?thesis unfolding eq by (rule abreast_other [OF _ False])
  next
    case True
    have reg: "fc_registered (reader s c ?a)" using assms(2) [OF True] by (simp only: va)
    have "hash_find (a_store ?a) (s_id x) = Some x" if "(i, x) \<in> set (a_store a)" for i x
      using that D(10) hash_find_mem [of "a_store a" i x] by (auto simp: store_wf_def)
    then have r: "abreast e s c X (?f (a_store a) ?a)"
      unfolding True by (rule abreast_replay [OF 1 reg, unfolded True])
    have 2: "abreast e s c X b" unfolding b_def by (rule i [OF r 1])
    note E = abreastD [OF 2]
    let ?w = "reader s c b"
    have regw: "fc_registered ?w"
      using E(6) fr(2) True by (auto simp: placed_def split: if_splits)
    have v: "reader s c (handleSubscribe e t m a) =
        (if ?r then setProviderActive ?v (?w\<lparr>fc_subscribed := True\<rparr>) else ?w\<lparr>fc_subscribed := True\<rparr>)"
      using D(4,5) unfolding eq reader_send read_subscribed by (simp add: True)
    have k: "knows (?w\<lparr>fc_subscribed := True\<rparr>) = knows ?w" by (rule knows_cong) simp
    let ?n = "reader s c (handleSubscribe e t m a)"
    have n: "fc_registered ?n = fc_registered ?w" "fc_providerId ?n = fc_providerId ?w" "fc_pendingKnown ?n = fc_pendingKnown ?w"
      "fc_providerActive ?n = (if ?r then ?v else fc_providerActive ?w)"
      "knows ?n = (if ?r \<and> \<not> ?v \<and> fc_providerActive ?w then Map.empty else knows ?w)"
      unfolding v by (simp_all add: k)
    have "placed s ?n b" using E(6) regw by (simp add: placed_def n(1-3))
    moreover have "reached s ?n b" using E(7) fr(1) True unfolding reached_def n(4) by (auto split: if_splits)
    moreover have "known X ?n (a_store b)"
      using E(8) unfolding known_def n(4,5) by (simp split: if_splits)
    ultimately have "placed s ?n b" "reached s ?n b" "known X ?n (a_store b)" .
    then show ?thesis
      using E by (simp add: abreast_def posted_def) (simp add: eq placed_def reached_def steady_def)
  qed
qed

section \<open>Every event of the daemon\<close>

text \<open>What the client does not do on its connection, and when it registers.\<close>

fun wellBehaved :: "env \<Rightarrow> socket \<Rightarrow> fb_client \<Rightarrow> agent \<Rightarrow> happening \<Rightarrow> bool" where
  "wellBehaved e s v a (Message t ty m) \<longleftrightarrow> t \<noteq> nullptr \<and> (ty = ''ui.register'' \<longrightarrow> freshUuid e v a)
     \<and> (t = s \<longrightarrow> ty \<noteq> ''next'' \<and> ty \<noteq> ''ui.unregister'' \<and> (ty = ''subscribe'' \<longrightarrow> fc_registered v))"
| "wellBehaved e s v a (Disconnect t) \<longleftrightarrow> t \<noteq> nullptr \<and> t \<noteq> s"
| "wellBehaved e s v a ev \<longleftrightarrow> True"

lemma abreast_perform:
  assumes "abreast e s c X a" and "wellBehaved e s (reader s c a) a ev" shows "abreast e s c X (perform e ev a)"
proof (cases ev)
  case (Message t ty m)
  have "abreast e s c X (handleUIRegister e t m a)" if "ty = ''ui.register''"
    using assms that abreast_register_self(1) abreast_register_other by (cases "t = s") (auto simp: Message)
  moreover have "abreast e s c X (handleUIUnregister e t m a)" if "ty = ''ui.unregister''"
    using assms that by (auto simp: Message intro: abreast_unregister)
  moreover have "abreast e s c X (handleNext e t m a)" if "ty = ''next''"
    using assms that by (auto simp: Message intro: abreast_next)
  moreover have "abreast e s c X (handleSubscribe e t m a)" if "ty = ''subscribe''"
    using assms that by (auto simp: Message intro: abreast_subscribe)
  ultimately show ?thesis
    using assms(1)
    by (simp add: Message handleMessage_eq told.handlers told.ping told.sends abreast_respond abreast_heartbeat split: if_split)
qed (use assms in \<open>auto intro!: told.managers told.listener told.pruneStale told.sends abreast_disconnect\<close>)


section \<open>Reachable states\<close>

text \<open>An identifier that was never used: no registered provider has it, the client was never told it.\<close>

definition unusedUuid :: "env \<Rightarrow> socket \<Rightarrow> agent \<Rightarrow> bool" where
  "unusedUuid e s a \<longleftrightarrow> e_uuid e (a_uuids a) \<noteq> []
     \<and> list_all (\<lambda>(t, p). p_id p \<noteq> e_uuid e (a_uuids a)) (uiProviders (a_registry a))
     \<and> list_all (\<lambda>j. toStr (jvalue j ''id'') \<noteq> e_uuid e (a_uuids a)) (sentTo s (a_sent a))"

lemma read_id:
  "fc_providerId (clientMessage j c) = fc_providerId c \<or> fc_providerId (clientMessage j c) = toStr (jvalue j ''id'')"
  by (auto simp: clientMessage_def onUiRegistered_def onUiActive_def applyPendingProviderState_def fcEmit_def Let_def)

lemma reads_id:
  "fc_providerId (fold clientMessage js c) = fc_providerId c
   \<or> (\<exists>j \<in> set js. fc_providerId (fold clientMessage js c) = toStr (jvalue j ''id''))"
proof (induction js arbitrary: c)
  case (Cons j js)
  from Cons.IH [of "clientMessage j c"] read_id [of j c] show ?case by (elim disjE) auto
qed simp

lemma unused_fresh: "unusedUuid e s a \<Longrightarrow> fc_providerId c = [] \<Longrightarrow> freshUuid e (reader s c a) a"
  using reads_id [of "sentTo s (a_sent a)" c]
  by (auto simp: unusedUuid_def freshUuid_def reader_def list_all_iff)

text \<open>The log only grows.\<close>

interpretation growing: password_log "a_sent a" "\<lambda>m. True" for a
  by unfold_locales simp

lemma perform_log: "reachable a \<Longrightarrow> \<exists>xs. a_sent (perform env ev a) = a_sent a @ xs"
proof -
  assume "reachable a"
  then have "logged (a_sent a) (\<lambda>m. True) a" using discreet_reachable by (simp add: logged_def)
  then have "logged (a_sent a) (\<lambda>m. True) (perform env ev a)" by (rule growing.ok_perform) simp_all
  then show ?thesis by (auto simp: logged_def)
qed

lemma registered_stays: "fc_registered c \<Longrightarrow> fc_registered (fold clientMessage js c)"
proof (induction js arbitrary: c)
  case (Cons j js)
  have "fc_registered (clientMessage j c)"
    using Cons.prems by (auto simp: clientMessage_def onUiRegistered_def onUiActive_def applyPendingProviderState_def
        fcEmit_def Let_def)
  then show ?case using Cons.IH by simp
qed simp

lemma reader_prefix:
  assumes "a_sent b = a_sent a @ xs"
  shows "reader s c b = fold clientMessage (sentTo s xs) (reader s c a)" "sentTo s (a_sent b) = sentTo s (a_sent a) @ sentTo s xs"
  using assms by (simp_all add: reader_def sentTo_def)

text \<open>As soon as there is a provider there is an active one, in every reachable state.\<close>

lemma elected_recompute: "registry_wf (a_registry b) \<Longrightarrow> elected (a_registry (snd (agentRecompute e b)))"
  unfolding agentRecompute_registry by (rule recompute_elected)

lemma elected_wf: "elected r \<Longrightarrow> registry_wf r"
  by (simp add: elected_def registry_ok_wf)

interpretation electing: agent_closed e "\<lambda>a. elected (a_registry a)" for e
  by unfold_locales
    (auto simp: agentCreateSession_def agentCloseSession_def onSessionComplete_def update_ops_defs storeAndEmit_def
      updateSessionPinentryRetry_def recomputeIfIdle_def Let_def
      intro!: elected_recompute elected_wf split: option.split prod.split)

lemma elected_perform:
  assumes "elected (a_registry a)" and "legal ev" shows "elected (a_registry (perform e ev a))"
proof (cases ev)
  case (Message t ty m)
  note w = elected_wf [OF assms(1)]
  have r: "elected (a_registry (snd (agentRecompute e (snd (agentRegister e t m a)))))"
    using w assms(2) by (intro elected_recompute) (auto simp: agentRegister_effect(1) registry_wf_def Message)
  then have "elected (a_registry (handleUIRegister e t m a))" by (simp add: register_shape Let_def)
  moreover have "elected (a_registry (handleUIHeartbeat e t m a))"
    using assms(1) registry_wf_ops(2) [OF w]
    by (auto simp: handleUIHeartbeat_def Let_def case_prod_beta intro!: elected_recompute)
  moreover have "elected (a_registry (handleUIUnregister e t m a))"
    using assms(1) registry_wf_ops(3) [OF w]
    by (auto simp: handleUIUnregister_def Let_def case_prod_beta intro!: electing.launchIfNeeded elected_recompute)
  moreover have "elected (a_registry (handleNext e t m a))" "elected (a_registry (handleSubscribe e t m a))"
    using assms(1) subscribe_effect(3) [of e t m a] by (simp_all add: handleNext_def case_prod_beta)
  moreover have "elected (a_registry (handleRespond e t m a))"
    by (rule electing.respond [OF assms(1)]) simp_all
  ultimately show ?thesis
    using assms(1) by (simp add: Message handleMessage_eq electing.handlers electing.ping electing.sends split: if_split)
next
  case (Disconnect t)
  define r where "r = snd (removeSocket t (a_registry a))"
  have "registry_wf r" unfolding r_def by (rule registry_wf_ops(4) [OF elected_wf [OF assms(1)]])
  then show ?thesis
    using assms(1)
    by (auto simp: Disconnect onClientDisconnected_def Let_def case_prod_beta r_def [symmetric]
        intro!: electing.launchIfNeeded electing.managers elected_recompute)
qed (use assms in \<open>auto intro!: electing.managers electing.listener electing.pruneStale\<close>)

lemma elected_reachable: "reachable a \<Longrightarrow> elected (a_registry a)"
proof (induction rule: reachable.induct)
  case (start socketPath dirs)
  show ?case by (simp add: initAgent_def elected_def) (simp add: emptyRegistry_def)
next
  case (step a b)
  then show ?case by (auto simp: agent_step_perform intro: elected_perform)
qed

end
