(* ===== verification/Live_Screen.thy ===== *)
theory Live_Screen
  imports Agent_Belief Fallback_App
begin

text \<open>
  The daemon and the fallback program over one connection: two queues of messages, one each way,
  and everything the two programs, the user and the other clients do, in any order.  The theorem is
  about what the user sees: a request on the screen is live in the daemon, and the answer to it is
  authorized (\<^verbatim>\<open>src/core/Agent.cpp\<close>, \<^verbatim>\<open>src/fallback/FallbackClient.cpp\<close>,
  \<^verbatim>\<open>FallbackWindow.cpp\<close>).
\<close>

section \<open>The connection\<close>

text \<open>\<open>ln_read\<close> counts the messages of the daemon the program has read; \<open>ln_up\<close> are its own that
  the daemon has not.\<close>

record link =
  ln_agent :: agent
  ln_app :: fb_app
  ln_read :: nat
  ln_up :: "jobject list"

definition inbox :: "socket \<Rightarrow> link \<Rightarrow> jobject list" where
  "inbox s y = sentTo s (a_sent (ln_agent y))"

definition newlySent :: "fb_app \<Rightarrow> fb_app \<Rightarrow> jobject list" where
  "newlySent f g = drop (length (fc_sent (app_client f))) (fc_sent (app_client g))"

definition appDoes :: "fb_app \<Rightarrow> link \<Rightarrow> link" where
  "appDoes g y = y\<lparr>ln_app := g, ln_up := ln_up y @ newlySent (ln_app y) g\<rparr>"

definition daemonDoes :: "env \<Rightarrow> happening \<Rightarrow> link \<Rightarrow> link" where
  "daemonDoes e ev y = y\<lparr>ln_agent := perform e ev (ln_agent y)\<rparr>"

definition connectLink :: "agent \<Rightarrow> fb_app \<Rightarrow> link" where
  "connectLink a f = appDoes (viaClient onConnected f) \<lparr>ln_agent = a, ln_app = f, ln_read = 0, ln_up = []\<rparr>"

text \<open>The socket is new to the daemon.\<close>

definition unknownSocket :: "socket \<Rightarrow> agent \<Rightarrow> bool" where
  "unknownSocket s a \<longleftrightarrow> s \<noteq> nullptr \<and> sentTo s (a_sent a) = [] \<and> s \<notin> set (a_subscribers a)
     \<and> \<not> hash_has (uiProviders (a_registry a)) s \<and> s \<notin> set (q_waiters (a_queue a))"

text \<open>An event of the daemon that is not a line of this client; a provider that registers gets an
  identifier nobody has.\<close>

fun elsewhere :: "env \<Rightarrow> socket \<Rightarrow> agent \<Rightarrow> happening \<Rightarrow> bool" where
  "elsewhere e s a (Message t ty m) \<longleftrightarrow> t \<noteq> nullptr \<and> t \<noteq> s \<and> (ty = ''ui.register'' \<longrightarrow> unusedUuid e s a)"
| "elsewhere e s a (Disconnect t) \<longleftrightarrow> t \<noteq> nullptr \<and> t \<noteq> s"
| "elsewhere e s a ev \<longleftrightarrow> True"

inductive link_step :: "socket \<Rightarrow> link \<Rightarrow> link \<Rightarrow> bool" for s where
  other: "steady e s (ln_agent y) \<Longrightarrow> elsewhere e s (ln_agent y) ev \<Longrightarrow> link_step s y (daemonDoes e ev y)"
| request: "ln_up y = m # rest \<Longrightarrow> steady e s (ln_agent y) \<Longrightarrow>
    toStr (jvalue m ''type'') = ''ui.register'' \<longrightarrow> unusedUuid e s (ln_agent y) \<Longrightarrow>
    link_step s y (daemonDoes e (Message s (toStr (jvalue m ''type'')) m) (y\<lparr>ln_up := rest\<rparr>))"
| deliver: "ln_read y < length (inbox s y) \<Longrightarrow>
    link_step s y (appDoes (viaClient (clientMessage (inbox s y ! ln_read y)) (ln_app y)) (y\<lparr>ln_read := Suc (ln_read y)\<rparr>))"
| window: "link_step s y (appDoes (viaWindow x (ln_app y)) y)"
| watchdog: "link_step s y (appDoes (viaClient onWatchdog (ln_app y)) y)"
| heartbeat: "link_step s y (appDoes (viaClient onHeartbeatTimer (ln_app y)) y)"
| reconnect: "link_step s y (appDoes (viaClient onReconnectTimer (ln_app y)) y)"

inductive link_reachable :: "socket \<Rightarrow> link \<Rightarrow> bool" for s where
  start: "reachable a \<Longrightarrow> unknownSocket s a \<Longrightarrow> app_reachable f \<Longrightarrow> link_reachable s (connectLink a f)"
| step: "link_reachable s y \<Longrightarrow> link_step s y z \<Longrightarrow> link_reachable s z"

section \<open>What the program sends\<close>

definition mayRequest :: "jobject \<Rightarrow> bool" where
  "mayRequest m \<longleftrightarrow> toStr (jvalue m ''type'') \<in>
     {''ui.register'', ''subscribe'', ''ui.heartbeat'', ''session.respond'', ''session.cancel''}"

definition extends :: "fb_client \<Rightarrow> fb_client \<Rightarrow> bool" where
  "extends c d \<longleftrightarrow> (\<exists>ms. fc_sent d = fc_sent c @ ms \<and> list_all mayRequest ms)"

lemma extends_refl [simp]: "extends c c"
  by (simp add: extends_def)

lemma extends_trans: "extends c d \<Longrightarrow> extends d b \<Longrightarrow> extends c b"
  by (auto simp: extends_def)

lemma extends_same: "extends c d \<Longrightarrow> fc_sent b = fc_sent d \<Longrightarrow> extends c b"
  by (simp add: extends_def)

lemma extends_send: "extends c d \<Longrightarrow> mayRequest j \<Longrightarrow> extends c (fcSend j d)"
  by (auto simp: extends_def fcSend_def)

lemma extends_emit [simp]: "extends c (fcEmit x d) = extends c d"
  by (simp add: extends_def fcEmit_def)

lemma extends_ops:
  assumes "extends c d"
  shows "extends c (fcSubscribe d)" "extends c (fcRegister d)" "extends c (setProviderActive b d)"
    "extends c (clearPending d)" "extends c (d\<lparr>fc_registered := r, fc_providerId := i\<rparr>)" "extends c (d\<lparr>fc_subscribed := r\<rparr>)"
    "extends c (d\<lparr>fc_pendingKnown := r, fc_pendingActive := r', fc_pendingId := i\<rparr>)"
    "extends c (d\<lparr>fc_reconnectTimer := t\<rparr>)" "extends c (ensureConnected d)"
    "extends c (sendResponse sid x d)" "extends c (sendCancel sid d)"
proof -
  have same: "extends c b" if "fc_sent b = fc_sent d" for b by (rule extends_same [OF assms that])
  show s: "extends c (fcSubscribe d)" "extends c (fcRegister d)" "extends c (sendResponse sid x d)" "extends c (sendCancel sid d)"
    using assms by (simp_all add: fcSubscribe_def fcRegister_def sendResponse_def sendCancel_def extends_send mayRequest_def
        respondMsg_def cancelMsg_def)
  have "extends c (fcSubscribe (d\<lparr>fc_providerActive := b\<rparr>))" for b
    unfolding fcSubscribe_def by (rule extends_send [OF same]) (simp_all add: mayRequest_def)
  moreover have "fcSubscribe (fcEmit x b) = fcEmit x (fcSubscribe b)" for x b
    by (simp add: fcSubscribe_def fcSend_def fcEmit_def isConnected_def)
  ultimately show "extends c (setProviderActive b d)"
    using assms same [of "d\<lparr>fc_providerActive := b\<rparr>"] by (auto simp: setProviderActive_def Let_def)
qed (rule extends_same [OF assms]; simp add: clearPending_def ensureConnected_def)+

lemma extends_message: "extends c (clientMessage j c)"
  by (simp add: clientMessage_def onUiRegistered_def onUiActive_def applyPendingProviderState_def Let_def extends_ops)

lemma extends_timers: "extends c (onWatchdog c)" "extends c (onHeartbeatTimer c)" "extends c (onReconnectTimer c)"
  by (simp_all add: onWatchdog_def onHeartbeatTimer_def onReconnectTimer_def Let_def mayRequest_def extends_ops extends_send)

lemma extends_requests: "extends c (fold performRequest rs c)"
proof (induction rs arbitrary: c)
  case (Cons r rs)
  have "extends c (performRequest r c)"
    by (simp add: performRequest_def extends_ops split: ui_request.split)
  then show ?case using Cons.IH [of "performRequest r c"] by (auto intro: extends_trans)
qed simp


section \<open>The program follows its inbox\<close>

text \<open>What decides how the client reads its messages.\<close>

definition core :: "fb_client \<Rightarrow> bool \<times> bool \<times> string \<times> bool \<times> bool \<times> string" where
  "core c = (fc_registered c, fc_providerActive c, fc_providerId c, fc_pendingKnown c, fc_pendingActive c, fc_pendingId c)"

lemma core_frames [simp]:
  "core (fcSend j c) = core c" "core (fcEmit x c) = core c" "core (c\<lparr>fc_signals := ss\<rparr>) = core c"
  "core (c\<lparr>fc_subscribed := b\<rparr>) = core c" "core (fcSubscribe c) = core c" "core (fcRegister c) = core c"
  "core (c\<lparr>fc_reconnectTimer := t\<rparr>) = core c" "core (ensureConnected c) = core c"
  by (simp_all add: core_def fcEmit_def fcSubscribe_def fcRegister_def ensureConnected_def)

lemma signals_frames [simp]:
  "fc_signals (fcSubscribe c) = fc_signals c" "fc_signals (fcRegister c) = fc_signals c"
  "fc_signals (ensureConnected c) = fc_signals c" "fc_signals (clearPending c) = fc_signals c"
  "fc_signals (fcEmit x c) = fc_signals c @ [x]"
  by (simp_all add: fcSubscribe_def fcRegister_def ensureConnected_def clearPending_def fcEmit_def)

text \<open>Two clients with the same core emit the same signals for a message and keep the same core.\<close>

definition inStep :: "fb_client \<Rightarrow> fb_client \<Rightarrow> fb_client \<Rightarrow> fb_client \<Rightarrow> bool" where
  "inStep c d c' d' \<longleftrightarrow> core c' = core d'
     \<and> (\<exists>xs. fc_signals c' = fc_signals c @ xs \<and> fc_signals d' = fc_signals d @ xs)"

lemma inStep_refl: "core c = core d \<Longrightarrow> inStep c d c d"
  by (simp add: inStep_def)

lemma inStep_emit: "inStep c d c' d' \<Longrightarrow> inStep c d (fcEmit x c') (fcEmit x d')"
  by (auto simp: inStep_def)

lemma inStep_fields:
  assumes "inStep c d c' d'"
  shows "inStep c d (c'\<lparr>fc_registered := b, fc_providerId := i\<rparr>) (d'\<lparr>fc_registered := b, fc_providerId := i\<rparr>)"
    "inStep c d (c'\<lparr>fc_subscribed := b\<rparr>) (d'\<lparr>fc_subscribed := b\<rparr>)"
    "inStep c d (c'\<lparr>fc_pendingKnown := b, fc_pendingActive := b', fc_pendingId := i\<rparr>)
       (d'\<lparr>fc_pendingKnown := b, fc_pendingActive := b', fc_pendingId := i\<rparr>)"
    "inStep c d (clearPending c') (clearPending d')"
  using assms by (auto simp: inStep_def core_def clearPending_def)

lemma setActive_effect:
  "core (setProviderActive b c) = core (c\<lparr>fc_providerActive := b\<rparr>)"
  "fc_signals (setProviderActive b c) = fc_signals c @ (if b = fc_providerActive c then [] else [ProviderState b])"
  by (cases "b = fc_providerActive c"; simp add: setProviderActive_def Let_def; simp add: core_def)+

lemma inStep_active: "inStep c d c' d' \<Longrightarrow> inStep c d (setProviderActive b c') (setProviderActive b d')"
  by (auto simp: inStep_def setActive_effect) (simp_all add: core_def)

lemma inStep_message:
  assumes "core c = core d" shows "inStep c d (clientMessage j c) (clientMessage j d)"
proof -
  note r = inStep_refl [OF assms]
  note rules = inStep_emit inStep_fields inStep_active
  have e: "fc_registered c = fc_registered d" "fc_providerActive c = fc_providerActive d" "fc_providerId c = fc_providerId d"
    "fc_pendingKnown c = fc_pendingKnown d" "fc_pendingActive c = fc_pendingActive d" "fc_pendingId c = fc_pendingId d"
    using assms by (simp_all add: core_def)
  show ?thesis
    by (simp add: clientMessage_def onUiRegistered_def onUiActive_def applyPendingProviderState_def Let_def e r rules)
qed

text \<open>What a window may be showing, given what the client knows.\<close>

definition screen :: "fb_window \<Rightarrow> (string \<Rightarrow> string option) \<Rightarrow> bool" where
  "screen w k \<longleftrightarrow> fw_session w = [] \<or> k (fw_session w) = Some (fw_source w)
     \<or> CloseAny \<in> set (fw_closers w) \<or> CloseIf (fw_session w) \<in> set (fw_closers w)"

lemma dismiss_session [simp]: "fw_session (dismiss w) = []"
  by (simp add: dismiss_def small_defs)

lemma updated_shows:
  "fw_session (onSessionUpdated ev w) = fw_session w" "fw_source (onSessionUpdated ev w) = fw_source w"
  "fw_closers (onSessionUpdated ev w) = fw_closers w"
  unfolding onSessionUpdated_def Let_def
  by (simp_all add: updateStatus_def small_defs if_distrib [of fw_session] if_distrib [of fw_source]
      if_distrib [of fw_closers] split del: if_split cong: if_cong) (simp split: if_split)

lemma screen_signal: "screen w k \<Longrightarrow> screen (onSignal x w) (heed x k)"
proof -
  assume s: "screen w k"
  have same: "screen v k'" if "fw_session v = fw_session w" "fw_source v = fw_source w" "fw_closers v = fw_closers w" "k' = k"
    for v k' using s that by (simp add: screen_def)
  show ?thesis
  proof (cases x)
    case (ConnectionState b)
    then show ?thesis by (auto intro!: same simp: onSignal_def onConnectionState_def small_defs)
  next
    case (ProviderState b)
    then show ?thesis
      by (cases b) (use s in \<open>auto simp: onSignal_def onProviderState_def screen_def small_defs\<close>)
  next
    case (StatusMessage t)
    then show ?thesis by (auto intro!: same simp: onSignal_def small_defs)
  next
    case (SessionCreated ev)
    then show ?thesis
      using s by (simp add: onSignal_def onSessionCreated_def heed_def Let_def) (simp add: screen_def small_defs)
  next
    case (SessionUpdated ev)
    then show ?thesis
      by (auto intro!: same simp: onSignal_def updated_shows)
  next
    case (SessionClosed ev)
    let ?i = "toStr (jvalue ev ''id'')"
    show ?thesis
    proof (cases "?i = [] \<or> ?i \<noteq> fw_session w")
      case True
      then show ?thesis
        using s by (auto simp: SessionClosed onSignal_def onSessionClosed_def heed_def screen_def Let_def)
    next
      case False
      then show ?thesis
        by (auto simp: SessionClosed onSignal_def onSessionClosed_def heed_def screen_def small_defs)
    qed
  qed
qed

lemma screen_signals: "screen w k \<Longrightarrow> screen (fold onSignal xs w) (fold heed xs k)"
  by (induction xs arbitrary: w k) (auto intro: screen_signal)

lemma input_same:
  "(\<forall>i. x \<noteq> InCloser i) \<Longrightarrow> fw_session (performInput isConn x w) = []
    \<or> fw_session (performInput isConn x w) = fw_session w \<and> fw_source (performInput isConn x w) = fw_source w
      \<and> fw_closers (performInput isConn x w) = fw_closers w"
  by (cases x)
    (auto simp: performInput_def clickSubmit_def submitClicked_def clickCancel_def handleCancelRequest_def clickDetails_def
      typeText_def toggleReveal_def closeEvent_def actionTimeout_def small_defs)

lemma screen_input: "screen w k \<Longrightarrow> screen (performInput isConn x w) k"
proof -
  assume s: "screen w k"
  have gone: "screen v k" if "fw_session v = []" for v using that by (simp add: screen_def)
  show ?thesis
  proof (cases x)
    case (InCloser i)
    show ?thesis
    proof (cases "i < length (fw_closers w)")
      case True
      note True' = True
      let ?u = "w\<lparr>fw_closers := take i (fw_closers w) @ drop (Suc i) (fw_closers w)\<rparr>"
      have all: "set (fw_closers w) \<subseteq> insert (fw_closers w ! i) (set (fw_closers ?u))"
        using arg_cong [OF id_take_nth_drop [OF True], of set] by simp
      show ?thesis
      proof (cases "runCloser (fw_closers w ! i) ?u = dismiss ?u")
        case True
        then show ?thesis using True' by (auto intro!: gone simp: InCloser performInput_def fireCloser_def)
      next
        case False
        then obtain sid where sid: "fw_closers w ! i = CloseIf sid" "fw_session w \<noteq> sid"
          by (cases "fw_closers w ! i") (auto simp: runCloser_def split: if_splits)
        then have "screen ?u k" using s all by (auto simp: screen_def)
        then show ?thesis using sid True' by (simp add: InCloser performInput_def fireCloser_def runCloser_def)
      qed
    qed (use s InCloser in \<open>simp add: performInput_def fireCloser_def\<close>)
  qed (use s input_same [of x isConn w] in \<open>auto simp: screen_def\<close>)
qed

section \<open>The invariant\<close>

text \<open>The client as it would be after the messages it has read, had it read them at once.\<close>

definition readSoFar :: "socket \<Rightarrow> fb_client \<Rightarrow> link \<Rightarrow> fb_client" where
  "readSoFar s c y = fold clientMessage (take (ln_read y) (inbox s y)) c"

definition agent_part :: "socket \<Rightarrow> fb_client \<Rightarrow> agent \<Rightarrow> bool" where
  "agent_part s c a \<longleftrightarrow> reachable a \<and> posted s c {} a \<and> elected (a_registry a)"

definition app_part :: "socket \<Rightarrow> fb_client \<Rightarrow> link \<Rightarrow> bool" where
  "app_part s c y \<longleftrightarrow> ln_read y \<le> length (inbox s y) \<and> core (app_client (ln_app y)) = core (readSoFar s c y)
     \<and> screen (app_window (ln_app y)) (knows (readSoFar s c y))"

definition up_part :: "socket \<Rightarrow> fb_client \<Rightarrow> link \<Rightarrow> bool" where
  "up_part s c y \<longleftrightarrow> list_all mayRequest (ln_up y) \<and> (fc_registered (reader s c (ln_agent y))
     \<or> (\<exists>m rest. ln_up y = m # rest \<and> toStr (jvalue m ''type'') = ''ui.register''))"

definition link_ok :: "socket \<Rightarrow> fb_client \<Rightarrow> link \<Rightarrow> bool" where
  "link_ok s c y \<longleftrightarrow> fc_providerId c = [] \<and> agent_part s c (ln_agent y) \<and> app_part s c y \<and> up_part s c y"

text \<open>A step of the daemon.\<close>

lemma daemon_agent_part:
  assumes "agent_part s c a" and "steady e s a" and "wellBehaved e s (reader s c a) a ev" and "legal ev"
  shows "agent_part s c (perform e ev a)"
proof -
  have "abreast e s c {} a" using assms(1,2) by (simp add: agent_part_def abreast_def)
  then have "abreast e s c {} (perform e ev a)" using assms(3) by (rule abreast_perform)
  moreover have "reachable (perform e ev a)"
    using assms(1,4) by (auto simp: agent_part_def intro: reachable.step perform_step)
  ultimately show ?thesis by (simp add: agent_part_def abreast_def)
qed

lemma daemon_app_part:
  assumes "app_part s c y" and "reachable (ln_agent y)" shows "app_part s c (daemonDoes e ev (y\<lparr>ln_up := u\<rparr>))"
proof -
  obtain xs where "a_sent (perform e ev (ln_agent y)) = a_sent (ln_agent y) @ xs" using perform_log [OF assms(2)] by blast
  then have "inbox s (daemonDoes e ev (y\<lparr>ln_up := u\<rparr>)) = inbox s y @ sentTo s xs"
    by (simp add: inbox_def daemonDoes_def sentTo_def)
  then show ?thesis using assms(1) by (simp add: app_part_def readSoFar_def) (simp add: daemonDoes_def)
qed

lemma daemon_registered:
  assumes "reachable a" and "fc_registered (reader s c a)" shows "fc_registered (reader s c (perform e ev a))"
proof -
  obtain xs where "a_sent (perform e ev a) = a_sent a @ xs" using perform_log [OF assms(1)] by blast
  then show ?thesis using registered_stays [OF assms(2)] by (simp add: reader_prefix)
qed

lemma link_ok_other:
  assumes "link_ok s c y" and "steady e s (ln_agent y)" and "elsewhere e s (ln_agent y) ev"
  shows "link_ok s c (daemonDoes e ev y)"
proof -
  have r: "reachable (ln_agent y)" and id: "fc_providerId c = []" using assms(1) by (simp_all add: link_ok_def agent_part_def)
  have "wellBehaved e s (reader s c (ln_agent y)) (ln_agent y) ev" "legal ev"
    using assms(3) unused_fresh [OF _ id] by (cases ev; auto)+
  then have "agent_part s c (perform e ev (ln_agent y))"
    using assms(1,2) by (intro daemon_agent_part) (simp_all add: link_ok_def)
  moreover have "app_part s c (daemonDoes e ev y)"
    using daemon_app_part [of s c y e ev "ln_up y"] assms(1) r by (simp add: link_ok_def)
  moreover have "up_part s c (daemonDoes e ev y)"
    using assms(1) daemon_registered [OF r] by (auto simp: link_ok_def up_part_def daemonDoes_def)
  ultimately show ?thesis using id by (simp add: link_ok_def daemonDoes_def)
qed

lemma link_ok_request:
  assumes "link_ok s c y" and "ln_up y = m # rest" and "steady e s (ln_agent y)"
    and "toStr (jvalue m ''type'') = ''ui.register'' \<longrightarrow> unusedUuid e s (ln_agent y)"
  shows "link_ok s c (daemonDoes e (Message s (toStr (jvalue m ''type'')) m) (y\<lparr>ln_up := rest\<rparr>))"
proof -
  let ?a = "ln_agent y" and ?ev = "Message s (toStr (jvalue m ''type'')) m"
  have r: "reachable ?a" and id: "fc_providerId c = []" and s: "s \<noteq> nullptr"
    using assms(1,3) by (simp_all add: link_ok_def agent_part_def steady_def)
  have u: "mayRequest m" "list_all mayRequest rest" "fc_registered (reader s c ?a) \<or> toStr (jvalue m ''type'') = ''ui.register''"
    using assms(1,2) by (auto simp: link_ok_def up_part_def)
  have fresh: "toStr (jvalue m ''type'') = ''ui.register'' \<Longrightarrow> freshUuid e (reader s c ?a) ?a"
    using unused_fresh [OF _ id] assms(4) by blast
  have "wellBehaved e s (reader s c ?a) ?a ?ev"
    using u(1,3) s fresh by (auto simp: mayRequest_def)
  then have ag: "agent_part s c (perform e ?ev ?a)"
    using assms(1,3) s by (intro daemon_agent_part) (simp_all add: link_ok_def)
  have "fc_registered (reader s c (perform e ?ev ?a))"
  proof (cases "fc_registered (reader s c ?a)")
    case True
    then show ?thesis by (rule daemon_registered [OF r])
  next
    case False
    have "abreast e s c {} ?a" using assms(1,3) by (simp add: link_ok_def agent_part_def abreast_def)
    then show ?thesis using abreast_register_self(2) [OF _ fresh] u(3) False by (simp add: handleMessage_eq)
  qed
  then show ?thesis
    using ag id u(2) daemon_app_part [of s c y] assms(1) r
    by (simp add: link_ok_def up_part_def) (simp add: daemonDoes_def)
qed

text \<open>A step of the program.\<close>

lemma extends_newly:
  "extends (app_client f) (app_client g) \<Longrightarrow> list_all mayRequest (newlySent f g)"
  by (auto simp: extends_def newlySent_def)

lemma app_up_part:
  assumes "up_part s c y" and "extends (app_client (ln_app y)) (app_client g)"
  shows "up_part s c (appDoes g (y\<lparr>ln_read := n\<rparr>))"
  using assms extends_newly [OF assms(2)] by (auto simp: up_part_def appDoes_def)

text \<open>The client's slots that emit no signals.\<close>

lemma viaClient_quiet:
  assumes "\<And>c. fc_signals (f c) = fc_signals c" shows "app_window (viaClient f a) = app_window a"
  using assms by (simp add: viaClient_def Let_def)

lemma viaClient_extends:
  assumes "\<And>c. extends c (f c)" shows "extends (app_client a) (app_client (viaClient f a))"
  using assms [of "(app_client a)\<lparr>fc_signals := []\<rparr>"] by (simp add: viaClient_def Let_def extends_def)

lemma link_ok_timer:
  assumes "link_ok s c y" and "\<And>c. extends c (f c)" "\<And>c. fc_signals (f c) = fc_signals c" "\<And>c. core (f c) = core c"
  shows "link_ok s c (appDoes (viaClient f (ln_app y)) y)"
proof -
  have "core (app_client (viaClient f (ln_app y))) = core (app_client (ln_app y))"
    using assms(4) by (simp add: viaClient_def Let_def)
  then show ?thesis
    using assms(1) app_up_part [OF _ viaClient_extends [OF assms(2)], of s c y "ln_read y"] viaClient_quiet [OF assms(3), of "ln_app y"]
    by (simp add: link_ok_def) (simp add: app_part_def readSoFar_def inbox_def appDoes_def)
qed

lemma timers_quiet:
  "fc_signals (onWatchdog c) = fc_signals c" "fc_signals (onHeartbeatTimer c) = fc_signals c"
  "fc_signals (onReconnectTimer c) = fc_signals c" "core (onWatchdog c) = core c" "core (onHeartbeatTimer c) = core c"
  "core (onReconnectTimer c) = core c"
  by (simp_all add: onWatchdog_def onHeartbeatTimer_def onReconnectTimer_def Let_def)


lemma link_ok_window:
  assumes "link_ok s c y" shows "link_ok s c (appDoes (viaWindow x (ln_app y)) y)"
proof -
  let ?a = "ln_app y"
  have core: "core (fold performRequest rs d) = core d" for rs d
    by (induction rs arbitrary: d) (auto simp: performRequest_def sendResponse_def sendCancel_def split: ui_request.split)
  have "screen ((app_window ?a)\<lparr>fw_requests := []\<rparr>) (knows (readSoFar s c y))"
    using assms by (simp add: link_ok_def app_part_def screen_def)
  from screen_input [OF this, of "isConnected (app_client ?a)" x]
  have "screen (app_window (viaWindow x ?a)) (knows (readSoFar s c y))" by (simp add: viaWindow_def Let_def)
  moreover have "core (app_client (viaWindow x ?a)) = core (app_client ?a)"
    by (simp add: viaWindow_def Let_def core)
  moreover have "extends (app_client ?a) (app_client (viaWindow x ?a))"
    by (simp add: viaWindow_def Let_def extends_requests)
  ultimately show ?thesis
    using assms app_up_part [of s c y "viaWindow x ?a" "ln_read y"]
    by (simp add: link_ok_def) (simp add: app_part_def readSoFar_def inbox_def appDoes_def)
qed

lemma link_ok_deliver:
  assumes "link_ok s c y" and "ln_read y < length (inbox s y)"
  shows "link_ok s c (appDoes (viaClient (clientMessage (inbox s y ! ln_read y)) (ln_app y)) (y\<lparr>ln_read := Suc (ln_read y)\<rparr>))"
proof -
  let ?j = "inbox s y ! ln_read y" and ?v = "readSoFar s c y" and ?d = "(app_client (ln_app y))\<lparr>fc_signals := []\<rparr>"
  let ?g = "viaClient (clientMessage ?j) (ln_app y)" and ?z = "y\<lparr>ln_read := Suc (ln_read y)\<rparr>"
  have a: "core (app_client (ln_app y)) = core ?v" "screen (app_window (ln_app y)) (knows ?v)"
    using assms(1) by (simp_all add: link_ok_def app_part_def)
  have "inStep ?d ?v (clientMessage ?j ?d) (clientMessage ?j ?v)" by (rule inStep_message) (simp add: a(1))
  then obtain xs where xs: "core (clientMessage ?j ?d) = core (clientMessage ?j ?v)"
    "fc_signals (clientMessage ?j ?d) = xs" "fc_signals (clientMessage ?j ?v) = fc_signals ?v @ xs"
    by (auto simp: inStep_def)
  have v: "readSoFar s c (appDoes ?g ?z) = clientMessage ?j ?v"
    using assms(2) by (simp add: readSoFar_def inbox_def appDoes_def take_Suc_conv_app_nth)
  have "core (app_client ?g) = core (clientMessage ?j ?v)" using xs(1) by (simp add: viaClient_def Let_def)
  moreover have "screen (app_window ?g) (knows (clientMessage ?j ?v))"
    using screen_signals [OF a(2), of xs] xs(2,3) by (simp add: viaClient_def Let_def knows_def)
  ultimately have "app_part s c (appDoes ?g ?z)"
    unfolding app_part_def v using assms(2) by (simp add: inbox_def appDoes_def)
  moreover have "up_part s c (appDoes ?g ?z)"
    using assms(1) by (intro app_up_part viaClient_extends extends_message) (simp add: link_ok_def)
  ultimately show ?thesis using assms(1) by (simp add: link_ok_def appDoes_def)
qed

lemma link_ok_step: "link_ok s c y \<Longrightarrow> link_step s y z \<Longrightarrow> link_ok s c z"
  by (erule link_step.cases)
     (auto intro: link_ok_other link_ok_request link_ok_deliver link_ok_window link_ok_timer extends_timers simp: timers_quiet)

lemma connected_client:
  fixes f defines "c \<equiv> app_client (viaClient onConnected f)"
  shows "\<not> fc_registered c" "\<not> fc_providerActive c" "fc_providerId c = []" "\<not> fc_pendingKnown c"
    "list_all mayRequest (newlySent f (viaClient onConnected f))"
    "\<exists>m rest. newlySent f (viaClient onConnected f) = m # rest \<and> toStr (jvalue m ''type'') = ''ui.register''"
proof -
  let ?d = "fcEmit (StatusMessage ''Connected to auth daemon'') (fcEmit (ConnectionState True)
     (forgetProvider ((app_client f)\<lparr>fc_signals := [], fc_socket := Connected, fc_reconnectDelayMs := 200\<rparr>)))"
  have c: "c = fcSubscribe (fcRegister ?d)" by (simp add: c_def viaClient_def onConnected_def Let_def)
  have so: "fc_socket (forgetProvider b) = fc_socket b" "fc_sent (forgetProvider b) = fc_sent b" for b
    by (auto simp: forgetProvider_def setProviderActive_def clearPending_def fcEmit_def Let_def)
  have e: "isConnected ?d" "fc_sent ?d = fc_sent (app_client f)"
    using so by (simp_all add: isConnected_def fcEmit_def)
  show "\<not> fc_registered c" "\<not> fc_providerActive c" "fc_providerId c = []" "\<not> fc_pendingKnown c"
    by (simp_all add: c fcSubscribe_def fcRegister_def) (simp_all add: fcEmit_def forgetProvider_def)
  have "fc_sent c = fc_sent (app_client f) @ [[(''type'', JStr ''ui.register''), (''name'', JStr ''bb-auth-fallback''),
     (''kind'', JStr ''fallback''), (''priority'', JInt 10)], [(''type'', JStr ''subscribe'')]]"
    using e by (simp add: c fcSubscribe_def fcRegister_def fcSend_def isConnected_def)
  then show "list_all mayRequest (newlySent f (viaClient onConnected f))"
    "\<exists>m rest. newlySent f (viaClient onConnected f) = m # rest \<and> toStr (jvalue m ''type'') = ''ui.register''"
    by (simp_all add: newlySent_def c_def mayRequest_def)
qed

definition linkedClient :: "fb_app \<Rightarrow> fb_client" where
  "linkedClient f = (app_client (viaClient onConnected f))\<lparr>fc_signals := []\<rparr>"

lemma link_ok_start:
  assumes "reachable a" and "unknownSocket s a" and "app_reachable f"
  shows "link_ok s (linkedClient f) (connectLink a f)"
proof -
  let ?g = "viaClient onConnected f" and ?c = "linkedClient f" and ?y = "connectLink a f"
  note u = assms(2) [unfolded unknownSocket_def]
  have ln: "ln_agent ?y = a" "ln_app ?y = ?g" "ln_read ?y = 0" "ln_up ?y = newlySent f ?g"
    by (simp_all add: connectLink_def appDoes_def)
  have c: "\<not> fc_registered ?c" "\<not> fc_providerActive ?c" "fc_providerId ?c = []" "\<not> fc_pendingKnown ?c" "knows ?c = Map.empty"
    using connected_client [of f] by (simp_all add: linkedClient_def knows_def)
  have r: "reader s ?c a = ?c" "readSoFar s ?c ?y = ?c" using u by (simp_all add: reader_def readSoFar_def ln)
  have "agent_ok a" by (rule reachable_ok [OF assms(1)])
  then have "store_wf (a_store a)" by (simp add: agent_ok_def core_ok_def)
  then have "posted s ?c {} a"
    using c u elected_wf [OF elected_reachable [OF assms(1)]]
    by (simp add: posted_def r placed_def reached_def known_def)
  then have 1: "agent_part s ?c a" using assms(1) elected_reachable by (simp add: agent_part_def)
  have "app_reachable ?g" using assms(3) by (rule app_reachable.step) (rule app_step.connected)
  then have "fw_session (app_window ?g) = []"
    using reachable_app_ok [of ?g] connected_client(2) [of f] by (simp add: app_ok_def)
  then have 2: "app_part s ?c ?y" by (simp add: app_part_def r ln screen_def) (simp add: linkedClient_def)
  have 3: "up_part s ?c ?y" using connected_client(5,6) [of f] by (simp add: up_part_def ln)
  show ?thesis using 1 2 3 c by (simp add: link_ok_def ln)
qed

lemma link_ok_reachable: "link_reachable s y \<Longrightarrow> \<exists>c. link_ok s c y"
  by (induction rule: link_reachable.induct) (blast intro: link_ok_start link_ok_step)+

text \<open>A request on the screen of a program that has read its mail.\<close>

lemma link_screen:
  assumes "link_reachable s y" and "ln_read y = length (inbox s y)"
    and "w = app_window (ln_app y)" and "fw_session w \<noteq> []"
    and "CloseAny \<notin> set (fw_closers w)" and "CloseIf (fw_session w) \<notin> set (fw_closers w)"
  shows "sourceOf (a_store (ln_agent y)) (fw_session w) = Some (fw_source w)
    \<and> isAuthorized s (a_registry (ln_agent y))"
proof -
  obtain c where ok: "link_ok s c y" using link_ok_reachable [OF assms(1)] by blast
  let ?a = "ln_agent y" and ?v = "reader s c (ln_agent y)"
  have v: "readSoFar s c y = ?v" using assms(2) by (simp add: readSoFar_def reader_def inbox_def)
  have k: "knows ?v (fw_session w) = Some (fw_source w)"
    using ok assms(3-6) by (auto simp: link_ok_def app_part_def screen_def v)
  have p: "posted s c {} ?a" "elected (a_registry ?a)" using ok by (simp_all add: link_ok_def agent_part_def)
  have act: "fc_providerActive ?v" by (rule ccontr) (use p(1) k in \<open>simp add: posted_def known_def\<close>)
  then have "sourceOf (a_store ?a) (fw_session w) = Some (fw_source w)"
    using p(1) k by (simp add: posted_def known_def)
  moreover have "isAuthorized s (a_registry ?a)"
    using p act by (auto simp: posted_def reached_def elected_def isAuthorized_def registry_ok_def)
  ultimately show ?thesis ..
qed

section \<open>At a glance\<close>

text \<open>Of the window: the request shown, its source, the closes scheduled, and whether it is visible; and what
  a signal does to these four.\<close>

type_synonym glimpse = "string \<times> string \<times> closer list \<times> bool"

definition glance :: "fb_window \<Rightarrow> glimpse" where
  "glance w = (fw_session w, fw_source w, fw_closers w, fw_visible w)"

fun glanceSignal :: "fb_signal \<Rightarrow> glimpse \<Rightarrow> glimpse" where
  "glanceSignal (SessionCreated ev) (i, src, ks, v) =
     (if toStr (jvalue ev ''id'') = [] then (i, src, ks, v)
      else (toStr (jvalue ev ''id''), toStr (jvalue ev ''source''), ks, True))"
| "glanceSignal (SessionClosed ev) (i, src, ks, v) =
     (let sid = toStr (jvalue ev ''id''); result = toStr (jvalue ev ''result'') in
      if sid = [] \<or> sid \<noteq> i then (i, src, ks, v)
      else if result = ''success'' then (i, src, ks @ [CloseAny], v)
      else if result = ''cancelled'' \<or> result = ''canceled'' then ([], [], ks, False)
      else (i, src, ks @ [CloseIf sid], v))"
| "glanceSignal (ProviderState active) (i, src, ks, v) =
     (if active then (i, src, ks, v) else ([], if i = [] then src else [], ks, False))"
| "glanceSignal _ g = g"

lemma glance_signal: "glance (onSignal x w) = glanceSignal x (glance w)"
proof (cases x)
  case (SessionClosed ev)
  then show ?thesis
    by (simp add: onSignal_def onSessionClosed_def glance_def dismiss_def small_defs) (simp add: clearSession_def small_defs)
next
  case (ProviderState b)
  then show ?thesis
    by (cases b) (simp_all add: onSignal_def onProviderState_def glance_def small_defs, simp add: clearSession_def small_defs)
qed (simp_all add: glance_def onSignal_def onConnectionState_def onSessionCreated_def onSessionUpdated_def updateStatus_def
    small_defs)

lemma glance_signals: "glance (fold onSignal xs w) = fold glanceSignal xs (glance w)"
  by (induction xs arbitrary: w) (simp_all add: glance_signal)

text \<open>Reading several messages.\<close>

definition appReadsAll :: "jobject list \<Rightarrow> fb_app \<Rightarrow> fb_app" where
  "appReadsAll js f = fold (\<lambda>j. viaClient (clientMessage j)) js f"

lemma appReadsAll_client:
  "app_client (appReadsAll js f) = fold (\<lambda>j c. clientMessage j (c\<lparr>fc_signals := []\<rparr>)) js (app_client f)"
  by (induction js arbitrary: f) (simp_all add: appReadsAll_def viaClient_def Let_def)

lemma appReadsAll_glance:
  assumes "core d = core (app_client f)"
  shows "\<exists>xs. fc_signals (fold clientMessage js d) = fc_signals d @ xs
    \<and> glance (app_window (appReadsAll js f)) = fold glanceSignal xs (glance (app_window f))"
  using assms
proof (induction js arbitrary: d f)
  case (Cons j js)
  let ?g = "viaClient (clientMessage j) f"
  have "inStep ((app_client f)\<lparr>fc_signals := []\<rparr>) d (clientMessage j ((app_client f)\<lparr>fc_signals := []\<rparr>)) (clientMessage j d)"
    by (rule inStep_message) (simp add: Cons.prems)
  then obtain xs where xs: "core (clientMessage j ((app_client f)\<lparr>fc_signals := []\<rparr>)) = core (clientMessage j d)"
    "fc_signals (clientMessage j ((app_client f)\<lparr>fc_signals := []\<rparr>)) = xs" "fc_signals (clientMessage j d) = fc_signals d @ xs"
    by (auto simp: inStep_def)
  then have g: "core (clientMessage j d) = core (app_client ?g)" "glance (app_window ?g) = fold glanceSignal xs (glance (app_window f))"
    by (simp_all add: viaClient_def Let_def glance_signals)
  obtain ys where "fc_signals (fold clientMessage js (clientMessage j d)) = fc_signals (clientMessage j d) @ ys"
    "glance (app_window (appReadsAll js ?g)) = fold glanceSignal ys (glance (app_window ?g))"
    using Cons.IH [OF g(1)] by blast
  then show ?case using xs(3) g(2) by (intro exI [of _ "xs @ ys"]) (simp add: appReadsAll_def)
qed (simp add: appReadsAll_def)

text \<open>The program reads its whole inbox.\<close>

definition catchUp :: "socket \<Rightarrow> link \<Rightarrow> link" where
  "catchUp s y = appDoes (appReadsAll (drop (ln_read y) (inbox s y)) (ln_app y)) (y\<lparr>ln_read := length (inbox s y)\<rparr>)"

lemma newlySent_trans:
  "extends (app_client f) (app_client g) \<Longrightarrow> extends (app_client g) (app_client h) \<Longrightarrow>
   newlySent f h = newlySent f g @ newlySent g h"
  by (auto simp: extends_def newlySent_def)

lemma appReadsAll_extends: "extends (app_client f) (app_client (appReadsAll js f))"
proof (induction js arbitrary: f)
  case (Cons j js)
  then show ?case
    using extends_trans [OF viaClient_extends [OF extends_message] Cons.IH [of "viaClient (clientMessage j) f"]]
    by (simp add: appReadsAll_def)
qed (simp add: appReadsAll_def)

lemma link_catchUp:
  assumes "link_reachable s y" and "ln_read y \<le> length (inbox s y)" shows "link_reachable s (catchUp s y)"
  using assms
proof (induction "length (inbox s y) - ln_read y" arbitrary: y)
  case 0
  then show ?case by (simp add: catchUp_def appReadsAll_def appDoes_def newlySent_def)
next
  case (Suc n)
  then have lt: "ln_read y < length (inbox s y)" by simp
  let ?j = "inbox s y ! ln_read y"
  let ?g = "viaClient (clientMessage ?j) (ln_app y)"
  let ?z = "appDoes ?g (y\<lparr>ln_read := Suc (ln_read y)\<rparr>)"
  have z: "inbox s ?z = inbox s y" "ln_read ?z = Suc (ln_read y)" "ln_app ?z = ?g" by (simp_all add: appDoes_def inbox_def)
  have "link_reachable s ?z" using Suc.prems(1) link_step.deliver [OF lt] by (rule link_reachable.step)
  then have "link_reachable s (catchUp s ?z)" using Suc lt by (intro Suc.hyps(1)) (simp_all add: z)
  moreover have "catchUp s ?z = catchUp s y"
    using newlySent_trans [OF viaClient_extends [OF extends_message] appReadsAll_extends]
    by (simp add: catchUp_def z Cons_nth_drop_Suc [OF lt, symmetric]) (simp add: appDoes_def appReadsAll_def)
  ultimately show ?case by simp
qed

definition daemonReads :: "env \<Rightarrow> socket \<Rightarrow> link \<Rightarrow> link" where
  "daemonReads e s y =
     (case ln_up y of
        [] \<Rightarrow> y
      | m # rest \<Rightarrow> daemonDoes e (Message s (toStr (jvalue m ''type'')) m) (y\<lparr>ln_up := rest\<rparr>))"

lemma link_daemonReads:
  assumes "link_reachable s y" and "steady e s (ln_agent y)" and "unusedUuid e s (ln_agent y)"
  shows "link_reachable s (daemonReads e s y)"
  using assms(1) link_step.request [OF _ assms(2)] assms(3)
  by (auto simp: daemonReads_def intro: link_reachable.step split: list.split)

end
