(* ===== verification/Link_Limits.thy ===== *)
theory Link_Limits
  imports Live_Screen
begin

text \<open>
  A run of the daemon and the fallback program over their connection, and two things the connection
  does not give: a request that a newer one replaced on the screen is not shown again
  (\<^verbatim>\<open>FallbackWindow.cpp\<close>), and a client the daemon has dropped from its registry does not
  register again (\<^verbatim>\<open>FallbackClient.cpp\<close>).
\<close>

section \<open>Links without a user\<close>

text \<open>As long as only messages are read, the program is what its inbox makes of it: \<open>f\<close> is the program
  before the connection, \<open>k\<close> the number of its messages the daemon has read.\<close>

definition follows :: "socket \<Rightarrow> fb_app \<Rightarrow> nat \<Rightarrow> link \<Rightarrow> bool" where
  "follows s f k y \<longleftrightarrow> ln_read y \<le> length (inbox s y)
     \<and> ln_app y = appReadsAll (take (ln_read y) (inbox s y)) (viaClient onConnected f)
     \<and> k \<le> length (newlySent f (ln_app y)) \<and> ln_up y = drop k (newlySent f (ln_app y))"

lemma follows_start: "follows s f 0 (connectLink a f)"
  by (simp add: follows_def connectLink_def appDoes_def appReadsAll_def)

lemma onConnected_extends: "extends (app_client f) (app_client (viaClient onConnected f))"
proof (rule viaClient_extends)
  fix c :: fb_client
  have "extends c (c\<lparr>fc_socket := Connected, fc_reconnectDelayMs := 200, fc_subscribed := False, fc_registered := False,
      fc_providerId := []\<rparr>)"
    by (rule extends_same [OF extends_refl]) simp
  then show "extends c (onConnected c)"
    by (simp add: onConnected_def forgetProvider_def Let_def extends_ops)
qed

lemma followsD:
  assumes "follows s f k y"
  shows "ln_read y \<le> length (inbox s y)" "ln_app y = appReadsAll (take (ln_read y) (inbox s y)) (viaClient onConnected f)"
    "k \<le> length (newlySent f (ln_app y))" "ln_up y = drop k (newlySent f (ln_app y))"
  using assms unfolding follows_def by blast+

lemma follows_extends: "follows s f k y \<Longrightarrow> extends (app_client f) (app_client (ln_app y))"
  unfolding follows_def using extends_trans [OF onConnected_extends appReadsAll_extends] by simp

lemma follows_catchUp:
  assumes "follows s f k y"
  shows "follows s f k (catchUp s y)" "ln_agent (catchUp s y) = ln_agent y" "ln_read (catchUp s y) = length (inbox s (catchUp s y))"
proof -
  let ?g = "appReadsAll (drop (ln_read y) (inbox s y)) (ln_app y)"
  show a: "ln_agent (catchUp s y) = ln_agent y" by (simp add: catchUp_def appDoes_def)
  then have i: "inbox s (catchUp s y) = inbox s y" by (simp add: inbox_def)
  show r: "ln_read (catchUp s y) = length (inbox s (catchUp s y))" unfolding i by (simp add: catchUp_def appDoes_def)
  have app: "ln_app (catchUp s y) = ?g" by (simp add: catchUp_def appDoes_def)
  have "?g = appReadsAll (inbox s y) (viaClient onConnected f)"
    using assms unfolding follows_def appReadsAll_def by (metis append_take_drop_id comp_apply fold_append)
  moreover have n: "newlySent f ?g = newlySent f (ln_app y) @ newlySent (ln_app y) ?g"
    by (rule newlySent_trans [OF follows_extends [OF assms] appReadsAll_extends])
  have k: "k \<le> length (newlySent f (ln_app y))" "ln_up y = drop k (newlySent f (ln_app y))"
    using followsD [OF assms] by blast+
  have "k \<le> length (newlySent f ?g)" "ln_up (catchUp s y) = drop k (newlySent f ?g)"
    unfolding n using k by (simp_all add: catchUp_def appDoes_def)
  ultimately show "follows s f k (catchUp s y)" using r by (simp add: follows_def app i)
qed

lemma follows_grown:
  assumes "follows s f k y" and "inbox s z = inbox s y @ xs" and "ln_read z = ln_read y" and "ln_app z = ln_app y"
    and "n \<le> length (newlySent f (ln_app y))" and "ln_up z = drop n (newlySent f (ln_app y))"
  shows "follows s f n z"
  unfolding follows_def assms(2-4) using followsD [OF assms(1)] assms(5,6) by (intro conjI) simp_all

lemma follows_daemonDoes:
  assumes "follows s f k y" and "reachable (ln_agent y)"
  shows "follows s f k (daemonDoes e ev y)" "ln_agent (daemonDoes e ev y) = perform e ev (ln_agent y)"
    "ln_app (daemonDoes e ev y) = ln_app y"
proof -
  obtain xs where "a_sent (perform e ev (ln_agent y)) = a_sent (ln_agent y) @ xs" using perform_log [OF assms(2)] by blast
  then have "inbox s (daemonDoes e ev y) = inbox s y @ sentTo s xs" by (simp add: inbox_def daemonDoes_def sentTo_def)
  then show "follows s f k (daemonDoes e ev y)"
    by (rule follows_grown [OF assms(1)]) (simp_all add: daemonDoes_def followsD(3,4) [OF assms(1)])
qed (simp_all add: daemonDoes_def)

lemma follows_daemonReads:
  assumes "follows s f k y" and "reachable (ln_agent y)" and "newlySent f (ln_app y) = xs @ m # rest" "length xs = k"
  shows "follows s f (Suc k) (daemonReads e s y)"
    "ln_agent (daemonReads e s y) = perform e (Message s (toStr (jvalue m ''type'')) m) (ln_agent y)"
    "ln_app (daemonReads e s y) = ln_app y"
proof -
  have up: "ln_up y = m # rest" using followsD(4) [OF assms(1)] assms(3,4) by simp
  then have eq: "daemonReads e s y = daemonDoes e (Message s (toStr (jvalue m ''type'')) m) (y\<lparr>ln_up := rest\<rparr>)"
    by (simp add: daemonReads_def)
  obtain zs where "a_sent (perform e (Message s (toStr (jvalue m ''type'')) m) (ln_agent y)) = a_sent (ln_agent y) @ zs"
    using perform_log [OF assms(2)] by blast
  then have "inbox s (daemonReads e s y) = inbox s y @ sentTo s zs"
    by (simp add: eq inbox_def daemonDoes_def sentTo_def del: perform.simps)
  then show "follows s f (Suc k) (daemonReads e s y)"
    by (rule follows_grown [OF assms(1)]) (simp_all add: eq daemonDoes_def assms(3) assms(4) [symmetric])
qed (use assms(3,4) followsD(4) [OF assms(1)] in \<open>simp_all add: daemonReads_def daemonDoes_def del: perform.simps\<close>)

section \<open>A run\<close>

text \<open>A passphrase request of client 4 is open when the program connects on socket 7, registers and
  subscribes; client 9 asks for a keyring password and gives up.\<close>

definition run_register :: jobject where
  "run_register = [(''type'', JStr ''ui.register''), (''name'', JStr ''bb-auth-fallback''), (''kind'', JStr ''fallback''),
     (''priority'', JInt 10)]"

definition run_subscribe :: jobject where
  "run_subscribe = [(''type'', JStr ''subscribe'')]"

definition run_events :: "happening list" where
  "run_events = [Message 4 ''pinentry_request'' example_pinentry_msg, Message 7 ''ui.register'' run_register,
     Message 7 ''subscribe'' run_subscribe, Message 7 ''subscribe'' run_subscribe,
     Message 9 ''keyring_request'' example_keyring_msg, Disconnect 9]"

definition run_agent :: "nat \<Rightarrow> agent" where
  "run_agent n = fold (perform still_env) (take n run_events) (initAgent [] [])"

definition run_registry :: provider_registry where
  "run_registry = \<lparr>uiProviders = [(7, \<lparr>p_id = ''uuid0'', p_name = ''bb-auth-fallback'', p_kind = ''fallback'',
     p_priority = 10, p_lastHeartbeatMs = 10000\<rparr>)], activeProvider = 7\<rparr>"

definition run_requestor :: "int \<Rightarrow> requestor" where
  "run_requestor pid = \<lparr>rq_name = [], rq_icon = [], rq_fallbackLetter = [], rq_fallbackKey = [], rq_pid = pid\<rparr>"

definition run_p1 :: session where
  "run_p1 = \<lparr>s_id = ''p1'', s_source = Pinentry,
     s_context = \<lparr>cx_message = ''Enter passphrase:'', cx_requestor = run_requestor 104, cx_actionId = [], cx_user = [],
       cx_details = [], cx_keyringName = [], cx_description = ''Unlock (1 of 3 attempts)'', cx_keyinfo = ''s/key'',
       cx_curRetry = 1, cx_maxRetries = 3, cx_confirmOnly = False, cx_repeat = False\<rparr>,
     s_state = Prompting, s_prompt = ''Enter passphrase:'', s_error = [], s_info = [], s_echo = False, s_result = None\<rparr>"

definition run_k1 :: session where
  "run_k1 = \<lparr>s_id = ''k1'', s_source = Keyring,
     s_context = \<lparr>cx_message = ''Unlock'', cx_requestor = run_requestor 109, cx_actionId = [], cx_user = [],
       cx_details = [], cx_keyringName = ''Login keyring'', cx_description = [], cx_keyinfo = [],
       cx_curRetry = 0, cx_maxRetries = 3, cx_confirmOnly = False, cx_repeat = False\<rparr>,
     s_state = Prompting, s_prompt = ''Login keyring'', s_error = [], s_info = [], s_echo = False, s_result = None\<rparr>"

text \<open>What the daemon sends the program.\<close>

definition run_mail :: "jobject list" where
  "run_mail =
     (let subscribed = [(''type'', JStr ''subscribed''), (''sessionCount'', JInt 1), (''active'', JBool True)];
          p1 = [toCreatedEvent run_p1, toUpdatedEvent run_p1, subscribed] in
      [[(''type'', JStr ''ui.registered''), (''id'', JStr ''uuid0''), (''active'', JBool True), (''priority'', JInt 10)],
       [(''type'', JStr ''ui.active''), (''active'', JBool True), (''id'', JStr ''uuid0''),
        (''name'', JStr ''bb-auth-fallback''), (''kind'', JStr ''fallback''), (''priority'', JInt 10)]] @ p1 @ p1
      @ [toCreatedEvent run_k1, toUpdatedEvent run_k1, toClosedEvent (closeWith Cancelled run_k1)])"

lemma run_mails:
  "sentTo 7 (a_sent (run_agent 3)) = take 5 run_mail" "sentTo 7 (a_sent (run_agent 4)) = take 8 run_mail"
  "sentTo 7 (a_sent (run_agent 5)) = take 10 run_mail" "sentTo 7 (a_sent (run_agent 6)) = run_mail"
  by code_simp+

definition run_client :: "nat \<Rightarrow> fb_client" where
  "run_client k = fold (\<lambda>j c. clientMessage j (c\<lparr>fc_signals := []\<rparr>)) (take k run_mail)
     (app_client (viaClient onConnected fallbackMain))"

lemma run_agent_Suc: "n < length run_events \<Longrightarrow> run_agent (Suc n) = perform still_env (run_events ! n) (run_agent n)"
  by (simp add: run_agent_def take_Suc_conv_app_nth)

lemma run_reachable: "reachable (run_agent n)"
proof (induction n)
  case 0
  then show ?case using reachable.start by (simp add: run_agent_def)
next
  case (Suc n)
  have "legal (run_events ! n)" if "n < 6"
    using that by (auto simp: run_events_def less_Suc_eq numeral_eq_Suc)
  moreover have "run_agent (Suc n) = run_agent n" if "\<not> n < 6"
    using that by (simp add: run_agent_def run_events_def)
  moreover have "run_agent (Suc n) = perform still_env (run_events ! n) (run_agent n)" if "n < 6"
    using that by (intro run_agent_Suc) (simp add: run_events_def)
  ultimately show ?case using Suc reachable.step perform_step by metis
qed

lemma run_registries:
  "a_registry (run_agent 1) = \<lparr>uiProviders = [], activeProvider = nullptr\<rparr>"
  "a_registry (run_agent 2) = run_registry" "a_registry (run_agent 3) = run_registry"
  "a_registry (run_agent 4) = run_registry" "a_registry (run_agent 5) = run_registry"
  by code_simp+

lemma run_steady: "a_registry a = run_registry \<or> uiProviders (a_registry a) = [] \<Longrightarrow> steady still_env 7 a"
  by (auto simp: steady_def run_registry_def alive_def still_env_def example_env_def
      PROVIDER_HEARTBEAT_TIMEOUT_MS_def)

lemma run_unused: "unusedUuid still_env 7 (run_agent 1)" "unusedUuid still_env 7 (run_agent 2)" "unusedUuid still_env 7 (run_agent 3)"
  by code_simp+

text \<open>Between the events the program reads all it was sent; at the third it subscribes again, because it has
  become the active provider.\<close>

definition staged :: "nat \<Rightarrow> nat \<Rightarrow> link \<Rightarrow> bool" where
  "staged n k y \<longleftrightarrow> link_reachable 7 y \<and> follows 7 fallbackMain k y \<and> ln_agent y = run_agent n"

lemma stagedD:
  assumes "staged n k y"
  shows "link_reachable 7 y" "follows 7 fallbackMain k y" "ln_agent y = run_agent n"
    "inbox 7 y = sentTo 7 (a_sent (run_agent n))"
  using assms by (simp_all add: staged_def inbox_def)

lemma staged_catchUp:
  assumes "staged n k y" shows "staged n k (catchUp 7 y)" "ln_read (catchUp 7 y) = length (inbox 7 (catchUp 7 y))"
  using assms follows_catchUp [of 7 fallbackMain k y] link_catchUp [of 7 y] followsD(1) [of 7 fallbackMain k y]
  by (auto simp: staged_def)

lemma staged_app:
  assumes "staged n j y" and "ln_read y = length (inbox 7 y)" and "sentTo 7 (a_sent (run_agent n)) = take k run_mail"
  shows "ln_app y = appReadsAll (take k run_mail) (viaClient onConnected fallbackMain)" "app_client (ln_app y) = run_client k"
proof -
  have "take (ln_read y) (inbox 7 y) = take k run_mail"
    using assms(2) stagedD(4) [OF assms(1)] by (simp only: assms(3) take_all_iff order_refl)
  then show "ln_app y = appReadsAll (take k run_mail) (viaClient onConnected fallbackMain)"
    using followsD(2) [OF stagedD(2) [OF assms(1)]] by simp
  then show "app_client (ln_app y) = run_client k" by (simp add: run_client_def appReadsAll_client)
qed

lemma run_mails_take:
  "sentTo 7 (a_sent (run_agent 6)) = take 11 run_mail"
  by (simp add: run_mails(4)) (simp add: run_mail_def Let_def)

lemma staged_daemonDoes:
  assumes "staged n k y" and "n < length run_events" and "steady still_env 7 (run_agent n)"
    and "elsewhere still_env 7 (run_agent n) (run_events ! n)"
  shows "staged (Suc n) k (daemonDoes still_env (run_events ! n) y)"
  using assms link_step.other [of still_env 7 y "run_events ! n"] follows_daemonDoes [of 7 fallbackMain k y]
  by (auto simp: staged_def run_agent_Suc run_reachable intro: link_reachable.step)

lemma staged_daemonReads:
  assumes "staged n k y" and "n < length run_events" and "steady still_env 7 (run_agent n)" and "unusedUuid still_env 7 (run_agent n)"
    and "newlySent fallbackMain (ln_app y) = xs @ m # rest" "length xs = k" "run_events ! n = Message 7 (toStr (jvalue m ''type'')) m"
  shows "staged (Suc n) (Suc k) (daemonReads still_env 7 y)" "ln_app (daemonReads still_env 7 y) = ln_app y"
  using assms link_daemonReads [of 7 y still_env] follows_daemonReads [of 7 fallbackMain k y xs m rest still_env]
  by (auto simp: staged_def run_agent_Suc run_reachable simp del: perform.simps)

definition run_link :: "nat \<Rightarrow> link" where
  "run_link n =
     (let cat = catchUp 7; reads = daemonReads still_env 7; does = (\<lambda>n. daemonDoes still_env (run_events ! n)) in
      fold (\<lambda>f. f) (take n [reads, reads, cat, reads, cat, does 4, cat, does 5, cat]) (connectLink (run_agent 1) fallbackMain))"

lemma run_sent:
  "newlySent fallbackMain (viaClient onConnected fallbackMain) = [run_register, run_subscribe]"
  "drop (length (fc_sent (app_client fallbackMain))) (fc_sent (run_client 5)) = [run_register, run_subscribe, run_subscribe]"
  "drop (length (fc_sent (app_client fallbackMain))) (fc_sent (run_client 11)) = [run_register, run_subscribe, run_subscribe]"
  by code_simp+

lemma run_start: "staged 1 0 (run_link 0)" "ln_app (run_link 0) = viaClient onConnected fallbackMain"
proof -
  have "unknownSocket 7 (run_agent 1)" by code_simp
  then have "link_reachable 7 (connectLink (run_agent 1) fallbackMain)"
    by (rule link_reachable.start [OF run_reachable _ app_reachable.start])
  then show "staged 1 0 (run_link 0)"
    using follows_start by (simp add: staged_def run_link_def) (simp add: connectLink_def appDoes_def)
qed (simp add: run_link_def connectLink_def appDoes_def)

lemma run_links:
  "staged 3 2 (run_link 2)" "staged 4 3 (run_link 5)" "staged 5 3 (run_link 7)" "staged 6 3 (run_link 9)"
  "ln_read (run_link 5) = length (inbox 7 (run_link 5))" "ln_read (run_link 7) = length (inbox 7 (run_link 7))"
  "ln_read (run_link 9) = length (inbox 7 (run_link 9))"
proof -
  have l: "run_link 1 = daemonReads still_env 7 (run_link 0)" "run_link 2 = daemonReads still_env 7 (run_link 1)"
    "run_link 3 = catchUp 7 (run_link 2)" "run_link 4 = daemonReads still_env 7 (run_link 3)" "run_link 5 = catchUp 7 (run_link 4)"
    "run_link 6 = daemonDoes still_env (run_events ! 4) (run_link 5)" "run_link 7 = catchUp 7 (run_link 6)"
    "run_link 8 = daemonDoes still_env (run_events ! 5) (run_link 7)" "run_link 9 = catchUp 7 (run_link 8)"
    by (simp_all add: run_link_def Let_def)
  have st: "steady still_env 7 (run_agent n)" if "n \<in> {1, 2, 3, 4, 5}" for n
    using that run_registries by (auto intro!: run_steady)
  have 1: "staged 2 1 (run_link 1)" "ln_app (run_link 1) = ln_app (run_link 0)"
    unfolding l(1) using staged_daemonReads [OF run_start(1) _ st run_unused(1), of "[]" run_register "[run_subscribe]"]
    by (simp_all add: run_start(2) run_sent run_events_def numeral_2_eq_2) (simp_all add: run_register_def)
  have 2: "staged 3 2 (run_link 2)" "ln_app (run_link 2) = ln_app (run_link 0)"
    unfolding l(2) using staged_daemonReads [OF 1(1) _ st run_unused(2), of "[run_register]" run_subscribe "[]"] 1(2)
    by (simp_all add: run_start(2) run_sent run_events_def numeral_eq_Suc) (simp_all add: run_subscribe_def)
  note 3 = staged_catchUp [OF 2(1), folded l(3)]
  have n3: "newlySent fallbackMain (ln_app (run_link 3)) = [run_register, run_subscribe, run_subscribe]"
    by (simp add: newlySent_def staged_app(2) [OF 3 run_mails(1)] run_sent)
  have 4: "staged 4 3 (run_link 4)"
    unfolding l(4) using staged_daemonReads(1) [OF 3(1) _ st run_unused(3), of "[run_register, run_subscribe]" run_subscribe "[]"] n3
    by (simp add: run_events_def numeral_eq_Suc) (simp add: run_subscribe_def)
  note 5 = staged_catchUp [OF 4, folded l(5)]
  have 6: "staged 5 3 (run_link 6)"
    unfolding l(6) using staged_daemonDoes [OF 5(1) _ st] by (simp add: run_events_def)
  note 7 = staged_catchUp [OF 6, folded l(7)]
  have 8: "staged 6 3 (run_link 8)"
    unfolding l(8) using staged_daemonDoes [OF 7(1) _ st] by (simp add: run_events_def)
  note 9 = staged_catchUp [OF 8, folded l(9)]
  show "staged 3 2 (run_link 2)" "staged 4 3 (run_link 5)" "staged 5 3 (run_link 7)" "staged 6 3 (run_link 9)"
    "ln_read (run_link 5) = length (inbox 7 (run_link 5))" "ln_read (run_link 7) = length (inbox 7 (run_link 7))"
    "ln_read (run_link 9) = length (inbox 7 (run_link 9))"
    using 2 5 7 9 by blast+
qed

lemma run_glimpse:
  assumes "staged n j y" and "ln_read y = length (inbox 7 y)" and "sentTo 7 (a_sent (run_agent n)) = take k run_mail"
  shows "glance (app_window (ln_app y))
    = fold glanceSignal (fc_signals (fold clientMessage (take k run_mail)
        ((app_client (viaClient onConnected fallbackMain))\<lparr>fc_signals := []\<rparr>))) ([], [], [], False)"
proof -
  let ?f = "viaClient onConnected fallbackMain"
  obtain xs where "fc_signals (fold clientMessage (take k run_mail) ((app_client ?f)\<lparr>fc_signals := []\<rparr>)) = xs"
    "glance (app_window (appReadsAll (take k run_mail) ?f)) = fold glanceSignal xs (glance (app_window ?f))"
    using appReadsAll_glance [of "(app_client ?f)\<lparr>fc_signals := []\<rparr>" ?f] by fastforce
  moreover have "glance (app_window ?f) = ([], [], [], False)" by code_simp
  ultimately show ?thesis using staged_app(1) [OF assms] by simp
qed

lemma run_screens:
  "glance (app_window (ln_app (run_link 5))) = (''p1'', ''pinentry'', [], True)"
  "glance (app_window (ln_app (run_link 7))) = (''k1'', ''keyring'', [], True)"
  "glance (app_window (ln_app (run_link 9))) = ([], [], [], False)"
  unfolding run_glimpse [OF run_links(2,5) run_mails(2)] run_glimpse [OF run_links(3,6) run_mails(3)]
    run_glimpse [OF run_links(4,7) run_mails_take]
  by code_simp+



section \<open>A request that a newer one replaced\<close>

text \<open>Reading sends nothing but registrations and subscriptions.\<close>

definition announces :: "jobject \<Rightarrow> bool" where
  "announces m \<longleftrightarrow> toStr (jvalue m ''type'') \<in> {''ui.register'', ''subscribe''}"

definition announcing :: "fb_client \<Rightarrow> fb_client \<Rightarrow> bool" where
  "announcing c d \<longleftrightarrow> (\<exists>ms. fc_sent d = fc_sent c @ ms \<and> list_all announces ms)"

lemma announcing_ops:
  shows "announcing c c" "announcing c (fcEmit x d) = announcing c d"
    "announcing c (d\<lparr>fc_registered := r, fc_providerId := i\<rparr>) = announcing c d"
    "announcing c (d\<lparr>fc_subscribed := r\<rparr>) = announcing c d"
    "announcing c (d\<lparr>fc_pendingKnown := r, fc_pendingActive := r', fc_pendingId := i\<rparr>) = announcing c d"
    "announcing c (clearPending d) = announcing c d"
    "announcing c (d\<lparr>fc_providerActive := b\<rparr>) = announcing c d"
  by (simp_all add: announcing_def fcEmit_def clearPending_def)

lemma announcing_active: "announcing c d \<Longrightarrow> announcing c (setProviderActive b d)"
proof -
  assume d: "announcing c d"
  have "announcing c (fcSubscribe b)" if "announcing c b" for b
    using that by (auto simp: announcing_def fcSubscribe_def fcSend_def announces_def)
  then show ?thesis using d by (simp add: setProviderActive_def Let_def announcing_ops)
qed

lemma announcing_message: "announcing c (clientMessage j c)"
  by (simp add: clientMessage_def onUiRegistered_def onUiActive_def applyPendingProviderState_def Let_def announcing_ops
      announcing_active)

lemma announces_reads: "list_all announces (newlySent f (appReadsAll js f))"
proof (induction js arbitrary: f)
  case (Cons j js)
  let ?g = "viaClient (clientMessage j) f"
  have "newlySent f (appReadsAll js ?g) = newlySent f ?g @ newlySent ?g (appReadsAll js ?g)"
    by (rule newlySent_trans [OF viaClient_extends [OF extends_message] appReadsAll_extends])
  moreover have "list_all announces (newlySent f ?g)"
    using announcing_message [of "(app_client f)\<lparr>fc_signals := []\<rparr>" j] by (auto simp: announcing_def newlySent_def viaClient_def Let_def)
  ultimately show ?case using Cons.IH [of ?g] by (simp add: appReadsAll_def)
qed (simp add: appReadsAll_def newlySent_def)

text \<open>Only a \<^verbatim>\<open>session.created\<close> puts a request on the screen.\<close>

definition blank :: "fb_window \<Rightarrow> bool" where
  "blank w \<longleftrightarrow> fw_session w = [] \<and> \<not> fw_visible w"

lemma blank_signals:
  "list_all (\<lambda>x. \<forall>ev. x \<noteq> SessionCreated ev) xs \<Longrightarrow> blank w \<Longrightarrow> blank (fold onSignal xs w)"
proof (induction xs arbitrary: w)
  case (Cons x xs)
  have "blank (onSignal x w)"
    using Cons.prems glance_signal [of x w] by (cases x) (auto simp: blank_def glance_def Let_def split: if_splits)
  then show ?case using Cons by simp
qed simp

lemma creates_only:
  assumes "toStr (jvalue j ''type'') \<noteq> ''session.created''" and "fc_signals c = []"
  shows "list_all (\<lambda>x. \<forall>ev. x \<noteq> SessionCreated ev) (fc_signals (clientMessage j c))"
  using assms
  by (auto simp: clientMessage_def onUiRegistered_def onUiActive_def applyPendingProviderState_def Let_def setActive_effect fcEmit_def)

lemma blank_reads:
  "list_all (\<lambda>j. toStr (jvalue j ''type'') \<noteq> ''session.created'') js \<Longrightarrow> blank (app_window f) \<Longrightarrow> blank (app_window (appReadsAll js f))"
proof (induction js arbitrary: f)
  case (Cons j js)
  have "blank (app_window (viaClient (clientMessage j) f))"
    using Cons.prems by (auto simp: viaClient_def Let_def intro!: blank_signals creates_only)
  then show ?case using Cons by (simp add: appReadsAll_def)
qed (simp add: appReadsAll_def)

lemma updates_pass:
  assumes "fc_providerActive (app_client f)"
  shows "fc_providerActive (app_client (appReadsAll (map toUpdatedEvent ys) f))
    \<and> glance (app_window (appReadsAll (map toUpdatedEvent ys) f)) = glance (app_window f)"
  using assms
proof (induction ys arbitrary: f)
  case (Cons y ys)
  have "clientMessage (toUpdatedEvent y) c = fcEmit (SessionUpdated (toUpdatedEvent y)) c" if "fc_providerActive c" for c
    using that by (simp add: clientMessage_def)
  then have "fc_providerActive (app_client (viaClient (clientMessage (toUpdatedEvent y)) f))"
    "glance (app_window (viaClient (clientMessage (toUpdatedEvent y)) f)) = glance (app_window f)"
    using Cons.prems glance_signal [of "SessionUpdated (toUpdatedEvent y)" "app_window f"]
    by (simp_all add: viaClient_def Let_def)
  then show ?case using Cons.IH by (simp add: appReadsAll_def)
qed (simp add: appReadsAll_def)

text \<open>C26: a second request takes the place of the one on the screen, which is neither queued nor answered: when the
  second, possibly updated, ends cancelled, the window hides, and nothing the daemon sends short of a
  new \<^verbatim>\<open>session.created\<close> brings the first one back; the program sends no answer and no
  cancellation for it.\<close>

theorem newer_request_displaces:
  assumes "fc_providerActive (app_client f)" and "s_id x \<noteq> []" and "s_id z = s_id x" and "s_result z = Some Cancelled"
    and "list_all (\<lambda>j. toStr (jvalue j ''type'') \<noteq> ''session.created'') js"
    and "g = appReadsAll (toCreatedEvent x # map toUpdatedEvent ys) f"
    and "h = appReadsAll (toCreatedEvent x # map toUpdatedEvent ys @ toClosedEvent z # js) f"
  shows "fw_session (app_window g) = s_id x \<and> fw_session (app_window h) = [] \<and> \<not> fw_visible (app_window h)
    \<and> list_all announces (newlySent f h)"
proof -
  let ?g = "viaClient (clientMessage (toCreatedEvent x)) f"
  let ?h = "viaClient (clientMessage (toClosedEvent z)) g"
  have c: "clientMessage (toCreatedEvent x) c = fcEmit (SessionCreated (toCreatedEvent x)) c"
    "clientMessage (toClosedEvent z) c = fcEmit (SessionClosed (toClosedEvent z)) c" if "fc_providerActive c" for c
    using that by (simp_all add: clientMessage_def)
  have g0: "g = appReadsAll (map toUpdatedEvent ys) ?g" "h = appReadsAll js ?h"
    by (simp_all add: assms(6,7) appReadsAll_def)
  have "app_client ?g = fcEmit (SessionCreated (toCreatedEvent x)) ((app_client f)\<lparr>fc_signals := []\<rparr>)"
    "app_window ?g = onSignal (SessionCreated (toCreatedEvent x)) (app_window f)"
    using assms(1) by (simp_all add: viaClient_def Let_def c)
  then have g: "fc_providerActive (app_client g)" "fw_session (app_window g) = s_id x"
    using updates_pass [of ?g ys] glance_signal [of "SessionCreated (toCreatedEvent x)" "app_window f"] assms(1,2)
    unfolding g0(1) by (simp_all add: fcEmit_def glance_def)
  then have "app_window ?h = onSignal (SessionClosed (toClosedEvent z)) (app_window g)"
    by (simp add: viaClient_def Let_def c)
  moreover have "toStr (jvalue (toClosedEvent z) ''result'') = ''cancelled''"
    using assms(4) by (simp add: toClosedEvent_def addStr_def Let_def)
  ultimately have "blank (app_window ?h)"
    using glance_signal [of "SessionClosed (toClosedEvent z)" "app_window g"] g(2) assms(2,3)
    by (simp add: blank_def glance_def)
  then have "blank (app_window h)" unfolding g0(2) by (rule blank_reads [OF assms(5)])
  moreover have "list_all announces (newlySent f h)" unfolding assms(7) by (rule announces_reads)
  ultimately show ?thesis using g(2) by (simp add: blank_def)
qed

theorem newer_request_displaces_witness:
  "fw_session (app_window (ln_app (run_link 5))) = ''p1'' \<and> fw_session (app_window (ln_app (run_link 9))) = []
   \<and> \<not> fw_visible (app_window (ln_app (run_link 9))) \<and> ln_read (run_link 9) = length (inbox 7 (run_link 9))
   \<and> ln_up (run_link 9) = [] \<and> sourceOf (a_store (ln_agent (run_link 9))) ''p1'' = Some ''pinentry''"
proof -
  let ?x = run_k1 and ?z = "closeWith Cancelled run_k1" and ?f = "ln_app (run_link 5)"
  have mail: "take 11 run_mail = take 8 run_mail @ toCreatedEvent ?x # map toUpdatedEvent [?x] @ toClosedEvent ?z # []"
    by (simp add: run_mail_def Let_def)
  have h: "ln_app (run_link 9) = appReadsAll (toCreatedEvent ?x # map toUpdatedEvent [?x] @ toClosedEvent ?z # []) ?f"
    unfolding staged_app(1) [OF run_links(2,5) run_mails(2)] staged_app(1) [OF run_links(4,7) run_mails_take] mail
    by (simp add: appReadsAll_def)
  have "fc_providerActive (run_client 8)" by code_simp
  then have act: "fc_providerActive (app_client ?f)" by (simp only: staged_app(2) [OF run_links(2,5) run_mails(2)])
  have x: "s_id ?x \<noteq> []" "s_id ?z = s_id ?x" "s_result ?z = Some Cancelled" by code_simp+
  have up: "ln_up (run_link 9) = []"
    unfolding followsD(4) [OF stagedD(2) [OF run_links(4)]] newlySent_def staged_app(2) [OF run_links(4,7) run_mails_take] run_sent by simp
  have "sourceOf (a_store (run_agent 6)) ''p1'' = Some ''pinentry''" by code_simp
  then have live: "sourceOf (a_store (ln_agent (run_link 9))) ''p1'' = Some ''pinentry''"
    by (simp only: stagedD(3) [OF run_links(4)])
  have shown: "fw_session (app_window ?f) = ''p1''" using run_screens(1) by (simp add: glance_def)
  have "list_all (\<lambda>j. toStr (jvalue j ''type'') \<noteq> ''session.created'') []" by simp
  from newer_request_displaces [OF act x this refl h] show ?thesis
    using up live shown run_links(7) by blast
qed

section \<open>A provider the daemon has dropped\<close>

text \<open>One tick of the heartbeat timer (or else of the watchdog), handled by the daemon and its answer read.\<close>

definition keepAlive :: "env \<Rightarrow> socket \<Rightarrow> bool \<Rightarrow> link \<Rightarrow> link" where
  "keepAlive e s beat y =
     catchUp s (daemonReads e s (appDoes (viaClient (if beat then onHeartbeatTimer else onWatchdog) (ln_app y)) y))"

definition forgotten :: "socket \<Rightarrow> link \<Rightarrow> bool" where
  "forgotten s y \<longleftrightarrow> ln_up y = [] \<and> ln_read y = length (inbox s y) \<and> \<not> registryContains s (a_registry (ln_agent y))
     \<and> isConnected (app_client (ln_app y)) \<and> fc_registered (app_client (ln_app y)) \<and> fc_subscribed (app_client (ln_app y))"

lemma unregistered_heartbeat:
  assumes "\<not> registryContains s (a_registry a)" and "s \<noteq> nullptr" and "e_connected e s"
  shows "perform e (Message s ''ui.heartbeat'' m) a = a\<lparr>a_sent := a_sent a @ [(s, notRegistered, False)]\<rparr>"
  using assms by (simp add: handleMessage_eq handleUIHeartbeat_def sendJson_def)

lemma reads_notRegistered:
  "clientMessage notRegistered c = fcEmit (StatusMessage ''Provider not registered'') c"
  by (simp add: notRegistered_def clientMessage_def)

lemma forgotten_round:
  assumes "forgotten s y" and "s \<noteq> nullptr" and "e_connected e s"
  shows "forgotten s (keepAlive e s b y)" "a_registry (ln_agent (keepAlive e s b y)) = a_registry (ln_agent y)"
    "a_sent (ln_agent (keepAlive e s b y)) = a_sent (ln_agent y) @ (if b then [(s, notRegistered, False)] else [])"
proof -
  note y = assms(1) [unfolded forgotten_def]
  let ?c = "(app_client (ln_app y))\<lparr>fc_signals := []\<rparr>"
  have c: "isConnected ?c" using y by (simp add: isConnected_def)
  have "forgotten s (keepAlive e s b y) \<and> a_registry (ln_agent (keepAlive e s b y)) = a_registry (ln_agent y)
    \<and> a_sent (ln_agent (keepAlive e s b y)) = a_sent (ln_agent y) @ (if b then [(s, notRegistered, False)] else [])"
  proof (cases b)
    case False
    have "keepAlive e s b y = y\<lparr>ln_app := viaClient onWatchdog (ln_app y)\<rparr>"
      using y c False
      by (simp add: keepAlive_def viaClient_def Let_def onWatchdog_def appDoes_def newlySent_def daemonReads_def catchUp_def
          appReadsAll_def inbox_def)
    then show ?thesis
      using y c False by (simp add: forgotten_def inbox_def viaClient_def Let_def onWatchdog_def)
  next
    case True
    let ?m = "[(''type'', JStr ''ui.heartbeat''), (''id'', JStr (fc_providerId ?c))] :: jobject"
    let ?g = "viaClient onHeartbeatTimer (ln_app y)"
    let ?a = "(ln_agent y)\<lparr>a_sent := a_sent (ln_agent y) @ [(s, notRegistered, False)]\<rparr>"
    have g: "app_client ?g = ?c\<lparr>fc_sent := fc_sent ?c @ [?m]\<rparr>"
      using y c by (simp add: viaClient_def Let_def onHeartbeatTimer_def fcSend_def)
    have "appDoes ?g y = y\<lparr>ln_app := ?g, ln_up := [?m]\<rparr>" using y by (simp add: appDoes_def newlySent_def g)
    then have d: "daemonReads e s (appDoes ?g y) = y\<lparr>ln_agent := ?a, ln_app := ?g, ln_up := []\<rparr>"
      using unregistered_heartbeat [OF _ assms(2,3)] y by (simp add: daemonReads_def daemonDoes_def del: perform.simps)
    let ?h = "viaClient (clientMessage notRegistered) ?g"
    have in1: "inbox s (y\<lparr>ln_agent := ?a, ln_app := ?g, ln_up := []\<rparr>) = inbox s y @ [notRegistered]"
      by (simp add: inbox_def sentTo_def)
    have h: "app_client ?h = fcEmit (StatusMessage ''Provider not registered'') (?c\<lparr>fc_sent := fc_sent ?c @ [?m]\<rparr>)"
      by (simp add: viaClient_def [of "clientMessage notRegistered"] Let_def reads_notRegistered g)
    have "keepAlive e s b y = y\<lparr>ln_agent := ?a, ln_app := ?h, ln_read := Suc (ln_read y), ln_up := []\<rparr>"
      using y True by (simp add: keepAlive_def d catchUp_def in1) (simp add: appDoes_def appReadsAll_def newlySent_def h g fcEmit_def)
    then show ?thesis
      using y c True by (simp add: forgotten_def h) (simp add: inbox_def sentTo_def isConnected_def fcEmit_def)
  qed
  then show "forgotten s (keepAlive e s b y)" "a_registry (ln_agent (keepAlive e s b y)) = a_registry (ln_agent y)"
    "a_sent (ln_agent (keepAlive e s b y)) = a_sent (ln_agent y) @ (if b then [(s, notRegistered, False)] else [])"
    by blast+
qed

text \<open>C27: a client the daemon has dropped for a missed heartbeat stays dropped while the connection
  lasts: every later heartbeat is answered with an error the client only displays, its watchdog
  sends no new registration because the client still thinks it is registered, and the registry stays
  as it was, so that, when it is empty, anybody may answer.\<close>

theorem dropped_provider_stays_dropped:
  assumes "forgotten s y" and "s \<noteq> nullptr" and "e_connected e s" and "z = fold (keepAlive e s) bs y"
  shows "a_registry (ln_agent z) = a_registry (ln_agent y)
    \<and> a_sent (ln_agent z) = a_sent (ln_agent y) @ replicate (count_list bs True) (s, notRegistered, False)
    \<and> fc_registered (app_client (ln_app z)) \<and> \<not> registryContains s (a_registry (ln_agent z)) \<and> ln_up z = []
    \<and> (uiProviders (a_registry (ln_agent y)) = [] \<longrightarrow> isAuthorized t (a_registry (ln_agent z)))"
proof -
  have "forgotten s (fold (keepAlive e s) bs y) \<and> a_registry (ln_agent (fold (keepAlive e s) bs y)) = a_registry (ln_agent y)
    \<and> a_sent (ln_agent (fold (keepAlive e s) bs y))
      = a_sent (ln_agent y) @ replicate (count_list bs True) (s, notRegistered, False)"
    using assms(1)
  proof (induction bs arbitrary: y)
    case (Cons b bs)
    then show ?case using forgotten_round [OF Cons.prems assms(2,3), of b] Cons.IH [of "keepAlive e s b y"] by simp
  qed simp
  then have "forgotten s z" "a_registry (ln_agent z) = a_registry (ln_agent y)"
    "a_sent (ln_agent z) = a_sent (ln_agent y) @ replicate (count_list bs True) (s, notRegistered, False)"
    by (simp_all add: assms(4))
  then show ?thesis unfolding forgotten_def by (simp add: isAuthorized_def)
qed

text \<open>After the run the machine is suspended for half a minute and the daemon's maintenance timer fires first.\<close>

definition late_env :: env where
  "late_env = still_env\<lparr>e_clock := (\<lambda>_. 40000)\<rparr>"

definition dropped_link :: link where
  "dropped_link = catchUp 7 (daemonDoes late_env Maintenance (run_link 9))"

lemma dropped_forgotten:
  "link_reachable 7 dropped_link" "forgotten 7 dropped_link" "uiProviders (a_registry (ln_agent dropped_link)) = []"
proof -
  let ?b = "perform late_env Maintenance (run_agent 6)" and ?y = "daemonDoes late_env Maintenance (run_link 9)"
  let ?off = "[(''type'', JStr ''ui.active''), (''active'', JBool False)] :: jobject"
  note 9 = stagedD [OF run_links(4)]
  have "7 \<in> set (a_subscribers (run_agent 6))" by code_simp
  then have "steady late_env 7 (run_agent 6)"
    by (simp add: steady_def late_env_def still_env_def example_env_def PROVIDER_HEARTBEAT_TIMEOUT_MS_def)
  then have r: "link_reachable 7 ?y"
    using 9(1,3) by (intro link_reachable.step [OF 9(1)] link_step.other) simp_all
  have f: "follows 7 fallbackMain 3 ?y" "ln_agent ?y = ?b"
    using follows_daemonDoes(1,2) [OF 9(2), of late_env Maintenance] 9(3) run_reachable by simp_all
  show "link_reachable 7 dropped_link" unfolding dropped_link_def by (rule link_catchUp [OF r followsD(1) [OF f(1)]])
  have d: "follows 7 fallbackMain 3 dropped_link" "ln_agent dropped_link = ?b"
    "ln_read dropped_link = length (inbox 7 dropped_link)"
    using follows_catchUp [OF f(1)] f(2) by (simp_all add: dropped_link_def)
  have b: "registryContains 7 (a_registry ?b) = False" "uiProviders (a_registry ?b) = []" "sentTo 7 (a_sent ?b) = run_mail @ [?off]"
    by code_simp+
  then show "uiProviders (a_registry (ln_agent dropped_link)) = []" by (simp only: d(2))
  have app: "ln_app dropped_link = appReadsAll (run_mail @ [?off]) (viaClient onConnected fallbackMain)"
    using followsD(2) [OF d(1)] d(3) b(3) by (simp add: inbox_def d(2))
  let ?c = "fold (\<lambda>j c. clientMessage j (c\<lparr>fc_signals := []\<rparr>)) (run_mail @ [?off]) (app_client (viaClient onConnected fallbackMain))"
  have c: "app_client (ln_app dropped_link) = ?c" by (simp only: app appReadsAll_client)
  have "isConnected ?c" "fc_registered ?c" "fc_subscribed ?c" by code_simp+
  moreover have "drop 3 (drop (length (fc_sent (app_client fallbackMain))) (fc_sent ?c)) = []" by code_simp
  then have "ln_up dropped_link = []" unfolding followsD(4) [OF d(1)] newlySent_def c .
  ultimately show "forgotten 7 dropped_link"
    using d(3) b(1) unfolding forgotten_def c d(2) by blast
qed

theorem dropped_provider_stays_dropped_witness:
  "a_sent (ln_agent (fold (keepAlive late_env 7) [False, True, True] dropped_link))
     = a_sent (ln_agent dropped_link) @ [(7, notRegistered, False), (7, notRegistered, False)]
   \<and> isAuthorized 5 (a_registry (ln_agent (fold (keepAlive late_env 7) [False, True, True] dropped_link)))"
proof -
  have e: "(7 :: socket) \<noteq> nullptr" "e_connected late_env 7" by (simp_all add: late_env_def still_env_def example_env_def)
  have "replicate (count_list [False, True, True] True) x = [x, x]" for x :: "socket \<times> jobject \<times> bool"
    by (simp add: numeral_2_eq_2)
  then show ?thesis
    using dropped_provider_stays_dropped [OF dropped_forgotten(2) e refl, of "[False, True, True]" 5] dropped_forgotten(3)
    by (simp add: isAuthorized_def)
qed

end
