(* ===== verification/Live_Answer.thy ===== *)
theory Live_Answer
  imports Link_Limits Agent_Properties
begin

text \<open>
  The answer to the request on the screen, over the connection of \<open>Live_Screen\<close>: what the daemon does with
  it, for each kind of request (\<^verbatim>\<open>src/fallback/FallbackWindow.cpp\<close>, \<^verbatim>\<open>FallbackClient.cpp\<close>,
  \<^verbatim>\<open>src/core/Agent.cpp\<close>).
\<close>

lemma submit_sends:
  assumes "fw_session (app_window f) = c" and "c \<noteq> []" and "fw_submitEnabled (app_window f)"
    and "\<not> fw_confirmOnly (app_window f)" and "fw_input (app_window f) = pw" and "pw \<noteq> []" and "isConnected (app_client f)"
  shows "fc_sent (app_client (viaWindow InSubmit f)) = fc_sent (app_client f) @ [respondMsg c pw]
    \<and> fw_input (app_window (viaWindow InSubmit f)) = []"
  using assms
  by (simp add: viaWindow_def performInput_def clickSubmit_def submitClicked_def small_defs perform_sent)

lemma respondMsg_fields:
  "toStr (jvalue (respondMsg c pw) ''type'') = ''session.respond''" "toStr (jvalue (respondMsg c pw) ''id'') = c"
  "toStr (jvalue (respondMsg c pw) ''response'') = pw"
  by (simp_all add: respondMsg_def)

lemma respond_pinentry_sends:
  assumes "isAuthorized provider (a_registry a)" and "\<not> keyringHasPending c a"
    and "hash_find (pm_pending (a_pinentry a)) c = Some rq" and "pr_socket rq = orig" and "orig \<noteq> nullptr" and "e_connected env orig"
  shows "(orig, pinentryReply rq c pw, True) \<in> set (a_sent (handleMessage env provider ''session.respond'' (respondMsg c pw) a))"
    and "isAwaitingOutcome c (handleMessage env provider ''session.respond'' (respondMsg c pw) a)"
proof -
  note eff = response_effect [OF assms(3), of env pw]
  have p: "hasPendingInput c a" "pinentrySocket c a = orig"
    using assms(3,4) by (simp_all add: hasPendingInput_def hash_has_def pinentrySocket_def)
  have t: "toStr (jvalue (pinentryReply rq c pw) ''type'') = ''pinentry_response''" by (simp add: pinentryReply_def)
  have b: "handleMessage env provider ''session.respond'' (respondMsg c pw) a = sendJson env provider okMsg False
      (sendJson env orig (pinentryReply rq c pw) True (snd (pinentryHandleResponse env c pw a)))"
    using assms(1,2,5) p t eff
    by (simp add: respond_dispatch handleRespond_def Let_def case_prod_beta respondMsg_fields)
  show "(orig, pinentryReply rq c pw, True) \<in> set (a_sent (handleMessage env provider ''session.respond'' (respondMsg c pw) a))"
    unfolding b by (intro sent_kept sent_new assms)
  show "isAwaitingOutcome c (handleMessage env provider ''session.respond'' (respondMsg c pw) a)"
    using eff by (simp add: b isAwaitingOutcome_def)
qed

text \<open>The user submits and the daemon reads it.\<close>

definition submits :: "env \<Rightarrow> socket \<Rightarrow> link \<Rightarrow> link" where
  "submits e s y = daemonReads e s (appDoes (viaWindow InSubmit (ln_app y)) y)"

lemma submits_effect:
  assumes "fw_session (app_window (ln_app y)) = c" "c \<noteq> []" "fw_submitEnabled (app_window (ln_app y))"
    and "\<not> fw_confirmOnly (app_window (ln_app y))" "fw_input (app_window (ln_app y)) = pw" "pw \<noteq> []"
    and "isConnected (app_client (ln_app y))" and "ln_up y = []"
  shows "ln_agent (submits e s y) = handleMessage e s ''session.respond'' (respondMsg c pw) (ln_agent y)"
    "ln_up (submits e s y) = []" "fw_input (app_window (ln_app (submits e s y))) = []"
    "link_reachable s y \<Longrightarrow> steady e s (ln_agent y) \<Longrightarrow> link_reachable s (submits e s y)"
proof -
  let ?g = "viaWindow InSubmit (ln_app y)"
  let ?y = "appDoes ?g y"
  have n: "newlySent (ln_app y) ?g = [respondMsg c pw]" and i: "fw_input (app_window ?g) = []"
    using submit_sends [OF assms(1-7)] by (simp_all add: newlySent_def)
  have y: "?y = y\<lparr>ln_app := ?g, ln_up := [respondMsg c pw]\<rparr>" using assms(8) n by (simp add: appDoes_def)
  have z: "submits e s y = daemonDoes e (Message s ''session.respond'' (respondMsg c pw)) (?y\<lparr>ln_up := []\<rparr>)"
    by (simp add: submits_def y daemonReads_def respondMsg_fields)
  then show "ln_agent (submits e s y) = handleMessage e s ''session.respond'' (respondMsg c pw) (ln_agent y)"
    "ln_up (submits e s y) = []" "fw_input (app_window (ln_app (submits e s y))) = []"
    using i by (simp_all add: y daemonDoes_def)
  assume r: "link_reachable s y" and st: "steady e s (ln_agent y)"
  from r have "link_reachable s ?y" by (rule link_reachable.step) (rule link_step.window)
  moreover have "link_step s ?y (submits e s y)"
    using link_step.request [of ?y "respondMsg c pw" "[]" e s] st unfolding z y by (simp add: respondMsg_fields)
  ultimately show "link_reachable s (submits e s y)" by (rule link_reachable.step)
qed

lemma sourceOf_session: "sourceOf (a_store a) c = Some (sourceToString src) \<Longrightarrow> sessionSource a c = Some src"
  by (auto simp: sourceOf_def sessionSource_def storeGet_def elim: sourceToString.elims)

text \<open>C4: the answer to what is on the screen arrives.  Whatever has happened before, when the program has
  read its mail, shows a request that is not just ending, and the user submits a text, the daemon
  never refuses it for want of authority: if a keyring request is waiting for it, the client that
  asked is sent the text, the message wiped afterwards, and the request ends; if a pinentry request is
  waiting, its process is sent the text and the daemon waits for the verdict; a polkit request that no
  pinentry client has taken over has its text handed to the polkit session of the moment.\<close>

theorem shown_request_answered:
  assumes link: "link_reachable s y" "ln_read y = length (inbox s y)" "ln_up y = []" "steady e s (ln_agent y)"
    and window: "w = app_window (ln_app y)" "fw_session w = c" "c \<noteq> []" "CloseAny \<notin> set (fw_closers w)"
      "CloseIf c \<notin> set (fw_closers w)" "fw_submitEnabled w" "\<not> fw_confirmOnly w" "fw_input w = pw" "pw \<noteq> []"
      "isConnected (app_client (ln_app y))"
    and after: "a = ln_agent y" "b = ln_agent (submits e s y)"
  shows "link_reachable s (submits e s y)
    \<and> (keyringHasPending c a \<and> keyringSocket c a = orig \<and> orig \<noteq> nullptr \<and> e_connected e orig \<longrightarrow>
         (orig, keyringReplyOk c pw, True) \<in> set (a_sent b) \<and> \<not> keyringHasPending c b
         \<and> sessionSource b = (sessionSource a)(c := None))
    \<and> (\<not> keyringHasPending c a \<and> hash_find (pm_pending (a_pinentry a)) c = Some rq \<and> pr_socket rq \<noteq> nullptr
         \<and> e_connected e (pr_socket rq) \<longrightarrow>
         (pr_socket rq, pinentryReply rq c pw, True) \<in> set (a_sent b) \<and> isAwaitingOutcome c b)
    \<and> (fw_source w = ''polkit'' \<and> \<not> hash_has (pm_flowOwners (a_pinentry a)) c \<longrightarrow>
         (\<exists>st. findState c a = Some st \<and> b = sendJson e s okMsg False (pkCall (PkResponse (pk_session st) pw) a)))"
proof -
  have shown: "sourceOf (a_store a) c = Some (fw_source w)" "isAuthorized s (a_registry a)"
    using link_screen [OF link(1,2) window(1)] window(2-5) after(1) by simp_all
  note eff = submits_effect [OF window(2) [unfolded window(1)] window(3) window(6-8) [unfolded window(1)] window(9,10) link(3)]
  have b: "b = handleMessage e s ''session.respond'' (respondMsg c pw) a" by (simp add: after eff(1))
  have ok: "agent_ok a"
    using link_ok_reachable [OF link(1)] reachable_ok after(1) by (auto simp: link_ok_def agent_part_def)
  have "keyringHasPending c a \<Longrightarrow> keyringSocket c a = orig \<Longrightarrow> orig \<noteq> nullptr \<Longrightarrow> e_connected e orig \<Longrightarrow>
      (orig, keyringReplyOk c pw, True) \<in> set (a_sent b) \<and> \<not> keyringHasPending c b \<and> sessionSource b = (sessionSource a)(c := None)"
    using respond_keyring [OF shown(2) respondMsg_fields(2) _ _ _ _ b] by (simp add: respondMsg_fields)
  moreover have "\<not> keyringHasPending c a \<Longrightarrow> hash_find (pm_pending (a_pinentry a)) c = Some rq \<Longrightarrow> pr_socket rq \<noteq> nullptr \<Longrightarrow>
      e_connected e (pr_socket rq) \<Longrightarrow> (pr_socket rq, pinentryReply rq c pw, True) \<in> set (a_sent b) \<and> isAwaitingOutcome c b"
    using respond_pinentry_sends [OF shown(2) _ _ refl] unfolding b by blast
  moreover have "\<exists>st. findState c a = Some st \<and> b = sendJson e s okMsg False (pkCall (PkResponse (pk_session st) pw) a)"
    if "fw_source w = ''polkit''" "\<not> hash_has (pm_flowOwners (a_pinentry a)) c"
  proof -
    have "sessionSource a c = Some Polkit" using shown(1) that(1) by (intro sourceOf_session) simp
    then show ?thesis
      using respond_polkit_effect [OF ok shown(2) respondMsg_fields(2) _ that(2)] by (simp add: b respondMsg_fields)
  qed
  ultimately show ?thesis using eff(4) [OF link(1,4)] by blast
qed

section \<open>The run goes on\<close>

text \<open>The window takes text and can be submitted.\<close>

definition accepting :: "fb_window \<Rightarrow> bool" where
  "accepting w \<longleftrightarrow> fw_submitEnabled w \<and> fw_inputEnabled w \<and> fw_visible w \<and> \<not> fw_confirmOnly w"

lemma accepting_created:
  "toStr (jvalue ev ''id'') \<noteq> [] \<Longrightarrow> \<not> toBool (jvalue (toObject (jvalue ev ''context'')) ''confirmOnly'') \<Longrightarrow>
   accepting (onSignal (SessionCreated ev) w)"
  by (simp add: accepting_def onSignal_def onSessionCreated_def small_defs)

lemma accepting_updated: "accepting w \<Longrightarrow> accepting (onSignal (SessionUpdated ev) w)"
  by (simp add: accepting_def onSignal_def onSessionUpdated_def updateStatus_def small_defs)

lemma run_ready: "accepting (app_window (ln_app (run_link 7)))"
proof -
  let ?f = "ln_app (run_link 5)"
  let ?g = "viaClient (clientMessage (toCreatedEvent run_k1)) ?f"
  have "fc_providerActive (run_client 8)" by code_simp
  then have act: "fc_providerActive (app_client ?f)" by (simp only: staged_app(2) [OF run_links(2,5) run_mails(2)])
  have "take 10 run_mail = take 8 run_mail @ [toCreatedEvent run_k1, toUpdatedEvent run_k1]"
    by (simp add: run_mail_def Let_def)
  then have "ln_app (run_link 7) = viaClient (clientMessage (toUpdatedEvent run_k1)) ?g"
    unfolding staged_app(1) [OF run_links(2,5) run_mails(2)] staged_app(1) [OF run_links(3,6) run_mails(3)]
    by (simp add: appReadsAll_def)
  moreover have c: "clientMessage (toCreatedEvent x) c = fcEmit (SessionCreated (toCreatedEvent x)) c"
    "clientMessage (toUpdatedEvent x) c = fcEmit (SessionUpdated (toUpdatedEvent x)) c" if "fc_providerActive c" for c x
    using that by (simp_all add: clientMessage_def)
  moreover have g: "app_client ?g = fcEmit (SessionCreated (toCreatedEvent run_k1)) ((app_client ?f)\<lparr>fc_signals := []\<rparr>)"
    "app_window ?g = onSignal (SessionCreated (toCreatedEvent run_k1)) (app_window ?f)"
    using act by (simp_all add: viaClient_def Let_def c(1))
  ultimately have "app_window (ln_app (run_link 7))
      = onSignal (SessionUpdated (toUpdatedEvent run_k1)) (onSignal (SessionCreated (toCreatedEvent run_k1)) (app_window ?f))"
    using act by (simp add: viaClient_def [of _ ?g] Let_def c(2) g fcEmit_def)
  moreover have "toStr (jvalue (toCreatedEvent run_k1) ''id'') \<noteq> []"
    "\<not> toBool (jvalue (toObject (jvalue (toCreatedEvent run_k1) ''context'')) ''confirmOnly'')" by code_simp+
  ultimately show ?thesis by (simp add: accepting_created accepting_updated)
qed

definition run_typed :: link where
  "run_typed = appDoes (viaWindow (InType ''pw'') (ln_app (run_link 7))) (run_link 7)"

lemma run_typed_facts:
  "link_reachable 7 run_typed" "ln_agent run_typed = run_agent 5" "ln_read run_typed = length (inbox 7 run_typed)"
  "ln_up run_typed = []" "app_client (ln_app run_typed) = (app_client (ln_app (run_link 7)))"
  "glance (app_window (ln_app run_typed)) = (''k1'', ''keyring'', [], True)"
  "accepting (app_window (ln_app run_typed))" "fw_input (app_window (ln_app run_typed)) = ''pw''"
proof -
  note 7 = stagedD [OF run_links(3)]
  have v: "viaWindow (InType ''pw'') f = f\<lparr>app_window := (app_window f)\<lparr>fw_requests := [], fw_input := ''pw''\<rparr>\<rparr>"
    if "accepting (app_window f)" for f
    using that by (simp add: viaWindow_def performInput_def typeText_def accepting_def Let_def)
  have y: "ln_app run_typed = viaWindow (InType ''pw'') (ln_app (run_link 7))" "ln_agent run_typed = ln_agent (run_link 7)"
    "ln_read run_typed = ln_read (run_link 7)" "ln_up run_typed = ln_up (run_link 7)"
    by (simp_all add: run_typed_def appDoes_def newlySent_def v [OF run_ready])
  show "link_reachable 7 run_typed" unfolding run_typed_def by (rule link_reachable.step [OF 7(1) link_step.window])
  show "ln_agent run_typed = run_agent 5" using y(2) 7(3) by simp
  show "ln_read run_typed = length (inbox 7 run_typed)" using run_links(6) y(2,3) by (simp add: inbox_def)
  show "ln_up run_typed = []"
    unfolding y(4) followsD(4) [OF 7(2)] newlySent_def staged_app(2) [OF run_links(3,6) run_mails(3)] by code_simp
  show "app_client (ln_app run_typed) = app_client (ln_app (run_link 7))"
    "glance (app_window (ln_app run_typed)) = (''k1'', ''keyring'', [], True)"
    "accepting (app_window (ln_app run_typed))" "fw_input (app_window (ln_app run_typed)) = ''pw''"
    using run_screens(2) run_ready by (simp_all add: y(1) v [OF run_ready] glance_def accepting_def)
qed

theorem shown_request_answered_witness:
  "(9, keyringReplyOk ''k1'' ''pw'', True) \<in> set (a_sent (ln_agent (submits still_env 7 run_typed)))
   \<and> \<not> keyringHasPending ''k1'' (ln_agent (submits still_env 7 run_typed)) \<and> link_reachable 7 (submits still_env 7 run_typed)"
proof -
  note y = run_typed_facts
  have k: "keyringHasPending ''k1'' (ln_agent run_typed)" "keyringSocket ''k1'' (ln_agent run_typed) = 9"
    unfolding y(2) by code_simp+
  have e: "(9 :: socket) \<noteq> nullptr" "e_connected still_env 9" by (simp_all add: still_env_def example_env_def)
  have st: "steady still_env 7 (ln_agent run_typed)" unfolding y(2) by (rule run_steady) (simp add: run_registries)
  have "isConnected (run_client 10)" by code_simp
  then have c: "isConnected (app_client (ln_app run_typed))"
    by (simp only: y(5) staged_app(2) [OF run_links(3,6) run_mails(3)])
  have g: "fw_session (app_window (ln_app run_typed)) = ''k1''" "CloseAny \<notin> set (fw_closers (app_window (ln_app run_typed)))"
    "CloseIf ''k1'' \<notin> set (fw_closers (app_window (ln_app run_typed)))"
    "fw_submitEnabled (app_window (ln_app run_typed))" "\<not> fw_confirmOnly (app_window (ln_app run_typed))"
    using y(6,7) by (simp_all add: glance_def accepting_def)
  have n: "''k1'' \<noteq> ([] :: string)" "''pw'' \<noteq> ([] :: string)" by simp_all
  show ?thesis
    using shown_request_answered [OF y(1,3,4) st refl g(1) n(1) g(2-5) y(8) n(2) c refl refl, of 9] k e by blast
qed

end
