(* ===== verification/End_To_End.thy ===== *)
theory End_To_End
  imports Single_Instance Prompter_Process Prompter_Memory Entry_Points Fallback_Geometry Live_Answer
begin

text \<open>
  The programs together: what is typed into the fallback window travels through the daemon to the
  program that asked for it.
\<close>

text \<open>C1: a keyring password from the key press to gnome-keyring.  The fallback window shows the request of a
  keyring client, the user submits a text: the client sends one message; the daemon, taking it from the
  active provider, answers the program that asked, with the buffer wiped after sending, and forgets
  request and session; and that program, reading the answer, hands exactly the text typed to
  gnome-keyring.  Nothing of it stays in the input field.\<close>

theorem keyring_end_to_end:
  assumes window: "fw_session (app_window f) = c" "c \<noteq> []" "fw_submitEnabled (app_window f)"
      "\<not> fw_confirmOnly (app_window f)" "fw_input (app_window f) = pw" "pw \<noteq> []" "isConnected (app_client f)"
    and daemon: "isAuthorized provider (a_registry a)" "keyringHasPending c a" "keyringSocket c a = orig"
      "orig \<noteq> nullptr" "e_connected env orig"
    and codec: "json_codec fromJson toJson (keyringReplyOk c pw)"
  shows "\<exists>m reply. fc_sent (app_client (viaWindow InSubmit f)) = fc_sent (app_client f) @ [m]
    \<and> (orig, reply, True) \<in> set (a_sent (handleMessage env provider (toStr (jvalue m ''type'')) m a))
    \<and> \<not> keyringHasPending c (handleMessage env provider (toStr (jvalue m ''type'')) m a)
    \<and> sessionSource (handleMessage env provider (toStr (jvalue m ''type'')) m a) = (sessionSource a)(c := None)
    \<and> (\<exists>q. bb_auth_prompt_password (replies toJson reply) toJson fromJson pid r False p = Returned (TaskValue (Some pw), q))
    \<and> fw_input (app_window (viaWindow InSubmit f)) = []"
proof -
  note d = respond_keyring [OF daemon(1) respondMsg_fields(2) daemon(2-5) refl, of pw, unfolded respondMsg_fields(3)]
  have "\<exists>q. bb_auth_prompt_password (replies toJson (keyringReplyOk c pw)) toJson fromJson pid r False p
      = Returned (TaskValue (Some pw), q)"
    by (simp add: bb_auth_prompt_password_def generate_cookie_def password_request_thread_def
        bb_auth_ipc_send_keyring_request_def send_replies [OF codec] reply_cases Let_def)
  then show ?thesis
    using submit_sends [OF window] d
    by (intro exI [of _ "respondMsg c pw"] exI [of _ "keyringReplyOk c pw"]) (simp add: respondMsg_fields)
qed

text \<open>C2: a passphrase from the key press to gpg-agent.  The window shows the request of a pinentry process,
  as the daemon read it, and the user submits a text: the daemon sends it, wiped afterwards, to exactly
  that process and waits for its verdict; the process, when this reply comes for its request, gives
  gpg-agent the text typed, in percent encoding, and OK.\<close>

theorem pinentry_end_to_end:
  assumes window: "fw_session (app_window f) = c" "c \<noteq> []" "fw_submitEnabled (app_window f)"
      "\<not> fw_confirmOnly (app_window f)" "fw_input (app_window f) = pw" "pw \<noteq> []" "isConnected (app_client f)"
    and daemon: "isAuthorized provider (a_registry a)" "\<not> keyringHasPending c a"
      "hash_find (pm_pending (a_pinentry a)) c = Some (parsePinentryRequest (passwordRequest c (se_state s)) orig peer)"
      "orig \<noteq> nullptr" "e_connected env orig"
    and process: "\<not> se_awaiting s" "c = se_flowCookie (ensureFlowCookie penv s)"
      "pe_reply penv (length (se_requests s)) (passwordRequest c (se_state s))
        = Some (pinentryReply (parsePinentryRequest (passwordRequest c (se_state s)) orig peer) c pw)"
  shows "\<exists>m reply. fc_sent (app_client (viaWindow InSubmit f)) = fc_sent (app_client f) @ [m]
    \<and> (orig, reply, True) \<in> set (a_sent (handleMessage env provider (toStr (jvalue m ''type'')) m a))
    \<and> isAwaitingOutcome c (handleMessage env provider (toStr (jvalue m ''type'')) m a)
    \<and> pe_reply penv (length (se_requests s)) (passwordRequest c (se_state s)) = Some reply
    \<and> se_out (snd (handleGetPin penv s)) = se_out s @ [''D '' @ assuanEncode pw, ''OK'']"
proof -
  let ?rq = "parsePinentryRequest (passwordRequest c (se_state s)) orig peer"
  have rq: "pr_socket ?rq = orig" "\<not> pr_confirmOnly ?rq"
    by (simp_all add: parsePinentryRequest_def passwordRequest_def Let_def)
  note d = respond_pinentry_sends [OF daemon(1-3) rq(1) daemon(4,5), of pw]
  have acc: "accepts penv (length (se_requests s)) (passwordRequest c (se_state s))"
    "toStr (jvalue (pinentryReply ?rq c pw) ''password'') = pw"
    using rq(2) by (simp_all add: accepts_def okReply_def process(3) pinentryReply_def)
  have out: "se_out (snd (handleGetPin penv s)) = se_out s @ [''D '' @ assuanEncode pw, ''OK'']"
    using getpin_effect [OF process(1,2) refl refl refl refl] acc window(6) by (simp add: process(3))
  show ?thesis
    using submit_sends [OF window] d out process(3)
    by (intro exI [of _ "respondMsg c pw"] exI [of _ "pinentryReply ?rq c pw"]) (simp add: respondMsg_fields)
qed

section \<open>Instances\<close>

definition exampleApp :: fb_app where
  "exampleApp = \<lparr>app_client = newClient\<lparr>fc_socket := Connected\<rparr>, app_window = typeText ''pw'' (shownWindow ''k1'')\<rparr>"

lemma exampleApp_facts:
  "fw_session (app_window exampleApp) = ''k1''" "fw_submitEnabled (app_window exampleApp)"
  "\<not> fw_confirmOnly (app_window exampleApp)" "fw_input (app_window exampleApp) = ''pw''" "isConnected (app_client exampleApp)"
  by (simp_all add: exampleApp_def typeText_def shownWindow_facts isConnected_def)

definition exampleAgent :: agent where
  "exampleAgent = keyringHandleRequest example_env example_keyring_msg 7 107 (initAgent [] [])"

lemma exampleAgent_facts:
  "isAuthorized 3 (a_registry exampleAgent)" "keyringHasPending ''k1'' exampleAgent" "keyringSocket ''k1'' exampleAgent = 7"
  "e_connected example_env 7"
  using example_keyring_state by (simp_all add: exampleAgent_def isAuthorized_def example_env_def)

lemma keyring_end_to_end_witness:
  "\<exists>m reply. fc_sent (app_client (viaWindow InSubmit exampleApp)) = fc_sent (app_client exampleApp) @ [m]
    \<and> (7, reply, True) \<in> set (a_sent (handleMessage example_env 3 (toStr (jvalue m ''type'')) m exampleAgent))
    \<and> (\<exists>q. bb_auth_prompt_password (replies (\<lambda>_. ''{o}'') reply) (\<lambda>_. ''{o}'') (\<lambda>_. Inr (JObj (keyringReplyOk ''k1'' ''pw''))) 10 5 False
            bb_auth_prompt_init = Returned (TaskValue (Some ''pw''), q))"
proof -
  have "newline \<notin> set ''{o}''" by code_simp
  then have "json_codec (\<lambda>_. Inr (JObj (keyringReplyOk ''k1'' ''pw''))) (\<lambda>_. ''{o}'') (keyringReplyOk ''k1'' ''pw'')"
    by (simp add: json_codec_def)
  from keyring_end_to_end [OF exampleApp_facts(1) _ exampleApp_facts(2-4) _ exampleApp_facts(5) exampleAgent_facts(1-3) _
      exampleAgent_facts(4) this, of 10 5 bb_auth_prompt_init]
  show ?thesis by auto
qed

definition pinentryApp :: fb_app where
  "pinentryApp = \<lparr>app_client = newClient\<lparr>fc_socket := Connected\<rparr>, app_window = typeText ''pw'' (shownWindow ''u'')\<rparr>"

lemma pinentryApp_facts:
  "fw_session (app_window pinentryApp) = ''u''" "fw_submitEnabled (app_window pinentryApp)"
  "\<not> fw_confirmOnly (app_window pinentryApp)" "fw_input (app_window pinentryApp) = ''pw''" "isConnected (app_client pinentryApp)"
  by (simp_all add: pinentryApp_def typeText_def shownWindow_facts isConnected_def)

definition pinentryRequestRead :: pinentry_request where
  "pinentryRequestRead = parsePinentryRequest (passwordRequest ''u'' emptyState) 7 107"

definition pinentryAgent :: agent where
  "pinentryAgent = (initAgent [] [])\<lparr>a_pinentry := (a_pinentry (initAgent [] []))\<lparr>pm_pending := [(''u'', pinentryRequestRead)]\<rparr>\<rparr>"

definition pinentryDaemon :: pinentry_env where
  "pinentryDaemon = (exampleDaemon ''pw'')\<lparr>pe_reply := \<lambda>n r. Some (pinentryReply pinentryRequestRead ''u'' ''pw'')\<rparr>"

lemma pinentry_end_to_end_witness:
  "se_out (snd (handleGetPin pinentryDaemon newPinentrySession)) = [''D '' @ assuanEncode ''pw'', ''OK'']
   \<and> isAwaitingOutcome ''u'' (handleMessage example_env 3 ''session.respond'' (respondMsg ''u'' ''pw'') pinentryAgent)"
proof -
  have a: "isAuthorized 3 (a_registry pinentryAgent)" "\<not> keyringHasPending ''u'' pinentryAgent"
    "hash_find (pm_pending (a_pinentry pinentryAgent)) ''u'' = Some (parsePinentryRequest (passwordRequest ''u'' (se_state newPinentrySession)) 7 107)"
    "e_connected example_env 7"
    by (simp_all add: pinentryAgent_def pinentryRequestRead_def initAgent_def emptyRegistry_def isAuthorized_def
        keyringHasPending_def newPinentrySession_def example_env_def)
  have s: "\<not> se_awaiting newPinentrySession" "''u'' = se_flowCookie (ensureFlowCookie pinentryDaemon newPinentrySession)"
    "pe_reply pinentryDaemon (length (se_requests newPinentrySession)) (passwordRequest ''u'' (se_state newPinentrySession))
      = Some (pinentryReply (parsePinentryRequest (passwordRequest ''u'' (se_state newPinentrySession)) 7 107) ''u'' ''pw'')"
    by (simp_all add: newPinentrySession_def ensureFlowCookie_def pinentryDaemon_def exampleDaemon_def pinentryRequestRead_def)
  have sent: "fc_sent (app_client (viaWindow InSubmit pinentryApp)) = fc_sent (app_client pinentryApp) @ [respondMsg ''u'' ''pw'']"
    using submit_sends [OF pinentryApp_facts(1) _ pinentryApp_facts(2-4) _ pinentryApp_facts(5)] by simp
  have o: "se_out newPinentrySession = []" by (simp add: newPinentrySession_def)
  from pinentry_end_to_end [OF pinentryApp_facts(1) _ pinentryApp_facts(2-4) _ pinentryApp_facts(5) a(1-3) _ a(4) s]
  show ?thesis by (auto simp: sent o respondMsg_fields)
qed

end
